(* ===== verification/Gateway_Prelude.thy ===== *)
theory Gateway_Prelude
  imports Complex_Main "HOL-Library.Word" "HOL-Library.AList" "HOL-Library.Multiset"
begin

text \<open>
  Shared vocabulary of the gateway development: the Go types every component uses (byte strings,
  maps that are iterated, IEEE doubles kept as their 64 bits), the simplification collections,
  and the facts on lists and association lists that more than one component needs.
\<close>

unbundle bit_operations_syntax

named_theorems go_defs \<open>definitions that proofs about closed terms unfold\<close>

section \<open>Go values\<close>

text \<open>
  A Go \<open>string\<close> is a list of bytes (HOL's \<^typ>\<open>char\<close>). A Go \<open>map[string]V\<close> that the code ranges
  over is an association list with distinct keys; where only lookups matter it is read with
  \<^const>\<open>map_of\<close>. A \<open>float64\<close> is its bit pattern.
\<close>

type_synonym 'v gomap = "(string \<times> 'v) list"

type_synonym f64 = "64 word"

text \<open>\<open>math.IsNaN\<close>, \<open>math.IsInf(x, 0)\<close> and the constant 1.0 on bit patterns.\<close>

definition f64_exp_ones :: "f64 \<Rightarrow> bool" where
  "f64_exp_ones x \<longleftrightarrow> x AND 0x7FF0000000000000 = 0x7FF0000000000000"

definition f64_is_nan :: "f64 \<Rightarrow> bool" where
  "f64_is_nan x \<longleftrightarrow> f64_exp_ones x \<and> x AND 0x000FFFFFFFFFFFFF \<noteq> 0"

definition f64_is_inf :: "f64 \<Rightarrow> bool" where
  "f64_is_inf x \<longleftrightarrow> f64_exp_ones x \<and> x AND 0x000FFFFFFFFFFFFF = 0"

definition f64_one :: f64 where
  "f64_one = 0x3FF0000000000000"

text \<open>Two's complement wrap-around of a Go \<open>int64\<close>.\<close>

definition int64 :: "int \<Rightarrow> int" where
  "int64 x = (x + 2 ^ 63) mod 2 ^ 64 - 2 ^ 63"

lemma int64_id: "- (2 ^ 63) \<le> x \<Longrightarrow> x < 2 ^ 63 \<Longrightarrow> int64 x = x"
  by (simp add: int64_def)

lemmas f64_defs [go_defs] = f64_exp_ones_def f64_is_nan_def f64_is_inf_def f64_one_def

section \<open>Sorted prefixes\<close>

text \<open>
  A list that is strictly increasing under a key splits at every threshold into a prefix at or
  below it and a suffix above it.
\<close>

abbreviation increasing_on :: "('a \<Rightarrow> int) \<Rightarrow> 'a list \<Rightarrow> bool" where
  "increasing_on k xs \<equiv> sorted_wrt (\<lambda>a b. k a < k b) xs"

lemma increasing_on_drop [simp]: "increasing_on k xs \<Longrightarrow> increasing_on k (drop n xs)"
  by (simp add: sorted_wrt_drop)

lemma increasing_on_filter [simp]: "increasing_on k xs \<Longrightarrow> increasing_on k (filter P xs)"
  by (simp add: sorted_wrt_filter)

lemma increasing_filter_le_take:
  assumes "increasing_on k xs"
  shows "filter (\<lambda>x. k x \<le> c) xs = take (length (filter (\<lambda>x. k x \<le> c) xs)) xs"
  using assms
proof (induction xs)
  case (Cons x xs)
  show ?case
  proof (cases "k x \<le> c")
    case False
    with Cons.prems have "filter (\<lambda>y. k y \<le> c) xs = []"
      by (auto simp: filter_empty_conv)
    with False show ?thesis by simp
  qed (use Cons in simp)
qed simp

lemma increasing_filter_gt_drop:
  assumes "increasing_on k xs"
  shows "filter (\<lambda>x. c < k x) xs = drop (length (filter (\<lambda>x. k x \<le> c) xs)) xs"
  using assms
proof (induction xs)
  case (Cons x xs)
  show ?case
  proof (cases "k x \<le> c")
    case False
    with Cons.prems have "filter (\<lambda>y. k y \<le> c) xs = []" "filter (\<lambda>y. c < k y) xs = xs"
      by (force simp: filter_empty_conv filter_id_conv)+
    with False show ?thesis by simp
  qed (use Cons in simp)
qed simp

lemma increasing_on_le_last: "increasing_on k xs \<Longrightarrow> x \<in> set xs \<Longrightarrow> k x \<le> k (last xs)"
  by (induction xs) (auto intro: less_imp_le)

lemma increasing_on_distinct: "increasing_on k xs \<Longrightarrow> distinct (map k xs)"
  by (induction xs) auto

lemma increasing_on_sorted: "increasing_on k xs \<Longrightarrow> sorted (map k xs)"
  by (induction xs) (auto intro: less_imp_le)

lemma increasing_on_sort_key [simp]: "increasing_on k xs \<Longrightarrow> sort_key k xs = xs"
  using increasing_on_sorted [of k xs] by (rule sort_key_id_if_sorted)

lemma increasing_on_sort [simp]: "increasing_on k xs \<Longrightarrow> sort (map k xs) = map k xs"
  by (simp add: increasing_on_sorted sorted_sort_id)

lemma filter_notin_take_keys:
  "distinct (map k xs) \<Longrightarrow> filter (\<lambda>x. k x \<notin> k ` set (take n xs)) xs = drop n xs"
proof (induction xs arbitrary: n)
  case (Cons x xs)
  show ?case
  proof (cases n)
    case (Suc m)
    have "filter (\<lambda>y. k y \<notin> k ` set (take n (x # xs))) (x # xs)
        = filter (\<lambda>y. k y \<notin> k ` set (take m xs)) xs"
      using Cons.prems Suc by (auto intro!: filter_cong simp: image_iff)
    with Cons Suc show ?thesis by simp
  qed simp
qed simp

lemma length_filter_le_take:
  assumes "increasing_on k xs" "n \<le> length xs"
  shows "length (filter (\<lambda>x. k x \<le> c) (take n xs)) = min n (length (filter (\<lambda>x. k x \<le> c) xs))"
  using assms
proof (induction xs arbitrary: n)
  case (Cons x xs)
  show ?case
  proof (cases n)
    case (Suc m)
    show ?thesis
    proof (cases "k x \<le> c")
      case False
      with Cons.prems have "\<forall>y\<in>set xs. \<not> k y \<le> c" by auto
      then have "filter (\<lambda>y. k y \<le> c) xs = []" "filter (\<lambda>y. k y \<le> c) (take m xs) = []"
        by (auto simp: filter_empty_conv dest: in_set_takeD)
      with False Suc show ?thesis by simp
    qed (use Cons Suc in simp)
  qed simp
qed simp

lemma length_filter_gt_eq:
  "length (filter (\<lambda>x. c < k x) xs) = length xs - length (filter (\<lambda>x. k x \<le> (c::int)) xs)"
  using sum_length_filter_compl [of "\<lambda>x. k x \<le> c" xs] by (simp add: not_le)

end
