(* ===== verification/Go_Lib.thy ===== *)
theory Go_Lib
  imports Gateway_Prelude
begin

text \<open>
  What the gateway uses of Go's standard library: \<open>strings.TrimSpace\<close>, \<open>ToLower\<close>, \<open>EqualFold\<close>,
  \<open>Split\<close> and \<open>Join\<close> on byte strings, and \<open>encoding/json\<close> decoding into structs at the level of
  JSON values. The text form of JSON (scanner, escapes, number literals) is the parameter
  \<open>json_lib\<close> of the components that read or write it.
\<close>

section \<open>Byte strings\<close>

text \<open>The encodings of the runes \<open>unicode.IsSpace\<close> accepts.\<close>

definition space_runes :: "string list" where
  "space_runes =
    [[CHR 0x09], [CHR 0x0A], [CHR 0x0B], [CHR 0x0C], [CHR 0x0D], [CHR 0x20], [CHR 0xC2, CHR 0x85], 
     [CHR 0xC2, CHR 0xA0], [CHR 0xE1, CHR 0x9A, CHR 0x80], [CHR 0xE2, CHR 0x80, CHR 0x80], 
     [CHR 0xE2, CHR 0x80, CHR 0x81], [CHR 0xE2, CHR 0x80, CHR 0x82], [CHR 0xE2, CHR 0x80, CHR 0x83], 
     [CHR 0xE2, CHR 0x80, CHR 0x84], [CHR 0xE2, CHR 0x80, CHR 0x85], [CHR 0xE2, CHR 0x80, CHR 0x86], 
     [CHR 0xE2, CHR 0x80, CHR 0x87], [CHR 0xE2, CHR 0x80, CHR 0x88], [CHR 0xE2, CHR 0x80, CHR 0x89], 
     [CHR 0xE2, CHR 0x80, CHR 0x8A], [CHR 0xE2, CHR 0x80, CHR 0xA8], [CHR 0xE2, CHR 0x80, CHR 0xA9], 
     [CHR 0xE2, CHR 0x80, CHR 0xAF], [CHR 0xE2, CHR 0x81, CHR 0x9F], [CHR 0xE3, CHR 0x80, CHR 0x80]]"

definition is_prefix :: "string \<Rightarrow> string \<Rightarrow> bool" where
  "is_prefix p s \<longleftrightarrow> take (length p) s = p"

definition TrimPrefix :: "string \<Rightarrow> string \<Rightarrow> string" where
  "TrimPrefix s p = (if is_prefix p s then drop (length p) s else s)"

text \<open>Dropping patterns from the front as long as one matches; every pattern is non-empty.\<close>

definition strip_one :: "string list \<Rightarrow> string \<Rightarrow> string option" where
  "strip_one ps s = (case filter (\<lambda>p. p \<noteq> [] \<and> is_prefix p s) ps of [] \<Rightarrow> None | p # _ \<Rightarrow> Some (drop (length p) s))"

lemma strip_one_shorter: "strip_one ps s = Some t \<Longrightarrow> length t < length s"
proof -
  assume "strip_one ps s = Some t"
  then obtain p ps' where p: "filter (\<lambda>p. p \<noteq> [] \<and> is_prefix p s) ps = p # ps'" "t = drop (length p) s"
    by (auto simp: strip_one_def split: list.splits)
  then have "p \<in> set (filter (\<lambda>p. p \<noteq> [] \<and> is_prefix p s) ps)" by simp
  then have "0 < length p" "0 < length s" by (auto simp: is_prefix_def)
  with p(2) show ?thesis by simp
qed

function strip_all :: "string list \<Rightarrow> string \<Rightarrow> string" where
  "strip_all ps s = (case strip_one ps s of None \<Rightarrow> s | Some t \<Rightarrow> strip_all ps t)"
  by pat_completeness auto
termination by (relation "measure (\<lambda>(ps, s). length s)") (auto dest: strip_one_shorter)

declare strip_all.simps [simp del]

definition TrimSpace :: "string \<Rightarrow> string" where
  "TrimSpace s = rev (strip_all (map rev space_runes) (rev (strip_all space_runes s)))"

definition lower_byte :: "char \<Rightarrow> char" where
  "lower_byte c = (let n = of_char c :: nat in if 0x41 \<le> n \<and> n \<le> 0x5A then char_of (n + 32) else c)"

text \<open>\<open>strings.ToLower\<close> on the ASCII range; bytes of longer encodings are kept.\<close>

definition ToLower :: "string \<Rightarrow> string" where
  "ToLower s = map lower_byte s"

text \<open>\<open>strings.EqualFold\<close> with a second argument in ASCII that has no \<open>k\<close> or \<open>s\<close> (no other rune folds to it).\<close>

definition EqualFold :: "string \<Rightarrow> string \<Rightarrow> bool" where
  "EqualFold s t \<longleftrightarrow> ToLower s = ToLower t"

text \<open>\<open>strings.Split(s, sep)\<close> for a one-byte separator and \<open>strings.Join\<close>.\<close>

fun Split :: "char \<Rightarrow> string \<Rightarrow> string list" where
  "Split sep [] = [[]]"
| "Split sep (c # s) =
     (if c = sep then [] # Split sep s
      else case Split sep s of [] \<Rightarrow> [[c]] | w # ws \<Rightarrow> (c # w) # ws)"

fun Join :: "string \<Rightarrow> string list \<Rightarrow> string" where
  "Join sep [] = []"
| "Join sep [w] = w"
| "Join sep (w # v # ws) = w @ sep @ Join sep (v # ws)"

lemma Split_not_Nil [simp]: "Split sep s \<noteq> []"
  by (induction s) (auto split: list.splits)

lemma Join_Split: "Join [sep] (Split sep s) = s"
proof (induction s)
  case (Cons c s)
  then show ?case by (cases "Split sep s"; cases "tl (Split sep s)") auto
qed simp

lemma Split_no_sep: "w \<in> set (Split sep s) \<Longrightarrow> sep \<notin> set w"
  by (induction s arbitrary: w) (auto split: if_splits list.splits)

lemma Split_append: "sep \<notin> set w \<Longrightarrow> Split sep (w @ sep # s) = w # Split sep s"
  by (induction w) auto

lemma Split_no_sep_single: "sep \<notin> set w \<Longrightarrow> Split sep w = [w]"
  by (induction w) auto

lemma Split_Join: "ws \<noteq> [] \<Longrightarrow> \<forall>w \<in> set ws. sep \<notin> set w \<Longrightarrow> Split sep (Join [sep] ws) = ws"
  by (induction "[sep]" ws rule: Join.induct) (auto simp: Split_append Split_no_sep_single)

section \<open>JSON values\<close>

text \<open>A number keeps its literal, as \<open>Decoder.UseNumber\<close> does.\<close>

datatype json = JNull | JBool bool | JNum string | JStr string | JArr "json list" | JObj "(string \<times> json) list"

record json_lib =
  json_read :: "string \<Rightarrow> json option"
  json_write :: "json \<Rightarrow> string"
  parse_float :: "string \<Rightarrow> f64 option"
  format_float :: "f64 \<Rightarrow> string"

text \<open>
  Decoding into a struct: the members are taken in order, each looked up by its exact name and then
  by its folded name, unknown members are skipped, \<open>null\<close> leaves a field as it is, and a value of the
  wrong type makes the whole decoding fail.
\<close>

fun fold_name :: "string \<Rightarrow> string" where
  "fold_name (a # b # c # s) =
     (if a = CHR 0xE2 \<and> b = CHR 0x84 \<and> c = CHR 0xAA then CHR ''k'' # fold_name s
      else if a = CHR 0xC5 \<and> b = CHR 0xBF then CHR ''s'' # fold_name (c # s)
      else lower_byte a # fold_name (b # c # s))"
| "fold_name [a, b] = (if a = CHR 0xC5 \<and> b = CHR 0xBF then [CHR ''s''] else [lower_byte a, lower_byte b])"
| "fold_name [a] = [lower_byte a]"
| "fold_name [] = []"

type_synonym 'a field_decoder = "json \<Rightarrow> 'a \<Rightarrow> 'a option"

definition find_field :: "(string \<times> 'd) list \<Rightarrow> string \<Rightarrow> 'd option" where
  "find_field fs k = (case map_of fs k of
      Some d \<Rightarrow> Some d
    | None \<Rightarrow> map_of (map (\<lambda>(n, d). (fold_name n, d)) fs) (fold_name k))"

fun dec_members :: "(string \<times> 'a field_decoder) list \<Rightarrow> (string \<times> json) list \<Rightarrow> 'a \<Rightarrow> 'a option" where
  "dec_members fs [] x = Some x"
| "dec_members fs ((k, v) # ms) x =
     (case find_field fs k of
        None \<Rightarrow> dec_members fs ms x
      | Some d \<Rightarrow> (case d v x of None \<Rightarrow> None | Some y \<Rightarrow> dec_members fs ms y))"

definition dec_struct :: "(string \<times> 'a field_decoder) list \<Rightarrow> json \<Rightarrow> 'a \<Rightarrow> 'a option" where
  "dec_struct fs j x = (case j of JObj ms \<Rightarrow> dec_members fs ms x | JNull \<Rightarrow> Some x | _ \<Rightarrow> None)"

definition dec_string :: "(string \<Rightarrow> 'a \<Rightarrow> 'a) \<Rightarrow> 'a field_decoder" where
  "dec_string upd j x = (case j of JStr s \<Rightarrow> Some (upd s x) | JNull \<Rightarrow> Some x | _ \<Rightarrow> None)"

definition dec_bool :: "(bool \<Rightarrow> 'a \<Rightarrow> 'a) \<Rightarrow> 'a field_decoder" where
  "dec_bool upd j x = (case j of JBool b \<Rightarrow> Some (upd b x) | JNull \<Rightarrow> Some x | _ \<Rightarrow> None)"

text \<open>Into a \<open>map[string]string\<close>: entries are added to the map already there, \<open>null\<close> empties it.\<close>

fun dec_map_members :: "(string \<times> json) list \<Rightarrow> string gomap \<Rightarrow> string gomap option" where
  "dec_map_members [] m = Some m"
| "dec_map_members ((k, v) # ms) m =
     (case v of
        JStr s \<Rightarrow> dec_map_members ms (AList.update k s m)
      | JNull \<Rightarrow> dec_map_members ms (AList.update k [] m)
      | _ \<Rightarrow> None)"

definition dec_string_map :: "json \<Rightarrow> string gomap \<Rightarrow> string gomap option" where
  "dec_string_map j m = (case j of JObj ms \<Rightarrow> dec_map_members ms m | JNull \<Rightarrow> Some [] | _ \<Rightarrow> None)"

text \<open>Into a slice of structs: each element starts from the zero value.\<close>

fun dec_elements :: "(json \<Rightarrow> 'a option) \<Rightarrow> json list \<Rightarrow> 'a list option" where
  "dec_elements d [] = Some []"
| "dec_elements d (j # js) =
     (case d j of None \<Rightarrow> None | Some x \<Rightarrow> (case dec_elements d js of None \<Rightarrow> None | Some xs \<Rightarrow> Some (x # xs)))"

definition dec_slice :: "(json \<Rightarrow> 'a option) \<Rightarrow> json \<Rightarrow> 'a list option" where
  "dec_slice d j = (case j of JArr js \<Rightarrow> dec_elements d js | JNull \<Rightarrow> Some [] | _ \<Rightarrow> None)"

lemma dec_elements_map: "\<forall>x \<in> set xs. d (e x) = Some x \<Longrightarrow> dec_elements d (map e xs) = Some xs"
  by (induction xs) auto

lemma dec_elements_length: "dec_elements d js = Some xs \<Longrightarrow> length xs = length js"
  by (induction js arbitrary: xs) (auto split: option.splits)

lemma find_field_exact: "map_of fs k = Some d \<Longrightarrow> find_field fs k = Some d"
  by (simp add: find_field_def)

text \<open>A member list that omits empty strings and false, as \<open>omitempty\<close> writes it.\<close>

definition opt_str :: "string \<Rightarrow> string \<Rightarrow> (string \<times> json) list" where
  "opt_str k s = (if s = [] then [] else [(k, JStr s)])"

definition opt_bool :: "string \<Rightarrow> bool \<Rightarrow> (string \<times> json) list" where
  "opt_bool k b = (if b then [(k, JBool True)] else [])"

lemma dec_members_append:
  "dec_members fs (ms @ ns) x = (case dec_members fs ms x of None \<Rightarrow> None | Some y \<Rightarrow> dec_members fs ns y)"
  by (induction fs ms x rule: dec_members.induct) (auto split: option.splits)

lemma strip_all_Nil [simp]: "strip_all ps [] = []"
  by (subst strip_all.simps) (auto dest: strip_one_shorter split: option.splits)

lemma TrimSpace_Nil [simp]: "TrimSpace [] = []"
  by (simp add: TrimSpace_def)

end
