(* ===== verification/Point_List.thy ===== *)
theory Point_List
  imports Go_Lib
begin

text \<open>
  The Point List (\<open>internal/pointlist\<close>): entries, the two resolvers over them, the JSON file a synced
  resolver is saved to, and the CSV loader. The CSV reader's rows and the JSON text are parameters.
\<close>

section \<open>Entries and indices\<close>

record Entry =
  ReleaseOf :: string
  ConnectorID :: string
  Protocol :: string
  LocalID :: string
  PointID :: string
  EntryUnit :: string
  Writable :: bool
  DeviceRef :: string
  ControlSchema :: string

definition zero_Entry :: Entry where
  "zero_Entry = \<lparr>ReleaseOf = [], ConnectorID = [], Protocol = [], LocalID = [], PointID = [], EntryUnit = [],
     Writable = False, DeviceRef = [], ControlSchema = []\<rparr>"

definition key :: "string \<Rightarrow> string \<Rightarrow> string" where
  "key c l = c @ [CHR 0x00] @ l"

text \<open>Indexing loops: a later entry overwrites an earlier one.\<close>

fun index_forward :: "Entry list \<Rightarrow> string gomap \<Rightarrow> string gomap" where
  "index_forward [] m = m"
| "index_forward (e # es) m =
     index_forward es (if ReleaseOf e = [] then AList.update (key (ConnectorID e) (LocalID e)) (PointID e) m else m)"

fun index_reverse :: "Entry list \<Rightarrow> Entry gomap \<Rightarrow> Entry gomap" where
  "index_reverse [] m = m"
| "index_reverse (e # es) m = index_reverse es (AList.update (PointID e) e m)"

record Fixture =
  fixture_index :: "string gomap"

definition NewFixture :: "Entry list \<Rightarrow> Fixture" where
  "NewFixture es = \<lparr>fixture_index = index_forward es []\<rparr>"

definition Fixture_Resolve :: "Fixture \<Rightarrow> string \<Rightarrow> string \<Rightarrow> string option" where
  "Fixture_Resolve f c l = map_of (fixture_index f) (key c l)"

record SyncedResolver =
  idx_forward :: "string gomap"
  idx_reverse :: "Entry gomap"
  idx_entries :: "Entry list"
  syn_notify :: "bool option"

text \<open>\<open>notify\<close> is \<^const>\<open>None\<close> without a channel, otherwise whether a signal is pending.\<close>

definition NewSynced :: "bool option \<Rightarrow> SyncedResolver" where
  "NewSynced n = \<lparr>idx_forward = [], idx_reverse = [], idx_entries = [], syn_notify = n\<rparr>"

definition Synced_Resolve :: "SyncedResolver \<Rightarrow> string \<Rightarrow> string \<Rightarrow> string option" where
  "Synced_Resolve r c l = map_of (idx_forward r) (key c l)"

definition ResolveReverse :: "SyncedResolver \<Rightarrow> string \<Rightarrow> Entry option" where
  "ResolveReverse r pid = map_of (idx_reverse r) pid"

definition Synced_Update :: "Entry list \<Rightarrow> SyncedResolver \<Rightarrow> SyncedResolver" where
  "Synced_Update es r =
     r\<lparr>idx_forward := index_forward es [], idx_reverse := index_reverse es [], idx_entries := es,
       syn_notify := (case syn_notify r of None \<Rightarrow> None | Some _ \<Rightarrow> Some True)\<rparr>"

definition Snapshot :: "SyncedResolver \<Rightarrow> Entry list" where
  "Snapshot r = idx_entries r"

text \<open>The entry of a point and the entry a command to it is written to.\<close>

definition ResolveControl :: "SyncedResolver \<Rightarrow> string \<Rightarrow> Entry \<times> Entry \<times> bool" where
  "ResolveControl r pid =
     (let e = (case map_of (idx_reverse r) pid of None \<Rightarrow> zero_Entry | Some e \<Rightarrow> e);
          ok = map_of (idx_reverse r) pid \<noteq> None;
          t = (if ReleaseOf e \<noteq> []
               then (case map_of (idx_reverse r) (ReleaseOf e) of None \<Rightarrow> zero_Entry | Some t \<Rightarrow> t) else e)
      in (e, t, ok))"

section \<open>The saved Point List\<close>

definition encode_Entry :: "Entry \<Rightarrow> json" where
  "encode_Entry e = JObj (opt_str ''release_of'' (ReleaseOf e)
     @ [(''connector_id'', JStr (ConnectorID e)), (''protocol'', JStr (Protocol e)),
        (''local_id'', JStr (LocalID e)), (''point_id'', JStr (PointID e))]
     @ opt_str ''unit'' (EntryUnit e) @ opt_bool ''writable'' (Writable e)
     @ opt_str ''device_ref'' (DeviceRef e) @ opt_str ''control_schema'' (ControlSchema e))"

definition Entry_fields :: "(string \<times> Entry field_decoder) list" where
  "Entry_fields =
     [(''release_of'', dec_string (\<lambda>s e. e\<lparr>ReleaseOf := s\<rparr>)),
      (''connector_id'', dec_string (\<lambda>s e. e\<lparr>ConnectorID := s\<rparr>)),
      (''protocol'', dec_string (\<lambda>s e. e\<lparr>Protocol := s\<rparr>)),
      (''local_id'', dec_string (\<lambda>s e. e\<lparr>LocalID := s\<rparr>)),
      (''point_id'', dec_string (\<lambda>s e. e\<lparr>PointID := s\<rparr>)),
      (''unit'', dec_string (\<lambda>s e. e\<lparr>EntryUnit := s\<rparr>)),
      (''writable'', dec_bool (\<lambda>b e. e\<lparr>Writable := b\<rparr>)),
      (''device_ref'', dec_string (\<lambda>s e. e\<lparr>DeviceRef := s\<rparr>)),
      (''control_schema'', dec_string (\<lambda>s e. e\<lparr>ControlSchema := s\<rparr>))]"

definition decode_entries :: "json \<Rightarrow> Entry list option" where
  "decode_entries j = dec_slice (\<lambda>x. dec_struct Entry_fields x zero_Entry) j"

text \<open>Reading a file: it is missing, unreadable, or has contents.\<close>

datatype file_read = FileMissing | FileError | FileData string

text \<open>\<open>Persist\<close> gives the bytes it writes; \<open>Load\<close> returns whether it failed.\<close>

definition Persist :: "json_lib \<Rightarrow> SyncedResolver \<Rightarrow> string" where
  "Persist jl r = json_write jl (JArr (map encode_Entry (Snapshot r)))"

definition Load :: "json_lib \<Rightarrow> file_read \<Rightarrow> SyncedResolver \<Rightarrow> bool \<times> SyncedResolver" where
  "Load jl f r =
     (case f of
        FileMissing \<Rightarrow> (True, r)
      | FileError \<Rightarrow> (False, r)
      | FileData d \<Rightarrow> (case json_read jl d of
          None \<Rightarrow> (False, r)
        | Some j \<Rightarrow> (case decode_entries j of None \<Rightarrow> (False, r) | Some es \<Rightarrow> (True, Synced_Update es r))))"

section \<open>CSV\<close>

definition is_digit :: "char \<Rightarrow> bool" where
  "is_digit c \<longleftrightarrow> 0x30 \<le> (of_char c :: nat) \<and> (of_char c :: nat) \<le> 0x39"

text \<open>The pattern \<open>^ns=\d+;[isgb]=\<close>.\<close>

definition match_opcua :: "string \<Rightarrow> bool" where
  "match_opcua s \<longleftrightarrow>
     (case s of
        a # b # c # rest \<Rightarrow> [a, b, c] = ''ns='' \<and> takeWhile is_digit rest \<noteq> []
          \<and> (case dropWhile is_digit rest of
               d # e # f # _ \<Rightarrow> d = CHR '';'' \<and> e \<in> set ''isgb'' \<and> f = CHR ''=''
             | _ \<Rightarrow> False)
      | _ \<Rightarrow> False)"

definition match_mqtt :: "string \<Rightarrow> bool" where
  "match_mqtt s \<longleftrightarrow> CHR ''/'' \<in> set s"

definition protocolPatterns :: "(string \<times> (string \<Rightarrow> bool)) list" where
  "protocolPatterns = [(''opcua'', match_opcua), (''mqtt'', match_mqtt)]"

definition InferProtocol :: "string \<Rightarrow> string" where
  "InferProtocol l = (case filter (\<lambda>p. snd p l) protocolPatterns of [] \<Rightarrow> [] | p # _ \<Rightarrow> fst p)"

record CSVOptions =
  opt_ConnectorID :: string
  opt_ConnectorMap :: "string gomap"

datatype csv_error = CsvRead | CsvEmpty | CsvNoPointID

datatype csv_warning = UnknownProtocol string string | NoConnector string string | Unmapped string string string
  | DuplicatePoint string

text \<open>The column map: a later header of the same name wins.\<close>

fun csv_columns :: "string list \<Rightarrow> nat \<Rightarrow> nat gomap \<Rightarrow> nat gomap" where
  "csv_columns [] i m = m"
| "csv_columns (h # hs) i m = csv_columns hs (Suc i) (AList.update (TrimSpace h) i m)"

definition csv_get :: "nat gomap \<Rightarrow> string list \<Rightarrow> string \<Rightarrow> string" where
  "csv_get col row name =
     (case map_of col name of
        None \<Rightarrow> []
      | Some i \<Rightarrow> if i \<ge> length row then [] else TrimSpace (row ! i))"

record csv_state =
  cs_entries :: "Entry list"
  cs_seen :: "string list"
  cs_warned :: "string list"
  cs_log :: "csv_warning list"

definition warnFallback :: "CSVOptions \<Rightarrow> string \<Rightarrow> string \<Rightarrow> csv_state \<Rightarrow> csv_state" where
  "warnFallback opts proto pid st =
     (if proto \<in> set (cs_warned st) then st
      else if opt_ConnectorID opts = [] then
        st\<lparr>cs_warned := proto # cs_warned st, cs_log := cs_log st @ [NoConnector proto pid]\<rparr>
      else if opt_ConnectorMap opts \<noteq> [] then
        st\<lparr>cs_warned := proto # cs_warned st, cs_log := cs_log st @ [Unmapped proto (opt_ConnectorID opts) pid]\<rparr>
      else st)"

text \<open>The native address of a row with the protocol it fixes, or that the row has none.\<close>

definition csv_address :: "(string \<Rightarrow> string) \<Rightarrow> (string \<times> string) option" where
  "csv_address get =
     (if get ''object_type_bacnet'' \<noteq> [] \<and> get ''instance_no_bacnet'' \<noteq> []
      then Some (get ''object_type_bacnet'' @ '','' @ get ''instance_no_bacnet'', ''bacnet'')
      else if get ''release_of'' \<noteq> [] then Some (get ''local_id'', [])
      else if get ''local_id'' \<noteq> [] then Some (get ''local_id'', [])
      else None)"

text \<open>The protocol of a row, and whether its inference failed.\<close>

definition csv_protocol :: "(string \<Rightarrow> string) \<Rightarrow> string \<Rightarrow> string \<Rightarrow> string \<times> bool" where
  "csv_protocol get localID proto =
     (if proto = ''bacnet'' then (proto, False)
      else if get ''release_of'' \<noteq> [] then (ToLower (TrimSpace (get ''protocol'')), False)
      else let p = ToLower (TrimSpace (get ''protocol'')) in
        if p \<noteq> [] then (p, False)
        else if InferProtocol localID = [] then (''unknown'', True)
        else (InferProtocol localID, False))"

definition csv_row :: "CSVOptions \<Rightarrow> nat gomap \<Rightarrow> string list \<Rightarrow> csv_state \<Rightarrow> csv_state" where
  "csv_row opts col row st =
     (let get = csv_get col row; pid = get ''point_id'' in
      if pid = [] then st
      else case csv_address get of
        None \<Rightarrow> st
      | Some (localID, proto0) \<Rightarrow>
        let (proto, unknown) = csv_protocol get localID proto0;
            st1 = (if unknown then st\<lparr>cs_log := cs_log st @ [UnknownProtocol pid localID]\<rparr> else st);
            mapped = (case map_of (opt_ConnectorMap opts) proto of None \<Rightarrow> [] | Some v \<Rightarrow> v);
            (cid, st2) =
              (if get ''connector_id'' \<noteq> [] then (get ''connector_id'', st1)
               else if mapped \<noteq> [] then (mapped, st1)
               else (opt_ConnectorID opts,
                     if get ''release_of'' = [] then warnFallback opts proto pid st1 else st1))
        in if pid \<in> set (cs_seen st2) then st2\<lparr>cs_log := cs_log st2 @ [DuplicatePoint pid]\<rparr>
           else st2\<lparr>cs_seen := pid # cs_seen st2,
                    cs_entries := cs_entries st2 @
                      [\<lparr>ReleaseOf = get ''release_of'', ConnectorID = cid, Protocol = proto, LocalID = localID,
                        PointID = pid, EntryUnit = get ''unit'', Writable = EqualFold (get ''writable'') ''true'',
                        DeviceRef = get ''device_id'', ControlSchema = []\<rparr>]\<rparr>)"

definition bom :: string where
  "bom = [CHR 0xEF, CHR 0xBB, CHR 0xBF]"

text \<open>The rows the CSV reader returned, or its error. A row it returns has at least one field.\<close>

definition LoadCSV :: "string list list option \<Rightarrow> CSVOptions \<Rightarrow> csv_error + (Entry list \<times> csv_warning list)" where
  "LoadCSV csv opts =
     (case csv of
        None \<Rightarrow> Inl CsvRead
      | Some [] \<Rightarrow> Inl CsvEmpty
      | Some (header # rows) \<Rightarrow>
          let header' = (case header of [] \<Rightarrow> [] | h # hs \<Rightarrow> TrimPrefix h bom # hs);
              col = csv_columns header' 0 []
          in if map_of col ''point_id'' = None then Inl CsvNoPointID
             else let st = fold (csv_row opts col) rows \<lparr>cs_entries = [], cs_seen = [], cs_warned = [], cs_log = []\<rparr>
               in Inr (cs_entries st, cs_log st))"

end
