(* ===== verification/Point_List_Facts.thy ===== *)
theory Point_List_Facts
  imports Point_List
begin

text \<open>
  Resolution as an interface: both resolvers answer a native address with the point of the last
  non-release entry that has it, and nothing else. The saved Point List reads back as it was, and the
  CSV loader yields one entry per point, first row first.
\<close>

section \<open>Resolution\<close>

lemma key_inject:
  assumes "CHR 0x00 \<notin> set c" "CHR 0x00 \<notin> set c'"
  shows "key c l = key c' l' \<longleftrightarrow> c = c' \<and> l = l'"
proof -
  have "c = c' \<and> l = l'" if "c @ CHR 0x00 # l = c' @ CHR 0x00 # l'"
    using that assms
  proof (induction c arbitrary: c')
    case Nil
    then show ?case by (cases c') auto
  next
    case (Cons a c)
    then show ?case by (cases c') auto
  qed
  then show ?thesis by (auto simp: key_def)
qed

definition last_such :: "('a \<Rightarrow> bool) \<Rightarrow> 'a list \<Rightarrow> 'a option" where
  "last_such P xs = (if filter P xs = [] then None else Some (last (filter P xs)))"

lemma last_such_Nil [simp]: "last_such P [] = None"
  by (simp add: last_such_def)

lemma last_such_Cons:
  "last_such P (x # xs) = (case last_such P xs of Some y \<Rightarrow> Some y | None \<Rightarrow> if P x then Some x else None)"
  by (auto simp: last_such_def)

lemma last_such_SomeD: "last_such P xs = Some x \<Longrightarrow> x \<in> set xs \<and> P x"
  using last_in_set [of "filter P xs"] by (auto simp: last_such_def split: if_splits)

lemma last_such_None: "last_such P xs = None \<longleftrightarrow> (\<forall>x \<in> set xs. \<not> P x)"
  by (auto simp: last_such_def filter_empty_conv)

lemma last_such_unique:
  assumes "distinct (map f xs)" "x \<in> set xs"
  shows "last_such (\<lambda>y. f y = f x) xs = Some x"
proof -
  have "last_such (\<lambda>y. f y = f x) xs \<noteq> None" using assms(2) by (auto simp: last_such_None)
  then obtain y where y: "last_such (\<lambda>y. f y = f x) xs = Some y" by blast
  with last_such_SomeD [OF y] assms have "y = x" by (auto simp: distinct_map dest: inj_onD)
  with y show ?thesis by simp
qed

lemma index_forward_lookup:
  "map_of (index_forward es m) k =
     (case last_such (\<lambda>e. ReleaseOf e = [] \<and> key (ConnectorID e) (LocalID e) = k) es of
        Some e \<Rightarrow> Some (PointID e) | None \<Rightarrow> map_of m k)"
  by (induction es arbitrary: m) (auto simp: last_such_Cons update_conv' split: option.splits)

lemma index_reverse_lookup:
  "map_of (index_reverse es m) p =
     (case last_such (\<lambda>e. PointID e = p) es of Some e \<Rightarrow> Some e | None \<Rightarrow> map_of m p)"
  by (induction es arbitrary: m) (auto simp: last_such_Cons update_conv' split: option.splits)

text \<open>The Resolver interface: what a list of entries resolves to, and what its client may rely on.\<close>

locale resolver =
  fixes build :: "Entry list \<Rightarrow> 'r"
    and resolve :: "'r \<Rightarrow> string \<Rightarrow> string \<Rightarrow> string option"
  assumes resolve_build: "resolve (build es) c l = map_option PointID
    (last_such (\<lambda>e. ReleaseOf e = [] \<and> key (ConnectorID e) (LocalID e) = key c l) es)"
begin

lemma resolve_sound:
  assumes "\<forall>e \<in> set es. CHR 0x00 \<notin> set (ConnectorID e)" "CHR 0x00 \<notin> set c" "resolve (build es) c l = Some p"
  shows "\<exists>e \<in> set es. ReleaseOf e = [] \<and> ConnectorID e = c \<and> LocalID e = l \<and> PointID e = p"
proof -
  from assms(3) obtain e where e: "PointID e = p"
    "last_such (\<lambda>e. ReleaseOf e = [] \<and> key (ConnectorID e) (LocalID e) = key c l) es = Some e"
    by (auto simp: resolve_build)
  from last_such_SomeD [OF e(2)] e(1) assms(1,2) show ?thesis by (metis key_inject)
qed

lemma resolve_complete:
  assumes "e \<in> set es" "ReleaseOf e = []"
  shows "resolve (build es) (ConnectorID e) (LocalID e) \<noteq> None"
  using assms by (auto simp: resolve_build last_such_None)

lemma resolve_unique:
  assumes "e \<in> set es" "ReleaseOf e = []" "\<forall>x \<in> set es. CHR 0x00 \<notin> set (ConnectorID x)"
    and "distinct (map (\<lambda>x. (ConnectorID x, LocalID x)) (filter (\<lambda>x. ReleaseOf x = []) es))"
  shows "resolve (build es) (ConnectorID e) (LocalID e) = Some (PointID e)"
proof -
  let ?es = "filter (\<lambda>x. ReleaseOf x = []) es"
  let ?P = "\<lambda>x. (ConnectorID x, LocalID x) = (ConnectorID e, LocalID e)"
  have "filter (\<lambda>x. ReleaseOf x = [] \<and> key (ConnectorID x) (LocalID x) = key (ConnectorID e) (LocalID e)) es = filter ?P ?es"
    unfolding filter_filter using assms(1,3) by (intro filter_cong) (auto simp: key_inject)
  moreover have "last_such ?P ?es = Some e" using assms by (intro last_such_unique) auto
  ultimately show ?thesis by (simp add: resolve_build last_such_def split: if_splits)
qed

lemma resolve_append_other:
  assumes "\<forall>x \<in> set fs. ReleaseOf x = [] \<longrightarrow> key (ConnectorID x) (LocalID x) \<noteq> key c l"
  shows "resolve (build (es @ fs)) c l = resolve (build es) c l"
proof -
  have "filter (\<lambda>e. ReleaseOf e = [] \<and> key (ConnectorID e) (LocalID e) = key c l) fs = []"
    using assms by (auto simp: filter_empty_conv)
  then show ?thesis by (simp add: resolve_build last_such_def)
qed

end

interpretation fixture: resolver NewFixture Fixture_Resolve
  by unfold_locales (simp add: NewFixture_def Fixture_Resolve_def index_forward_lookup split: option.splits)

interpretation synced: resolver "\<lambda>es. Synced_Update es r" Synced_Resolve for r
  by unfold_locales (simp add: Synced_Update_def Synced_Resolve_def index_forward_lookup split: option.splits)

section \<open>The saved Point List\<close>

lemma Entry_fields_find:
  "find_field Entry_fields ''release_of'' = Some (dec_string (\<lambda>s e. e\<lparr>ReleaseOf := s\<rparr>))"
  "find_field Entry_fields ''connector_id'' = Some (dec_string (\<lambda>s e. e\<lparr>ConnectorID := s\<rparr>))"
  "find_field Entry_fields ''protocol'' = Some (dec_string (\<lambda>s e. e\<lparr>Protocol := s\<rparr>))"
  "find_field Entry_fields ''local_id'' = Some (dec_string (\<lambda>s e. e\<lparr>LocalID := s\<rparr>))"
  "find_field Entry_fields ''point_id'' = Some (dec_string (\<lambda>s e. e\<lparr>PointID := s\<rparr>))"
  "find_field Entry_fields ''unit'' = Some (dec_string (\<lambda>s e. e\<lparr>EntryUnit := s\<rparr>))"
  "find_field Entry_fields ''writable'' = Some (dec_bool (\<lambda>b e. e\<lparr>Writable := b\<rparr>))"
  "find_field Entry_fields ''device_ref'' = Some (dec_string (\<lambda>s e. e\<lparr>DeviceRef := s\<rparr>))"
  "find_field Entry_fields ''control_schema'' = Some (dec_string (\<lambda>s e. e\<lparr>ControlSchema := s\<rparr>))"
  by (simp_all add: find_field_def Entry_fields_def)

lemma dec_opt_str:
  "find_field fs k = Some (dec_string upd) \<Longrightarrow> dec_members fs (opt_str k s) x = Some (if s = [] then x else upd s x)"
  by (simp add: opt_str_def dec_string_def)

lemma dec_opt_bool:
  "find_field fs k = Some (dec_bool upd) \<Longrightarrow> dec_members fs (opt_bool k b) x = Some (if b then upd True x else x)"
  by (simp add: opt_bool_def dec_bool_def)

lemma decode_encode_Entry: "dec_struct Entry_fields (encode_Entry e) zero_Entry = Some e"
proof (cases e)
  case (fields ro c p l pid u w d cs)
  show ?thesis
    by (cases "ro = []"; cases "u = []"; cases w; cases "d = []"; cases "cs = []")
       (simp_all add: fields dec_struct_def encode_Entry_def dec_members_append dec_opt_str dec_opt_bool
         Entry_fields_find dec_string_def zero_Entry_def)
qed

section \<open>The CSV loader\<close>

definition csv_inv :: "csv_state \<Rightarrow> bool" where
  "csv_inv st \<longleftrightarrow> set (cs_seen st) = PointID ` set (cs_entries st) \<and> distinct (map PointID (cs_entries st))
     \<and> [] \<notin> PointID ` set (cs_entries st)"

lemma warnFallback_fields [simp]:
  "cs_entries (warnFallback opts p pid st) = cs_entries st" "cs_seen (warnFallback opts p pid st) = cs_seen st"
  by (simp_all add: warnFallback_def)

text \<open>A row either leaves the entries alone or adds one for a point not seen before.\<close>

lemma csv_row_cases:
  obtains (same) "cs_entries (csv_row opts col row st) = cs_entries st" "cs_seen (csv_row opts col row st) = cs_seen st"
      "csv_get col row ''point_id'' = [] \<or> csv_get col row ''point_id'' \<in> set (cs_seen st) \<or> csv_address (csv_get col row) = None"
  | (new) e where "cs_entries (csv_row opts col row st) = cs_entries st @ [e]"
      "cs_seen (csv_row opts col row st) = PointID e # cs_seen st"
      "PointID e = csv_get col row ''point_id''" "PointID e \<noteq> []" "PointID e \<notin> set (cs_seen st)"
      "csv_address (csv_get col row) \<noteq> None"
proof (cases "csv_get col row ''point_id'' = []")
  case True
  then show thesis by (intro that(1)) (simp_all add: csv_row_def Let_def)
next
  case False
  show thesis
  proof (cases "csv_address (csv_get col row)")
    case None
    then show thesis by (intro that(1)) (simp_all add: csv_row_def Let_def)
  next
    case (Some lp)
    obtain l p0 where lp: "lp = (l, p0)" by fastforce
    obtain p u where pu: "csv_protocol (csv_get col row) l p0 = (p, u)" by fastforce
    show thesis
    proof (cases "csv_get col row ''point_id'' \<in> set (cs_seen st)")
      case True
      then show thesis
        using False Some lp pu by (intro that(1)) (simp_all add: csv_row_def Let_def)
    next
      case new: False
      have "\<exists>e. cs_entries (csv_row opts col row st) = cs_entries st @ [e]
          \<and> cs_seen (csv_row opts col row st) = PointID e # cs_seen st \<and> PointID e = csv_get col row ''point_id''"
        using False Some lp pu new by (simp add: csv_row_def Let_def)
      with False new Some that(2) show thesis by (metis option.distinct(1))
    qed
  qed
qed

lemma csv_row_inv: "csv_inv st \<Longrightarrow> csv_inv (csv_row opts col row st)"
  by (cases rule: csv_row_cases [of opts col row st]) (auto simp: csv_inv_def)

lemma csv_rows_inv: "csv_inv st \<Longrightarrow> csv_inv (fold (csv_row opts col) rows st)"
  by (induction rows arbitrary: st) (auto simp: csv_row_inv)

lemma csv_rows_prefix: "\<exists>es. cs_entries (fold (csv_row opts col) rows st) = cs_entries st @ es"
proof (induction rows arbitrary: st)
  case (Cons row rows)
  obtain es where "cs_entries (fold (csv_row opts col) rows (csv_row opts col row st)) = cs_entries (csv_row opts col row st) @ es"
    using Cons.IH by blast
  then show ?case by (cases rule: csv_row_cases [of opts col row st]) auto
qed simp

text \<open>The points of the rows that have an id and a native address, in order.\<close>

definition csv_ids :: "nat gomap \<Rightarrow> string list list \<Rightarrow> string list" where
  "csv_ids col rows = filter (\<lambda>p. p \<noteq> []) (map (\<lambda>row. csv_get col row ''point_id'')
     (filter (\<lambda>row. csv_address (csv_get col row) \<noteq> None) rows))"

fun first_occurrences :: "'a list \<Rightarrow> 'a list \<Rightarrow> 'a list" where
  "first_occurrences seen [] = []"
| "first_occurrences seen (x # xs) =
     (if x \<in> set seen then first_occurrences seen xs else x # first_occurrences (x # seen) xs)"

lemma first_occurrences_set: "set (first_occurrences seen xs) = set xs - set seen"
  by (induction seen xs rule: first_occurrences.induct) auto

lemma csv_ids_Cons:
  "csv_ids col (row # rows) = (if csv_address (csv_get col row) \<noteq> None \<and> csv_get col row ''point_id'' \<noteq> []
     then csv_get col row ''point_id'' # csv_ids col rows else csv_ids col rows)"
  by (simp add: csv_ids_def)

lemma csv_rows_ids:
  "map PointID (cs_entries (fold (csv_row opts col) rows st))
     = map PointID (cs_entries st) @ first_occurrences (cs_seen st) (csv_ids col rows)"
proof (induction rows arbitrary: st)
  case (Cons row rows)
  show ?case
  proof (cases rule: csv_row_cases [of opts col row st])
    case same
    then have "first_occurrences (cs_seen st) (csv_ids col (row # rows)) = first_occurrences (cs_seen st) (csv_ids col rows)"
      by (auto simp: csv_ids_Cons)
    then show ?thesis using Cons.IH [of "csv_row opts col row st"] same by simp
  next
    case (new e)
    then have "first_occurrences (cs_seen st) (csv_ids col (row # rows))
        = PointID e # first_occurrences (PointID e # cs_seen st) (csv_ids col rows)"
      by (simp add: csv_ids_Cons)
    then show ?thesis using Cons.IH [of "csv_row opts col row st"] new(1,2) by simp
  qed
qed (simp add: csv_ids_def)

section \<open>Properties\<close>

text \<open>C23: Resolution is exact. With connector ids free of NUL bytes and no native address listed twice,
  the live resolver maps a native address to a point exactly when a non-release entry of the Point
  List it was last updated with says so, and the fixture resolver gives the same answer on every
  query.\<close>

theorem resolution_exact:
  assumes "\<forall>e \<in> set es. CHR 0x00 \<notin> set (ConnectorID e)" "CHR 0x00 \<notin> set c"
    and "distinct (map (\<lambda>x. (ConnectorID x, LocalID x)) (filter (\<lambda>x. ReleaseOf x = []) es))"
  shows "(Synced_Resolve (Synced_Update es r) c l = Some p
      \<longleftrightarrow> (\<exists>e \<in> set es. ReleaseOf e = [] \<and> ConnectorID e = c \<and> LocalID e = l \<and> PointID e = p))
    \<and> Fixture_Resolve (NewFixture es) c l = Synced_Resolve (Synced_Update es r) c l"
proof
  show "Synced_Resolve (Synced_Update es r) c l = Some p
      \<longleftrightarrow> (\<exists>e \<in> set es. ReleaseOf e = [] \<and> ConnectorID e = c \<and> LocalID e = l \<and> PointID e = p)"
    using synced.resolve_sound [OF assms(1,2)] synced.resolve_unique [OF _ _ assms(1,3)] by auto
  show "Fixture_Resolve (NewFixture es) c l = Synced_Resolve (Synced_Update es r) c l"
    by (simp only: fixture.resolve_build synced.resolve_build)
qed

definition sample_entry :: "string \<Rightarrow> string \<Rightarrow> string \<Rightarrow> Entry" where
  "sample_entry c l p = zero_Entry\<lparr>ConnectorID := c, Protocol := ''bacnet'', LocalID := l, PointID := p\<rparr>"

theorem resolution_exact_witness:
  "Synced_Resolve (Synced_Update [sample_entry ''c1'' ''a'' ''p1'', sample_entry ''c1'' ''b'' ''p2''] (NewSynced None)) ''c1'' ''b''
     = Some ''p2''"
proof -
  let ?es = "[sample_entry ''c1'' ''a'' ''p1'', sample_entry ''c1'' ''b'' ''p2'']"
  have "(Synced_Resolve (Synced_Update ?es (NewSynced None)) ''c1'' ''b'' = Some ''p2''
      \<longleftrightarrow> (\<exists>e \<in> set ?es. ReleaseOf e = [] \<and> ConnectorID e = ''c1'' \<and> LocalID e = ''b'' \<and> PointID e = ''p2''))
    \<and> Fixture_Resolve (NewFixture ?es) ''c1'' ''b'' = Synced_Resolve (Synced_Update ?es (NewSynced None)) ''c1'' ''b''"
    by (rule resolution_exact) (simp_all add: sample_entry_def zero_Entry_def)
  then show ?thesis by (simp add: sample_entry_def zero_Entry_def)
qed


text \<open>A JSON library that can only write one value, the empty list.\<close>

definition tiny_json :: json_lib where
  "tiny_json = \<lparr>json_read = (\<lambda>s. if s = ''[]'' then Some (JArr []) else None), json_write = (\<lambda>_. ''[]''),
     parse_float = (\<lambda>_. None), format_float = (\<lambda>_. [])\<rparr>"


text \<open>What the CSV loader keeps. A CSV that loads gives one entry per point id, for exactly the rows
  that have a point id and a native address, in the order of their first rows; no id is empty or
  repeated.\<close>

theorem LoadCSV_first_rows:
  assumes "LoadCSV (Some ((h # hs) # rows)) opts = Inr (es, warnings)"
  shows "map PointID es = first_occurrences [] (csv_ids (csv_columns (TrimPrefix h bom # hs) 0 []) rows)
     \<and> distinct (map PointID es) \<and> [] \<notin> PointID ` set es"
proof -
  let ?col = "csv_columns (TrimPrefix h bom # hs) 0 []"
  let ?st0 = "\<lparr>cs_entries = [], cs_seen = [], cs_warned = [], cs_log = []\<rparr>"
  have es: "es = cs_entries (fold (csv_row opts ?col) rows ?st0)"
    using assms by (auto simp: LoadCSV_def Let_def split: if_splits)
  have "csv_inv ?st0" by (simp add: csv_inv_def)
  from csv_rows_inv [OF this, of opts ?col rows] csv_rows_ids [of opts ?col rows ?st0] es
  show ?thesis by (simp add: csv_inv_def)
qed

definition sample_csv :: "string list list" where
  "sample_csv = [[''point_id'', ''local_id''], [''p1'', ''a/b''], [''p1'', ''c/d''], [[], ''x/y''], [''p2'', ''ns=2;s=T'']]"

theorem LoadCSV_first_rows_witness:
  "case LoadCSV (Some sample_csv) \<lparr>opt_ConnectorID = ''c1'', opt_ConnectorMap = []\<rparr> of
     Inr (es, warnings) \<Rightarrow> distinct (map PointID es) \<and> map PointID es = [''p1'', ''p2'']
   | Inl _ \<Rightarrow> False"
proof -
  let ?opts = "\<lparr>opt_ConnectorID = ''c1'', opt_ConnectorMap = []\<rparr>"
  have "case LoadCSV (Some sample_csv) ?opts of Inr (es, warnings) \<Rightarrow> map PointID es = [''p1'', ''p2''] | Inl _ \<Rightarrow> False"
    by code_simp
  then obtain es ws where r: "LoadCSV (Some sample_csv) ?opts = Inr (es, ws)" "map PointID es = [''p1'', ''p2'']"
    by (auto split: sum.splits)
  from LoadCSV_first_rows [OF r(1) [unfolded sample_csv_def]] have "distinct (map PointID es)" by blast
  with r show ?thesis by simp
qed

end
