(* ===== verification/Provisioning.thy ===== *)
theory Provisioning
  imports Point_List_Facts
begin

text \<open>
  Where the Point List comes from (\<open>internal/provisioning\<close>): the HTTP client of the Building OS, the file
  client, the in-memory mock, and the client that falls back from one to another until the first has
  answered once. A client is a function of the known revision and its state. The HTTP transport, the
  file system, SHA-256 and the JSON text are parameters.
\<close>

section \<open>The client interface\<close>

record FetchResult =
  ETag :: string
  Full :: bool
  Entries :: "Entry list"
  Added :: "Entry list"
  Removed :: "string list"
  Changed :: "Entry list"

datatype fetch_error = ReadFailed | ParseFailed | UnsupportedFormat | RequestFailed | BadStatus int | DecodeFailed

type_synonym 'c fetch = "string \<Rightarrow> 'c \<Rightarrow> (fetch_error + FetchResult option) \<times> 'c"

definition full_result :: "string \<Rightarrow> Entry list \<Rightarrow> FetchResult" where
  "full_result etag es = \<lparr>ETag = etag, Full = True, Entries = es, Added = [], Removed = [], Changed = []\<rparr>"

section \<open>Falling back\<close>

text \<open>The revisions given to the promotion hook are collected.\<close>

record ('p, 's) FallbackClient =
  fb_primary :: 'p
  fb_secondary :: 's
  fb_promoted :: bool
  fb_hooks :: "string list"

definition promote :: "FetchResult option \<Rightarrow> ('p, 's) FallbackClient \<Rightarrow> FetchResult option \<times> ('p, 's) FallbackClient" where
  "promote result f =
     (case result of
        None \<Rightarrow> (None, f\<lparr>fb_promoted := True, fb_hooks := fb_hooks f @ [[]]\<rparr>)
      | Some r \<Rightarrow> (Some (r\<lparr>Full := True, Added := [], Removed := [], Changed := []\<rparr>),
                   f\<lparr>fb_promoted := True, fb_hooks := fb_hooks f @ [ETag r]\<rparr>))"

definition Fallback_Fetch :: "'p fetch \<Rightarrow> 's fetch \<Rightarrow> ('p, 's) FallbackClient fetch" where
  "Fallback_Fetch pf sf known f =
     (if fb_promoted f then
        (case pf known (fb_primary f) of (r, p) \<Rightarrow> (r, f\<lparr>fb_primary := p\<rparr>))
      else case pf [] (fb_primary f) of
        (Inr result, p) \<Rightarrow> (case promote result (f\<lparr>fb_primary := p\<rparr>) of (r, f') \<Rightarrow> (Inr r, f'))
      | (Inl e, p) \<Rightarrow>
          (case sf known (fb_secondary f) of (r, s) \<Rightarrow> (r, f\<lparr>fb_primary := p, fb_secondary := s\<rparr>)))"

section \<open>Files\<close>

definition HasSuffix :: "string \<Rightarrow> string \<Rightarrow> bool" where
  "HasSuffix s suf \<longleftrightarrow> is_prefix (rev suf) (rev s)"

record FileClient =
  fc_path :: string
  fc_connectorID :: string
  fc_connectorMap :: "string gomap"

text \<open>The hash, the CSV reader and the JSON reader a file client uses.\<close>

record file_lib = json_lib +
  sha256_hex :: "string \<Rightarrow> string"
  csv_read :: "string \<Rightarrow> string list list option"

definition FileClient_parse :: "file_lib \<Rightarrow> FileClient \<Rightarrow> string \<Rightarrow> fetch_error + Entry list" where
  "FileClient_parse fl c d =
     (let lower = ToLower (fc_path c) in
      if HasSuffix lower ''.csv'' then
        (case LoadCSV (csv_read fl d) \<lparr>opt_ConnectorID = fc_connectorID c, opt_ConnectorMap = fc_connectorMap c\<rparr> of
           Inl e \<Rightarrow> Inl ParseFailed | Inr (es, _) \<Rightarrow> Inr es)
      else if HasSuffix lower ''.json'' then
        (case json_read (json_lib.truncate fl) d of
           None \<Rightarrow> Inl ParseFailed
         | Some j \<Rightarrow> (case decode_entries j of None \<Rightarrow> Inl ParseFailed | Some es \<Rightarrow> Inr es))
      else Inl UnsupportedFormat)"

text \<open>The state is the file as it is found at the moment of the fetch.\<close>

definition FileClient_Fetch :: "file_lib \<Rightarrow> FileClient \<Rightarrow> file_read fetch" where
  "FileClient_Fetch fl c known f =
     (case f of
        FileData d \<Rightarrow>
          (let etag = sha256_hex fl d in
           if etag = known then (Inr None, f)
           else (case FileClient_parse fl c d of Inl e \<Rightarrow> (Inl e, f) | Inr es \<Rightarrow> (Inr (Some (full_result etag es)), f)))
      | _ \<Rightarrow> (Inl ReadFailed, f))"

section \<open>The mock\<close>

record Mock =
  mk_entries :: "Entry list"
  mk_etag :: string
  mk_fetchCalls :: int

definition mock_etag :: "file_lib \<Rightarrow> Entry list \<Rightarrow> string" where
  "mock_etag fl es = take 16 (sha256_hex fl (json_write fl (JArr (map encode_Entry es))))"

definition Mock_SetEntries :: "file_lib \<Rightarrow> Entry list \<Rightarrow> Mock \<Rightarrow> Mock" where
  "Mock_SetEntries fl es mk = mk\<lparr>mk_entries := es, mk_etag := mock_etag fl es\<rparr>"

definition NewMock :: "file_lib \<Rightarrow> Entry list \<Rightarrow> Mock" where
  "NewMock fl es = Mock_SetEntries fl es \<lparr>mk_entries = [], mk_etag = [], mk_fetchCalls = 0\<rparr>"

definition Mock_Fetch :: "Mock fetch" where
  "Mock_Fetch known mk =
     (let mk1 = mk\<lparr>mk_fetchCalls := mk_fetchCalls mk + 1\<rparr> in
      if known = mk_etag mk1 then (Inr None, mk1)
      else (Inr (Some (full_result (mk_etag mk1) (mk_entries mk1))), mk1))"

section \<open>HTTP: the response document\<close>

record native_addressing =
  na_Protocol :: string
  na_DeviceID :: string
  na_ObjectType :: string
  na_InstanceNo :: string

record control_schema =
  sc_DataType :: string
  sc_MinValue :: string
  sc_MaxValue :: string
  sc_EnumLabels :: string

record device_ref =
  dr_DtID :: string
  dr_ID :: string
  dr_Name :: string

record point_dto =
  dto_PointID :: string
  dto_LocalID :: string
  dto_Protocol :: string
  dto_ReleaseOf :: string
  dto_Native :: "native_addressing option"
  dto_Unit :: string
  dto_Writable :: "bool option"
  dto_ControlSchema :: "control_schema option"
  dto_Device :: "device_ref option"

record pointlist_response =
  rsp_GatewayID :: string
  rsp_Revision :: string
  rsp_Since :: string
  rsp_Full :: bool
  rsp_Points :: "point_dto list"
  rsp_Added :: "point_dto list"
  rsp_Removed :: "string list"
  rsp_Changed :: "point_dto list"

text \<open>A pointer field: \<open>null\<close> clears it, an object is decoded into what it points to.\<close>

definition dec_pointer :: "(string \<times> 'b field_decoder) list \<Rightarrow> 'b \<Rightarrow> ('a \<Rightarrow> 'b option) \<Rightarrow> ('b option \<Rightarrow> 'a \<Rightarrow> 'a) \<Rightarrow> 'a field_decoder" where
  "dec_pointer fs z get put j x =
     (case j of
        JNull \<Rightarrow> Some (put None x)
      | _ \<Rightarrow> map_option (\<lambda>y. put (Some y) x) (dec_struct fs j (case get x of None \<Rightarrow> z | Some y \<Rightarrow> y)))"

definition native_fields :: "(string \<times> native_addressing field_decoder) list" where
  "native_fields =
     [(''protocol'', dec_string (\<lambda>s e. e\<lparr>na_Protocol := s\<rparr>)), (''deviceId'', dec_string (\<lambda>s e. e\<lparr>na_DeviceID := s\<rparr>)),
      (''objectType'', dec_string (\<lambda>s e. e\<lparr>na_ObjectType := s\<rparr>)), (''instanceNo'', dec_string (\<lambda>s e. e\<lparr>na_InstanceNo := s\<rparr>))]"

definition schema_fields :: "(string \<times> control_schema field_decoder) list" where
  "schema_fields =
     [(''dataType'', dec_string (\<lambda>s e. e\<lparr>sc_DataType := s\<rparr>)), (''minValue'', dec_string (\<lambda>s e. e\<lparr>sc_MinValue := s\<rparr>)),
      (''maxValue'', dec_string (\<lambda>s e. e\<lparr>sc_MaxValue := s\<rparr>)), (''enumLabels'', dec_string (\<lambda>s e. e\<lparr>sc_EnumLabels := s\<rparr>))]"

definition device_fields :: "(string \<times> device_ref field_decoder) list" where
  "device_fields =
     [(''dtId'', dec_string (\<lambda>s e. e\<lparr>dr_DtID := s\<rparr>)), (''id'', dec_string (\<lambda>s e. e\<lparr>dr_ID := s\<rparr>)),
      (''name'', dec_string (\<lambda>s e. e\<lparr>dr_Name := s\<rparr>))]"

definition dto_fields :: "(string \<times> point_dto field_decoder) list" where
  "dto_fields =
     [(''pointId'', dec_string (\<lambda>s e. e\<lparr>dto_PointID := s\<rparr>)), (''localId'', dec_string (\<lambda>s e. e\<lparr>dto_LocalID := s\<rparr>)),
      (''protocol'', dec_string (\<lambda>s e. e\<lparr>dto_Protocol := s\<rparr>)), (''releaseOf'', dec_string (\<lambda>s e. e\<lparr>dto_ReleaseOf := s\<rparr>)),
      (''native'', dec_pointer native_fields \<lparr>na_Protocol = [], na_DeviceID = [], na_ObjectType = [], na_InstanceNo = []\<rparr>
         dto_Native (\<lambda>v e. e\<lparr>dto_Native := v\<rparr>)),
      (''unit'', dec_string (\<lambda>s e. e\<lparr>dto_Unit := s\<rparr>)),
      (''writable'', \<lambda>j e. case j of JBool b \<Rightarrow> Some (e\<lparr>dto_Writable := Some b\<rparr>) | JNull \<Rightarrow> Some (e\<lparr>dto_Writable := None\<rparr>) | _ \<Rightarrow> None),
      (''controlSchema'', dec_pointer schema_fields \<lparr>sc_DataType = [], sc_MinValue = [], sc_MaxValue = [], sc_EnumLabels = []\<rparr>
         dto_ControlSchema (\<lambda>v e. e\<lparr>dto_ControlSchema := v\<rparr>)),
      (''device'', dec_pointer device_fields \<lparr>dr_DtID = [], dr_ID = [], dr_Name = []\<rparr>
         dto_Device (\<lambda>v e. e\<lparr>dto_Device := v\<rparr>))]"

definition zero_dto :: point_dto where
  "zero_dto = \<lparr>dto_PointID = [], dto_LocalID = [], dto_Protocol = [], dto_ReleaseOf = [], dto_Native = None, dto_Unit = [],
     dto_Writable = None, dto_ControlSchema = None, dto_Device = None\<rparr>"

definition dec_dtos :: "(point_dto list \<Rightarrow> 'a \<Rightarrow> 'a) \<Rightarrow> 'a field_decoder" where
  "dec_dtos put j x = map_option (\<lambda>ds. put ds x) (dec_slice (\<lambda>d. dec_struct dto_fields d zero_dto) j)"

definition response_fields :: "(string \<times> pointlist_response field_decoder) list" where
  "response_fields =
     [(''gatewayId'', dec_string (\<lambda>s e. e\<lparr>rsp_GatewayID := s\<rparr>)), (''revision'', dec_string (\<lambda>s e. e\<lparr>rsp_Revision := s\<rparr>)),
      (''since'', dec_string (\<lambda>s e. e\<lparr>rsp_Since := s\<rparr>)), (''full'', dec_bool (\<lambda>b e. e\<lparr>rsp_Full := b\<rparr>)),
      (''points'', dec_dtos (\<lambda>ds e. e\<lparr>rsp_Points := ds\<rparr>)), (''added'', dec_dtos (\<lambda>ds e. e\<lparr>rsp_Added := ds\<rparr>)),
      (''removed'', \<lambda>j e. map_option (\<lambda>xs. e\<lparr>rsp_Removed := xs\<rparr>)
         (dec_slice (\<lambda>x. case x of JStr s \<Rightarrow> Some s | JNull \<Rightarrow> Some [] | _ \<Rightarrow> None) j)),
      (''changed'', dec_dtos (\<lambda>ds e. e\<lparr>rsp_Changed := ds\<rparr>))]"

definition zero_response :: pointlist_response where
  "zero_response = \<lparr>rsp_GatewayID = [], rsp_Revision = [], rsp_Since = [], rsp_Full = False, rsp_Points = [], rsp_Added = [],
     rsp_Removed = [], rsp_Changed = []\<rparr>"

definition encode_schema :: "control_schema \<Rightarrow> json" where
  "encode_schema sc = JObj (opt_str ''dataType'' (sc_DataType sc) @ opt_str ''minValue'' (sc_MinValue sc)
     @ opt_str ''maxValue'' (sc_MaxValue sc) @ opt_str ''enumLabels'' (sc_EnumLabels sc))"

section \<open>HTTP: from documents to entries\<close>

text \<open>Protocols already reported as unmapped are remembered across fetches.\<close>

record HTTPClient =
  hc_gatewayID :: string
  hc_connectorMap :: "string gomap"
  hc_fallbackConnectorID :: string
  hc_warnedUnmapped :: "string list"

definition map_get :: "string gomap \<Rightarrow> string \<Rightarrow> string" where
  "map_get m k = (case map_of m k of None \<Rightarrow> [] | Some v \<Rightarrow> v)"

definition connectorFor :: "string \<Rightarrow> HTTPClient \<Rightarrow> string \<times> HTTPClient" where
  "connectorFor protocol c =
     (if map_get (hc_connectorMap c) protocol \<noteq> [] then (map_get (hc_connectorMap c) protocol, c)
      else (hc_fallbackConnectorID c,
            if protocol \<in> set (hc_warnedUnmapped c) then c
            else c\<lparr>hc_warnedUnmapped := protocol # hc_warnedUnmapped c\<rparr>))"

definition dto_local :: "point_dto \<Rightarrow> string" where
  "dto_local d =
     (case dto_Native d of
        None \<Rightarrow> dto_LocalID d
      | Some n \<Rightarrow> if na_ObjectType n \<noteq> [] \<or> na_InstanceNo n \<noteq> [] then na_ObjectType n @ '','' @ na_InstanceNo n
                  else dto_LocalID d)"

definition dto_device :: "point_dto \<Rightarrow> string" where
  "dto_device d =
     (let r = (case dto_Native d of None \<Rightarrow> [] | Some n \<Rightarrow> na_DeviceID n) in
      if r = [] then (case dto_Device d of None \<Rightarrow> [] | Some v \<Rightarrow> dr_ID v) else r)"

definition dto_protocol :: "point_dto \<Rightarrow> string" where
  "dto_protocol d =
     (let p = ToLower (TrimSpace (dto_Protocol d)) in
      if p = [] then (case dto_Native d of None \<Rightarrow> [] | Some n \<Rightarrow> ToLower (TrimSpace (na_Protocol n))) else p)"

definition mapDTO :: "json_lib \<Rightarrow> point_dto \<Rightarrow> HTTPClient \<Rightarrow> Entry \<times> HTTPClient" where
  "mapDTO jl d c =
     (let lid = dto_local d; p0 = dto_protocol d;
          p1 = (if p0 = [] then InferProtocol lid else p0);
          p2 = (if p1 = [] then ''unknown'' else p1);
          (proto, cid, c') =
            (if dto_ReleaseOf d \<noteq> [] then (p0, map_get (hc_connectorMap c) p0, c)
             else (case connectorFor p2 c of (i, c1) \<Rightarrow> (p2, i, c1)))
      in (\<lparr>ReleaseOf = dto_ReleaseOf d, ConnectorID = cid, Protocol = proto, LocalID = lid, PointID = dto_PointID d,
           EntryUnit = dto_Unit d, Writable = (dto_Writable d = Some True), DeviceRef = dto_device d,
           ControlSchema = (case dto_ControlSchema d of None \<Rightarrow> [] | Some sc \<Rightarrow> json_write jl (encode_schema sc))\<rparr>, c'))"

fun mapDTOs :: "json_lib \<Rightarrow> point_dto list \<Rightarrow> HTTPClient \<Rightarrow> Entry list \<times> HTTPClient" where
  "mapDTOs jl [] c = ([], c)"
| "mapDTOs jl (d # ds) c =
     (case mapDTO jl d c of (e, c1) \<Rightarrow> (case mapDTOs jl ds c1 of (es, c2) \<Rightarrow> (e # es, c2)))"

text \<open>The request as the server sees it, and the response.\<close>

record pointlist_request =
  rq_gateway :: string
  rq_since :: "string option"
  rq_if_none_match :: "string option"

record http_response =
  rs_status :: int
  rs_etag :: string
  rs_body :: "json option"

definition pointlist_request_for :: "HTTPClient \<Rightarrow> string \<Rightarrow> pointlist_request" where
  "pointlist_request_for c known =
     \<lparr>rq_gateway = hc_gatewayID c, rq_since = (if known \<noteq> [] then Some known else None),
      rq_if_none_match = (if known \<noteq> [] then Some known else None)\<rparr>"

text \<open>\<open>http_do\<close> is the transport; \<open>rs_body\<close> is the first JSON value of the body, if there is one.\<close>

definition HTTP_Fetch :: "json_lib \<Rightarrow> (pointlist_request \<Rightarrow> http_response option) \<Rightarrow> HTTPClient fetch" where
  "HTTP_Fetch jl http_do known c =
     (case http_do (pointlist_request_for c known) of
        None \<Rightarrow> (Inl RequestFailed, c)
      | Some resp \<Rightarrow>
        if rs_status resp = 304 then (Inr None, c)
        else if rs_status resp \<noteq> 200 then (Inl (BadStatus (rs_status resp)), c)
        else case (case rs_body resp of None \<Rightarrow> None | Some j \<Rightarrow> dec_struct response_fields j zero_response) of
          None \<Rightarrow> (Inl DecodeFailed, c)
        | Some body \<Rightarrow>
          let etag = (if rs_etag resp = [] then rsp_Revision body else rs_etag resp);
              isFull = (known = [] \<or> rsp_Full body)
          in if isFull then
               (case mapDTOs jl (rsp_Points body) c of (es, c1) \<Rightarrow> (Inr (Some (full_result etag es)), c1))
             else
               (case mapDTOs jl (rsp_Added body) c of (as, c1) \<Rightarrow>
                (case mapDTOs jl (rsp_Changed body) c1 of (cs, c2) \<Rightarrow>
                  (Inr (Some \<lparr>ETag = etag, Full = False, Entries = [], Added = as, Removed = rsp_Removed body, Changed = cs\<rparr>), c2))))"

end
