(* ===== verification/Point_Sync.thy ===== *)
theory Point_Sync
  imports Provisioning
begin

text \<open>
  The Point List synchroniser (\<open>internal/pointsync/loop.go\<close>) over an arbitrary provisioning client: it
  applies full lists and deltas, publishes the result to the resolver, and saves it. The order in which
  Go ranges over a map is the parameter \<open>order\<close>.
\<close>

section \<open>Applying a delta\<close>

fun index_local :: "Entry list \<Rightarrow> string gomap \<Rightarrow> string gomap" where
  "index_local [] m = m"
| "index_local (e # es) m =
     index_local es (if ReleaseOf e = [] then AList.update (key (ConnectorID e) (LocalID e)) (PointID e) m else m)"

definition apply_changed :: "string gomap \<Rightarrow> Entry \<Rightarrow> Entry gomap \<Rightarrow> Entry gomap" where
  "apply_changed byLocal e byID =
     (let oldPID = map_get byLocal (key (ConnectorID e) (LocalID e)) in
      AList.update (PointID e) e
        (if ReleaseOf e = [] \<and> oldPID \<noteq> [] \<and> oldPID \<noteq> PointID e then AList.delete oldPID byID else byID))"

text \<open>The map of the list after the delta.\<close>

definition diff_map :: "Entry list \<Rightarrow> FetchResult \<Rightarrow> Entry gomap" where
  "diff_map current r =
     (let byID = index_reverse current []; byLocal = index_local current [];
          m1 = fold AList.delete (Removed r) byID;
          m2 = fold (\<lambda>e. AList.update (PointID e) e) (Added r) m1
      in fold (apply_changed byLocal) (Changed r) m2)"

definition applyDiff :: "(Entry gomap \<Rightarrow> Entry list) \<Rightarrow> Entry list \<Rightarrow> FetchResult \<Rightarrow> Entry list" where
  "applyDiff order current r = order (diff_map current r)"

section \<open>The loop\<close>

record syncState =
  ss_etag :: string
  ss_entries :: "Entry list"

record 'c Loop =
  lp_client :: 'c
  lp_resolver :: SyncedResolver
  lp_state :: syncState
  lp_appliedETag :: string
  lp_ready :: bool
  lp_saved :: "string list"

text \<open>One synchronisation. With a persist path the written snapshots are collected.\<close>

definition sync :: "json_lib \<Rightarrow> (Entry gomap \<Rightarrow> Entry list) \<Rightarrow> 'c fetch \<Rightarrow> bool \<Rightarrow> 'c Loop \<Rightarrow> 'c Loop" where
  "sync jl order fetch persist l =
     (case fetch (ss_etag (lp_state l)) (lp_client l) of
        (Inl e, c) \<Rightarrow> l\<lparr>lp_client := c\<rparr>
      | (Inr None, c) \<Rightarrow> l\<lparr>lp_client := c\<rparr>
      | (Inr (Some r), c) \<Rightarrow>
          let es = (if Full r then Entries r else applyDiff order (ss_entries (lp_state l)) r);
              res = Synced_Update es (lp_resolver l)
          in l\<lparr>lp_client := c, lp_state := \<lparr>ss_etag = ETag r, ss_entries = es\<rparr>, lp_resolver := res,
               lp_appliedETag := ETag r,
               lp_saved := (if persist then lp_saved l @ [Persist jl res] else lp_saved l)\<rparr>)"

text \<open>
  Start-up loads the saved snapshot, forces a first synchronisation and reports ready; then every tick
  or revalidation synchronises once more.
\<close>

definition loop_start :: "json_lib \<Rightarrow> (Entry gomap \<Rightarrow> Entry list) \<Rightarrow> 'c fetch \<Rightarrow> file_read option \<Rightarrow> 'c Loop \<Rightarrow> 'c Loop" where
  "loop_start jl order fetch saved l =
     (let l1 = (case saved of None \<Rightarrow> l | Some f \<Rightarrow> l\<lparr>lp_resolver := snd (Load jl f (lp_resolver l))\<rparr>);
          l2 = l1\<lparr>lp_state := \<lparr>ss_etag = [], ss_entries = []\<rparr>\<rparr>
      in (sync jl order fetch (saved \<noteq> None) l2)\<lparr>lp_ready := True\<rparr>)"

definition loop_run :: "json_lib \<Rightarrow> (Entry gomap \<Rightarrow> Entry list) \<Rightarrow> 'c fetch \<Rightarrow> file_read option \<Rightarrow> nat \<Rightarrow> 'c Loop \<Rightarrow> 'c Loop" where
  "loop_run jl order fetch saved n l = (sync jl order fetch (saved \<noteq> None) ^^ n) (loop_start jl order fetch saved l)"

section \<open>What a delta does\<close>

lemma index_local_lookup: "map_of (index_local es m) = map_of (index_forward es m)"
  by (induction es arbitrary: m) (auto simp: update_conv')

lemma fold_delete_lookup: "map_of (fold AList.delete ks m) k = (if k \<in> set ks then None else map_of m k)"
  by (induction ks arbitrary: m) (auto simp: delete_conv')

lemma fold_update_lookup:
  "map_of (fold (\<lambda>e. AList.update (PointID e) e) es m) p =
     (case last_such (\<lambda>e. PointID e = p) es of Some e \<Rightarrow> Some e | None \<Rightarrow> map_of m p)"
  by (induction es arbitrary: m) (auto simp: last_such_Cons update_conv' split: option.splits)

text \<open>A change takes over an address when the list before the delta had it under another point.\<close>

definition takes_over :: "Entry list \<Rightarrow> Entry \<Rightarrow> string \<Rightarrow> bool" where
  "takes_over current e p \<longleftrightarrow> ReleaseOf e = [] \<and> p \<noteq> [] \<and> p \<noteq> PointID e
     \<and> map_get (index_local current []) (key (ConnectorID e) (LocalID e)) = p"

lemma apply_changed_lookup:
  "map_of (apply_changed (index_local current []) e m) p =
     (if p = PointID e then Some e else if takes_over current e p then None else map_of m p)"
  by (auto simp: apply_changed_def Let_def update_conv' delete_conv' takes_over_def)

text \<open>After the last change that writes or displaces a point, that change decides.\<close>

lemma fold_changed_lookup:
  "map_of (fold (apply_changed (index_local current [])) cs m) p =
     (case last_such (\<lambda>e. PointID e = p \<or> takes_over current e p) cs of
        Some e \<Rightarrow> if PointID e = p then Some e else None
      | None \<Rightarrow> map_of m p)"
  by (induction cs arbitrary: m) (auto simp: last_such_Cons apply_changed_lookup split: option.splits)

lemma diff_map_lookup:
  "map_of (diff_map current r) p =
     (case last_such (\<lambda>e. PointID e = p \<or> takes_over current e p) (Changed r) of
        Some e \<Rightarrow> if PointID e = p then Some e else None
      | None \<Rightarrow> (case last_such (\<lambda>e. PointID e = p) (Added r) of
          Some e \<Rightarrow> Some e
        | None \<Rightarrow> if p \<in> set (Removed r) then None else last_such (\<lambda>e. PointID e = p) current))"
  unfolding diff_map_def Let_def
  by (simp add: fold_changed_lookup fold_update_lookup fold_delete_lookup index_reverse_lookup split: option.splits)

lemma diff_map_distinct: "distinct (map fst (diff_map current r))"
proof -
  have 1: "distinct (map fst (index_reverse es m))" if "distinct (map fst m)" for es m
    using that by (induction es arbitrary: m) (auto simp: distinct_update)
  have 2: "distinct (map fst (fold AList.delete ks m))" if "distinct (map fst m)" for ks m
    using that by (induction ks arbitrary: m) (auto simp: distinct_delete)
  have 3: "distinct (map fst (fold (\<lambda>e. AList.update (PointID e) e) es m))" if "distinct (map fst m)" for es m
    using that by (induction es arbitrary: m) (auto simp: distinct_update)
  have 4: "distinct (map fst (fold (apply_changed bl) es m))" if "distinct (map fst m)" for es bl m
    using that by (induction es arbitrary: m) (auto simp: apply_changed_def Let_def distinct_update distinct_delete)
  show ?thesis unfolding diff_map_def Let_def by (intro 1 2 3 4) simp
qed

lemma diff_map_ids: "(p, e) \<in> set (diff_map current r) \<Longrightarrow> PointID e = p"
proof -
  assume "(p, e) \<in> set (diff_map current r)"
  then have "map_of (diff_map current r) p = Some e" using diff_map_distinct by (simp add: map_of_is_SomeI)
  then show ?thesis
    by (auto simp: diff_map_lookup split: option.splits if_splits dest: last_such_SomeD)
qed

end
