(* ===== verification/Point_Sync_Facts.thy ===== *)
theory Point_Sync_Facts
  imports Point_Sync
begin

text \<open>
  What the synchroniser guarantees: a delta gives each point the entry its last mention demands, the
  published list and the published revision always belong together and survive failed fetches, and the
  fallback client switches to its primary once and for good. Clients that always answer with a full
  list are an interface of their own.
\<close>

section \<open>Deltas\<close>

text \<open>The entry a delta leaves for a point: what it was changed to, was added as, or was before.\<close>

definition delta_entry :: "Entry list \<Rightarrow> FetchResult \<Rightarrow> string \<Rightarrow> Entry option" where
  "delta_entry current r p =
     (case last_such (\<lambda>e. PointID e = p) (Changed r) of
        Some e \<Rightarrow> Some e
      | None \<Rightarrow> (case last_such (\<lambda>e. PointID e = p) (Added r) of
          Some e \<Rightarrow> Some e
        | None \<Rightarrow> if p \<in> set (Removed r) then None else last_such (\<lambda>e. PointID e = p) current))"

text \<open>The points whose address the delta gives to another point.\<close>

definition displaced :: "Entry list \<Rightarrow> FetchResult \<Rightarrow> string set" where
  "displaced current r = {p. \<exists>e \<in> set (Changed r). takes_over current e p}"

lemma last_such_cong: "\<forall>x \<in> set xs. P x = Q x \<Longrightarrow> last_such P xs = last_such Q xs"
  unfolding last_such_def using filter_cong [of xs xs P Q] by simp

lemma diff_map_delta:
  assumes "displaced current r \<inter> PointID ` set (Changed r) = {}"
  shows "map_of (diff_map current r) p = (if p \<in> displaced current r then None else delta_entry current r p)"
proof (cases "p \<in> displaced current r")
  case True
  have "last_such (\<lambda>e. PointID e = p \<or> takes_over current e p) (Changed r) \<noteq> None"
    using True by (auto simp: last_such_None displaced_def)
  then obtain e where e: "last_such (\<lambda>e. PointID e = p \<or> takes_over current e p) (Changed r) = Some e" by blast
  from last_such_SomeD [OF e] assms True have "PointID e \<noteq> p" by auto
  with True e show ?thesis by (simp add: diff_map_lookup)
next
  case False
  then have "last_such (\<lambda>e. PointID e = p \<or> takes_over current e p) (Changed r) = last_such (\<lambda>e. PointID e = p) (Changed r)"
    by (intro last_such_cong) (auto simp: displaced_def)
  moreover have "PointID e = p" if "last_such (\<lambda>e. PointID e = p) (Changed r) = Some e" for e
    using last_such_SomeD [OF that] by simp
  ultimately show ?thesis using False by (auto simp: diff_map_lookup delta_entry_def split: option.splits)
qed

section \<open>Clients that answer in full\<close>

text \<open>
  A source serves a list under a tag. What a client of it may rely on: an answer is the whole current
  list with its tag, no answer means the tag was known already, and fetching does not change the list.
\<close>

locale full_source =
  fixes fetch :: "'c fetch"
    and serves :: "'c \<Rightarrow> string \<Rightarrow> Entry list \<Rightarrow> bool"
  assumes fetch_result: "fetch known c = (Inr (Some r), c') \<Longrightarrow> Full r \<and> serves c (ETag r) (Entries r)"
    and fetch_unchanged: "fetch known c = (Inr None, c') \<Longrightarrow> serves c t es \<Longrightarrow> t = known"
    and serves_fetch: "fetch known c = (x, c') \<Longrightarrow> serves c' t es \<longleftrightarrow> serves c t es"
begin

text \<open>The loop holds a list that was served under its tag.\<close>

definition served_by :: "'c Loop \<Rightarrow> bool" where
  "served_by l \<longleftrightarrow> serves (lp_client l) (lp_appliedETag l) (Snapshot (lp_resolver l))"

lemma sync_answer_served:
  assumes "fetch (ss_etag (lp_state l)) (lp_client l) = (Inr (Some r), c)"
  shows "served_by (sync jl order fetch persist l)"
  using assms fetch_result [OF assms] serves_fetch [OF assms]
  by (simp add: sync_def Let_def served_by_def Synced_Update_def Snapshot_def)

lemma sync_keeps_served: "served_by l \<Longrightarrow> served_by (sync jl order fetch persist l)"
proof -
  assume served: "served_by l"
  obtain x c where f: "fetch (ss_etag (lp_state l)) (lp_client l) = (x, c)" by fastforce
  show ?thesis
  proof (cases "\<exists>r. x = Inr (Some r)")
    case True
    with f sync_answer_served show ?thesis by blast
  next
    case False
    then have "sync jl order fetch persist l = l\<lparr>lp_client := c\<rparr>"
      using f by (auto simp: sync_def split: sum.splits option.splits)
    with served serves_fetch [OF f] show ?thesis by (simp add: served_by_def)
  qed
qed

text \<open>An unanswered fetch means the loop is up to date: what the source serves has the tag it holds.\<close>

lemma sync_unchanged_current:
  assumes "fetch (ss_etag (lp_state l)) (lp_client l) = (Inr None, c)" "serves (lp_client l) t es"
  shows "t = ss_etag (lp_state (sync jl order fetch persist l)) \<and> lp_resolver (sync jl order fetch persist l) = lp_resolver l"
  using assms(1) fetch_unchanged [OF assms] by (simp add: sync_def)

lemma sync_pow_served: "served_by l \<Longrightarrow> served_by ((sync jl order fetch persist ^^ n) l)"
  by (induction n) (auto intro: sync_keeps_served)

end

interpretation mock_source: full_source Mock_Fetch "\<lambda>mk t es. t = mk_etag mk \<and> es = mk_entries mk"
  by unfold_locales (auto simp: Mock_Fetch_def Let_def full_result_def split: if_splits)

interpretation file_source: full_source "FileClient_Fetch fl c"
  "\<lambda>f t es. \<exists>d. f = FileData d \<and> t = sha256_hex fl d \<and> FileClient_parse fl c d = Inr es"
  for fl :: file_lib and c
proof unfold_locales
  fix known f r f'
  assume "FileClient_Fetch fl c known f = (Inr (Some r), f')"
  then show "Full r \<and> (\<exists>d. f = FileData d \<and> ETag r = sha256_hex fl d \<and> FileClient_parse fl c d = Inr (Entries r))"
    by (auto simp: FileClient_Fetch_def Let_def full_result_def split: file_read.splits if_splits sum.splits)
next
  fix known f f' t es
  assume "FileClient_Fetch fl c known f = (Inr None, f')" "\<exists>d. f = FileData d \<and> t = sha256_hex fl d \<and> FileClient_parse fl c d = Inr es"
  then show "t = known"
    by (auto simp: FileClient_Fetch_def Let_def split: if_splits sum.splits)
next
  fix known f x f' t es
  assume "FileClient_Fetch fl c known f = (x, f')"
  then show "(\<exists>d. f' = FileData d \<and> t = sha256_hex fl d \<and> FileClient_parse fl c d = Inr es)
      \<longleftrightarrow> (\<exists>d. f = FileData d \<and> t = sha256_hex fl d \<and> FileClient_parse fl c d = Inr es)"
    by (auto simp: FileClient_Fetch_def Let_def split: file_read.splits if_splits sum.splits)
qed

section \<open>The fallback client over time\<close>

fun Fallback_run :: "'p fetch \<Rightarrow> 's fetch \<Rightarrow> string list \<Rightarrow> ('p, 's) FallbackClient
    \<Rightarrow> (fetch_error + FetchResult option) list \<times> ('p, 's) FallbackClient" where
  "Fallback_run pf sf [] f = ([], f)"
| "Fallback_run pf sf (k # ks) f =
     (case Fallback_Fetch pf sf k f of (r, f1) \<Rightarrow> (case Fallback_run pf sf ks f1 of (rs, f2) \<Rightarrow> (r # rs, f2)))"

lemma Fallback_Fetch_promoted:
  assumes "fb_promoted f" "Fallback_Fetch pf sf k f = (r, f')"
  shows "fb_promoted f' \<and> fb_secondary f' = fb_secondary f \<and> fb_hooks f' = fb_hooks f
     \<and> r = fst (pf k (fb_primary f)) \<and> fb_primary f' = snd (pf k (fb_primary f))"
  using assms by (auto simp: Fallback_Fetch_def split: prod.splits)

lemma Fallback_run_promoted:
  assumes "fb_promoted f" "Fallback_run pf sf ks f = (rs, f')"
  shows "fb_promoted f' \<and> fb_secondary f' = fb_secondary f \<and> fb_hooks f' = fb_hooks f"
  using assms
proof (induction ks arbitrary: f rs)
  case (Cons k ks)
  obtain r f1 where f1: "Fallback_Fetch pf sf k f = (r, f1)" by fastforce
  obtain rs' f2 where f2: "Fallback_run pf sf ks f1 = (rs', f2)" by fastforce
  have "f2 = f'" using Cons.prems(2) f1 f2 by simp
  with Fallback_Fetch_promoted [OF Cons.prems(1) f1] Cons.IH [of f1 rs'] f2 show ?case by simp
qed simp

lemma Fallback_Fetch_cases:
  assumes "\<not> fb_promoted f" "Fallback_Fetch pf sf k f = (r, f')"
  obtains (promotes) res where "fst (pf [] (fb_primary f)) = Inr res" "fb_promoted f'" "fb_secondary f' = fb_secondary f"
      "fb_hooks f' = fb_hooks f @ [case res of None \<Rightarrow> [] | Some x \<Rightarrow> ETag x]"
      "r = Inr (map_option (\<lambda>x. x\<lparr>Full := True, Added := [], Removed := [], Changed := []\<rparr>) res)"
  | (falls_back) e where "fst (pf [] (fb_primary f)) = Inl e" "\<not> fb_promoted f'" "fb_hooks f' = fb_hooks f"
      "r = fst (sf k (fb_secondary f))" "fb_secondary f' = snd (sf k (fb_secondary f))"
proof (cases "pf [] (fb_primary f)")
  case (Pair x p)
  show thesis
  proof (cases x)
    case (Inl e)
    then show thesis using assms Pair by (intro that(2)) (auto simp: Fallback_Fetch_def split: prod.splits)
  next
    case (Inr res)
    then show thesis using assms Pair
      by (intro that(1) [of res]) (auto simp: Fallback_Fetch_def promote_def split: prod.splits option.splits)
  qed
qed

section \<open>Properties\<close>


definition sample_delta :: FetchResult where
  "sample_delta = \<lparr>ETag = ''v2'', Full = False, Entries = [], Added = [sample_entry ''c'' ''L3'' ''p3''],
     Removed = [''p2''], Changed = [sample_entry ''c'' ''L1'' ''p9'']\<rparr>"


definition swap_delta :: FetchResult where
  "swap_delta = \<lparr>ETag = ''v2'', Full = False, Entries = [], Added = [], Removed = [],
     Changed = [sample_entry ''c'' ''L2'' ''p1'', sample_entry ''c'' ''L1'' ''p2'']\<rparr>"

text \<open>A delta that exchanges the addresses of two points loses one of them: of the two changed
  entries only the second is left, although neither was removed.\<close>

theorem applyDiff_swap_loses_point:
  assumes "\<forall>m. mset (order m) = mset (map snd m)"
  shows "applyDiff order [sample_entry ''c'' ''L1'' ''p1'', sample_entry ''c'' ''L2'' ''p2''] swap_delta
    = [sample_entry ''c'' ''L1'' ''p2'']"
proof -
  have "diff_map [sample_entry ''c'' ''L1'' ''p1'', sample_entry ''c'' ''L2'' ''p2''] swap_delta
      = [(''p2'', sample_entry ''c'' ''L1'' ''p2'')]" by code_simp
  with assms [rule_format, of "[(''p2'', sample_entry ''c'' ''L1'' ''p2'')]"] show ?thesis by (simp add: applyDiff_def)
qed

theorem applyDiff_swap_loses_point_witness:
  "length (applyDiff (map snd) [sample_entry ''c'' ''L1'' ''p1'', sample_entry ''c'' ''L2'' ''p2''] swap_delta) = 1"
  by (subst applyDiff_swap_loses_point) simp_all

text \<open>The published list and revision belong together. With a client that answers in full, once one
  fetch has been answered, the resolver's list after any further number of synchronisations, failed or
  not, is a list the source serves under exactly the revision the loop reports.\<close>

theorem mock_sync_consistent:
  assumes "ss_etag (lp_state l) \<noteq> mk_etag (lp_client l)"
  shows "let l' = (sync jl order Mock_Fetch persist ^^ n) (sync jl order Mock_Fetch persist l) in
     lp_appliedETag l' = mk_etag (lp_client l') \<and> Snapshot (lp_resolver l') = mk_entries (lp_client l')"
proof -
  have "Mock_Fetch (ss_etag (lp_state l)) (lp_client l)
      = (Inr (Some (full_result (mk_etag (lp_client l)) (mk_entries (lp_client l)))),
         (lp_client l)\<lparr>mk_fetchCalls := mk_fetchCalls (lp_client l) + 1\<rparr>)"
    using assms by (simp add: Mock_Fetch_def Let_def)
  from mock_source.sync_pow_served [OF mock_source.sync_answer_served [OF this], of n jl order persist jl order persist]
  show ?thesis by (simp add: mock_source.served_by_def Let_def)
qed

definition sample_loop :: "Mock Loop" where
  "sample_loop = \<lparr>lp_client = \<lparr>mk_entries = [sample_entry ''c'' ''L1'' ''p1''], mk_etag = ''v1'', mk_fetchCalls = 0\<rparr>,
     lp_resolver = NewSynced None, lp_state = \<lparr>ss_etag = [], ss_entries = []\<rparr>, lp_appliedETag = [], lp_ready = False,
     lp_saved = []\<rparr>"

theorem mock_sync_consistent_witness:
  "lp_appliedETag ((sync tiny_json (map snd) Mock_Fetch False ^^ 2) (sync tiny_json (map snd) Mock_Fetch False sample_loop))
     = mk_etag (lp_client ((sync tiny_json (map snd) Mock_Fetch False ^^ 2) (sync tiny_json (map snd) Mock_Fetch False sample_loop)))"
  using mock_sync_consistent [where l = sample_loop and n = 2 and jl = tiny_json and order = "map snd" and persist = False] by (simp add: sample_loop_def Let_def)

text \<open>C40: Promotion is one-way and announced once. A fallback client that has not promoted asks its
  primary afresh, without the secondary's revision; the first answer promotes it, is delivered as a
  full list and is announced to the hook, and from then on, over any sequence of fetches, the
  secondary is not asked again and the hook is not called again. Until then it answers exactly as the
  secondary does.\<close>

theorem Fallback_promotes_once:
  assumes "\<not> fb_promoted f" "Fallback_Fetch pf sf k f = (r, f1)" "Fallback_run pf sf ks f1 = (rs, f2)"
  shows "case fst (pf [] (fb_primary f)) of
      Inr res \<Rightarrow> fb_promoted f2 \<and> fb_secondary f2 = fb_secondary f
        \<and> fb_hooks f2 = fb_hooks f @ [case res of None \<Rightarrow> [] | Some x \<Rightarrow> ETag x]
        \<and> (case res of None \<Rightarrow> r = Inr None
           | Some x \<Rightarrow> \<exists>y. r = Inr (Some y) \<and> Full y \<and> Added y = [] \<and> Removed y = [] \<and> Changed y = []
               \<and> Entries y = Entries x \<and> ETag y = ETag x)
    | Inl e \<Rightarrow> \<not> fb_promoted f1 \<and> r = fst (sf k (fb_secondary f)) \<and> fb_hooks f1 = fb_hooks f"
  using assms(1,2)
proof (cases rule: Fallback_Fetch_cases)
  case (promotes res)
  with Fallback_run_promoted [OF promotes(2) assms(3)] show ?thesis by (cases res) auto
qed auto

definition sample_fallback :: "(Mock, Mock) FallbackClient" where
  "sample_fallback = \<lparr>fb_primary = lp_client sample_loop, fb_secondary = lp_client sample_loop, fb_promoted = False, fb_hooks = []\<rparr>"

theorem Fallback_promotes_once_witness:
  "fb_hooks (snd (Fallback_run Mock_Fetch Mock_Fetch [''a'', ''b''] (snd (Fallback_Fetch Mock_Fetch Mock_Fetch [] sample_fallback))))
     = [''v1'']"
proof -
  let ?f = sample_fallback
  obtain r f1 where f1: "Fallback_Fetch Mock_Fetch Mock_Fetch [] ?f = (r, f1)" by fastforce
  obtain rs f2 where f2: "Fallback_run Mock_Fetch Mock_Fetch [''a'', ''b''] f1 = (rs, f2)" by fastforce
  have p: "\<not> fb_promoted ?f" "fb_hooks ?f = []" by (simp_all add: sample_fallback_def)
  have "fst (Mock_Fetch [] (fb_primary ?f)) = Inr (Some (full_result ''v1'' [sample_entry ''c'' ''L1'' ''p1'']))"
    by (simp add: sample_fallback_def sample_loop_def Mock_Fetch_def Let_def)
  with Fallback_promotes_once [OF p(1) f1 f2] p(2) have "fb_hooks f2 = [''v1'']" by (simp add: full_result_def)
  with f1 f2 show ?thesis by simp
qed

end
