(* ===== verification/Mqtt_Topics.thy ===== *)
theory Mqtt_Topics
  imports Go_Lib "HOL-Library.Char_ord" "HOL-Library.List_Lexorder"
begin

text \<open>
  The topics of the MQTT connector: filter matching (\<open>connector/mqtt/topicmatch.go\<close>), the topic index
  that routes messages and decides what to subscribe, and the plan that moves the broker session from one
  index to the next (\<open>connector/mqtt/connector.go\<close>), with the wire types of \<open>connector/sdk/wire.go\<close>.
  Ranging over a map visits the keys in the order the function \<open>ord\<close> gives, any permutation of them.
\<close>

section \<open>Filters\<close>

fun match_levels :: "string list \<Rightarrow> string list \<Rightarrow> bool" where
  "match_levels [] ts = (ts = [])"
| "match_levels (fl # fls) ts =
     (if fl = ''#'' then fls = []
      else case ts of [] \<Rightarrow> False | t # ts' \<Rightarrow> (fl = ''+'' \<or> fl = t) \<and> match_levels fls ts')"

definition filterMatches :: "string \<Rightarrow> string \<Rightarrow> bool" where
  "filterMatches flt topic =
     (if flt = topic then True
      else if is_prefix ''$'' (hd (Split (CHR ''/'') topic)) \<and> \<not> is_prefix ''$'' (hd (Split (CHR ''/'') flt)) then False
      else match_levels (Split (CHR ''/'') flt) (Split (CHR ''/'') topic))"

definition hasWildcard :: "string \<Rightarrow> bool" where
  "hasWildcard flt = list_ex (\<lambda>level. level = ''+'' \<or> level = ''#'') (Split (CHR ''/'') flt)"

definition literalLevels :: "string \<Rightarrow> nat" where
  "literalLevels flt = length (filter (\<lambda>level. level \<noteq> ''+'' \<and> level \<noteq> ''#'') (Split (CHR ''/'') flt))"

section \<open>Points\<close>

type_synonym byte = "8 word"

record SubscriptionSpec =
  sp_Topic :: string
  sp_QoS :: byte
  sp_Writable :: bool
  sp_CommandTopic :: string
  sp_CommandQoS :: byte
  sp_DeviceRef :: string
  sp_Unit :: string
  sp_PayloadTemplate :: string

record SubscriptionApplyRequest =
  ar_Revision :: string
  ar_Points :: "SubscriptionSpec list"

record SubscriptionApplyReply =
  ay_Applied :: bool
  ay_AppliedRevision :: string
  ay_SubscribedCount :: nat
  ay_Added :: "string list"
  ay_Changed :: "string list"
  ay_Removed :: "string list"
  ay_Errors :: "string list"

record SubscriptionStatusReply =
  sr_AppliedRevision :: string
  sr_Subscriptions :: "SubscriptionSpec list"

record PointConfig =
  pt_Topic :: string
  pt_DeviceRef :: string
  pt_Unit :: string
  pt_Writable :: bool
  pt_CommandTopic :: string
  pt_PayloadTemplate :: string
  pt_QoS :: byte
  pt_CommandQoS :: byte

definition point_subscribeQoS :: "PointConfig \<Rightarrow> byte" where
  "point_subscribeQoS p = (if pt_QoS p = 0 then 1 else pt_QoS p)"

definition point_commandQoS :: "PointConfig \<Rightarrow> byte" where
  "point_commandQoS p = (if pt_CommandQoS p = 0 then 1 else pt_CommandQoS p)"

definition pointConfigFromSpec :: "SubscriptionSpec \<Rightarrow> PointConfig" where
  "pointConfigFromSpec s = \<lparr>pt_Topic = sp_Topic s, pt_DeviceRef = sp_DeviceRef s, pt_Unit = sp_Unit s,
     pt_Writable = sp_Writable s, pt_CommandTopic = sp_CommandTopic s, pt_PayloadTemplate = sp_PayloadTemplate s,
     pt_QoS = sp_QoS s, pt_CommandQoS = sp_CommandQoS s\<rparr>"

text \<open>The point at fault and what is wrong with it; \<open>err\<close> has the text of the error.\<close>

datatype point_error = EmptyTopic nat | NoCommandTopic nat string | BadQoS nat string byte | BadCommandQoS nat string byte

fun validate_from :: "nat \<Rightarrow> PointConfig list \<Rightarrow> point_error option" where
  "validate_from i [] = None"
| "validate_from i (p # ps) =
     (if pt_Topic p = [] then Some (EmptyTopic i)
      else if pt_Writable p \<and> pt_CommandTopic p = [] then Some (NoCommandTopic i (pt_Topic p))
      else if pt_QoS p > 1 then Some (BadQoS i (pt_Topic p) (pt_QoS p))
      else if pt_CommandQoS p > 1 then Some (BadCommandQoS i (pt_Topic p) (pt_CommandQoS p))
      else validate_from (Suc i) ps)"

definition ValidatePoints :: "PointConfig list \<Rightarrow> point_error option" where
  "ValidatePoints ps = validate_from 0 ps"

section \<open>The topic index\<close>

record SubscriptionConfig =
  sc_Filter :: string
  sc_QoS :: byte

record SubscribeOptions =
  so_Topic :: string
  so_QoS :: byte
  so_NoLocal :: bool

record topicIndex =
  ti_points :: "PointConfig gomap"
  ti_explicitSubs :: "SubscribeOptions gomap"
  ti_wildcards :: "PointConfig list"
  ti_revision :: string

definition subscribeOptionsFor :: "PointConfig \<Rightarrow> SubscribeOptions" where
  "subscribeOptionsFor p = \<lparr>so_Topic = pt_Topic p, so_QoS = point_subscribeQoS p,
     so_NoLocal = (pt_Writable p \<and> pt_CommandTopic p = pt_Topic p)\<rparr>"

definition coveredByWildcard :: "string \<Rightarrow> SubscriptionConfig list \<Rightarrow> bool" where
  "coveredByWildcard topic ws = list_ex (\<lambda>w. filterMatches (sc_Filter w) topic) ws"

fun index_points :: "PointConfig list \<Rightarrow> PointConfig gomap \<Rightarrow> PointConfig gomap" where
  "index_points [] m = m"
| "index_points (p # ps) m = index_points ps (AList.update (pt_Topic p) p m)"

definition point_covered :: "PointConfig list \<Rightarrow> SubscriptionConfig list \<Rightarrow> PointConfig \<Rightarrow> bool" where
  "point_covered wildcards static p =
     (coveredByWildcard (pt_Topic p) static
      \<or> \<not> hasWildcard (pt_Topic p) \<and> list_ex (\<lambda>w. filterMatches (pt_Topic w) (pt_Topic p)) wildcards)"

fun index_subs :: "(PointConfig \<Rightarrow> bool) \<Rightarrow> PointConfig list \<Rightarrow> SubscribeOptions gomap \<Rightarrow> SubscribeOptions gomap" where
  "index_subs covered [] m = m"
| "index_subs covered (p # ps) m =
     index_subs covered ps (if covered p then m else AList.update (pt_Topic p) (subscribeOptionsFor p) m)"

text \<open>Most literal levels first, then by name.\<close>

definition sort_wildcards :: "PointConfig list \<Rightarrow> PointConfig list" where
  "sort_wildcards ws = sort_key (\<lambda>p. - int (literalLevels (pt_Topic p))) (sort_key pt_Topic ws)"

definition newTopicIndex :: "PointConfig list \<Rightarrow> SubscriptionConfig list \<Rightarrow> string \<Rightarrow> topicIndex" where
  "newTopicIndex ps static rv =
     (let wildcards = filter (\<lambda>p. hasWildcard (pt_Topic p)) ps in
      \<lparr>ti_points = index_points ps [], ti_explicitSubs = index_subs (point_covered wildcards static) ps [],
       ti_wildcards = sort_wildcards wildcards, ti_revision = rv\<rparr>)"

definition resolve :: "topicIndex \<Rightarrow> string \<Rightarrow> (PointConfig \<times> bool) option" where
  "resolve idx topic =
     (case map_of (ti_points idx) topic of
        Some p \<Rightarrow> Some (p, True)
      | None \<Rightarrow> (case find (\<lambda>w. filterMatches (pt_Topic w) topic) (ti_wildcards idx) of
          Some w \<Rightarrow> Some (w, False) | None \<Rightarrow> None))"

definition pointConfigsOf :: "(string list \<Rightarrow> string list) \<Rightarrow> PointConfig gomap \<Rightarrow> PointConfig list" where
  "pointConfigsOf ord m = List.map_filter (map_of m) (ord (map fst m))"

section \<open>Moving from one index to the next\<close>

definition planSubscriptions :: "(string list \<Rightarrow> string list) \<Rightarrow> topicIndex \<Rightarrow> topicIndex \<Rightarrow> string list
    \<Rightarrow> SubscribeOptions list \<times> string list" where
  "planSubscriptions ord current next changed =
     (sort_key so_Topic (map snd (filter (\<lambda>(topic, opt). map_of (ti_explicitSubs current) topic = None \<or> topic \<in> set changed)
        (map (\<lambda>t. (t, the (map_of (ti_explicitSubs next) t))) (ord (map fst (ti_explicitSubs next)))))),
      sort (filter (\<lambda>topic. map_of (ti_explicitSubs next) topic = None) (ord (map fst (ti_explicitSubs current)))))"

definition brokerSubscriptions :: "(string list \<Rightarrow> string list) \<Rightarrow> SubscriptionConfig list \<Rightarrow> topicIndex \<Rightarrow> SubscribeOptions list" where
  "brokerSubscriptions ord static idx =
     map (\<lambda>w. \<lparr>so_Topic = sc_Filter w, so_QoS = sc_QoS w, so_NoLocal = False\<rparr>) static
     @ List.map_filter (map_of (ti_explicitSubs idx)) (ord (map fst (ti_explicitSubs idx)))"

definition spec_of_point :: "PointConfig \<Rightarrow> SubscriptionSpec" where
  "spec_of_point p = \<lparr>sp_Topic = pt_Topic p, sp_QoS = point_subscribeQoS p, sp_Writable = pt_Writable p,
     sp_CommandTopic = pt_CommandTopic p, sp_CommandQoS = (if pt_Writable p then point_commandQoS p else 0),
     sp_DeviceRef = pt_DeviceRef p, sp_Unit = pt_Unit p, sp_PayloadTemplate = pt_PayloadTemplate p\<rparr>"

definition SubscriptionStatus :: "(string list \<Rightarrow> string list) \<Rightarrow> topicIndex \<Rightarrow> SubscriptionStatusReply" where
  "SubscriptionStatus ord idx =
     \<lparr>sr_AppliedRevision = ti_revision idx, sr_Subscriptions = map spec_of_point (pointConfigsOf ord (ti_points idx))\<rparr>"

definition apply_refused :: "string \<Rightarrow> SubscriptionApplyReply" where
  "apply_refused e = \<lparr>ay_Applied = False, ay_AppliedRevision = [], ay_SubscribedCount = 0, ay_Added = [], ay_Changed = [],
     ay_Removed = [], ay_Errors = [e]\<rparr>"

text \<open>
  The broker session is a value of type \<open>'b\<close>; \<open>subscribe\<close> and \<open>unsubscribe\<close> return the error text, if any,
  and the session. No session is a connection manager that is not there yet.
\<close>

record 'b broker_api =
  br_subscribe :: "SubscribeOptions list \<Rightarrow> 'b \<Rightarrow> string option \<times> 'b"
  br_unsubscribe :: "string list \<Rightarrow> 'b \<Rightarrow> string option \<times> 'b"

definition ApplySubscriptions :: "(string list \<Rightarrow> string list) \<Rightarrow> (point_error \<Rightarrow> string) \<Rightarrow> 'b broker_api \<Rightarrow> SubscriptionConfig list
    \<Rightarrow> SubscriptionApplyRequest \<Rightarrow> topicIndex \<times> 'b option \<Rightarrow> SubscriptionApplyReply \<times> topicIndex \<times> 'b option" where
  "ApplySubscriptions ord err api static req st =
     (case st of
        (current, None) \<Rightarrow> (apply_refused ''not_connected'', current, None)
      | (current, Some b) \<Rightarrow>
        let desired = index_points (map pointConfigFromSpec (ar_Points req)) [] in
        (case ValidatePoints (pointConfigsOf ord desired) of
           Some e \<Rightarrow> (apply_refused (''invalid_request: '' @ err e), current, Some b)
         | None \<Rightarrow>
           let keys = ord (map fst desired);
               added = filter (\<lambda>t. map_of (ti_points current) t = None) keys;
               changed = filter (\<lambda>t. map_of (ti_points current) t \<noteq> None \<and> map_of (ti_points current) t \<noteq> map_of desired t) keys;
               removed = filter (\<lambda>t. map_of desired t = None) (ord (map fst (ti_points current)));
               next = newTopicIndex (pointConfigsOf ord desired) static (ar_Revision req);
               (toSubscribe, toUnsubscribe) = planSubscriptions ord current next changed;
               (serr, b1) = (if toSubscribe \<noteq> [] then br_subscribe api toSubscribe b else (None, b))
           in (case serr of
                 Some e \<Rightarrow> (apply_refused (''subscribe: '' @ e), current, Some b1)
               | None \<Rightarrow>
                 let (uerr, b2) = (if toUnsubscribe \<noteq> [] then br_unsubscribe api toUnsubscribe b1 else (None, b1))
                 in (\<lparr>ay_Applied = True, ay_AppliedRevision = ar_Revision req, ay_SubscribedCount = length (ti_points next),
                      ay_Added = added, ay_Changed = changed, ay_Removed = removed,
                      ay_Errors = (case uerr of None \<Rightarrow> [] | Some e \<Rightarrow> [''unsubscribe: '' @ e])\<rparr>,
                     next, Some b2))))"

end
