(* ===== verification/Mqtt_Sync.thy ===== *)
theory Mqtt_Sync
  imports Mqtt_Topics Point_List
begin

text \<open>
  The gateway's side of MQTT synchronisation (\<open>internal/mqttsync\<close>): the subscriptions the Point List
  implies for a connector, the difference to what the connector reports, and the client that previews and
  applies it over NATS. The three lists of a difference are sorted by topic and have one entry per topic,
  so the order in which the maps are ranged over does not show.
\<close>

section \<open>Deriving subscriptions\<close>

definition derived :: "string \<Rightarrow> Entry \<Rightarrow> bool" where
  "derived connectorID e = (\<not> (Protocol e \<noteq> ''mqtt'' \<or> ConnectorID e \<noteq> connectorID \<or> LocalID e = [] \<or> ReleaseOf e \<noteq> []))"

definition derive_spec :: "byte \<Rightarrow> byte \<Rightarrow> Entry \<Rightarrow> SubscriptionSpec" where
  "derive_spec subQoS cmdQoS e =
     \<lparr>sp_Topic = LocalID e, sp_QoS = subQoS, sp_Writable = Writable e,
      sp_CommandTopic = (if Writable e then LocalID e else []), sp_CommandQoS = (if Writable e then cmdQoS else 0),
      sp_DeviceRef = DeviceRef e, sp_Unit = EntryUnit e, sp_PayloadTemplate = []\<rparr>"

definition Derive :: "Entry list \<Rightarrow> string \<Rightarrow> byte \<Rightarrow> byte \<Rightarrow> SubscriptionSpec list" where
  "Derive entries connectorID subQoS cmdQoS = map (derive_spec subQoS cmdQoS) (filter (derived connectorID) entries)"

section \<open>Differences\<close>

record Diff =
  df_Added :: "SubscriptionSpec list"
  df_Changed :: "SubscriptionSpec list"
  df_Removed :: "SubscriptionSpec list"
  df_CurrentRevision :: string
  df_TargetRevision :: string
  df_SubscribedCount :: nat

fun by_topic :: "SubscriptionSpec list \<Rightarrow> SubscriptionSpec gomap \<Rightarrow> SubscriptionSpec gomap" where
  "by_topic [] m = m"
| "by_topic (s # ss) m = by_topic ss (AList.update (sp_Topic s) s m)"

definition sortSpecs :: "SubscriptionSpec list \<Rightarrow> SubscriptionSpec list" where
  "sortSpecs specs = sort_key sp_Topic specs"

definition computeDiff :: "SubscriptionSpec list \<Rightarrow> SubscriptionSpec list \<Rightarrow> Diff" where
  "computeDiff current desired =
     (let c = by_topic current []; d = by_topic desired [] in
      \<lparr>df_Added = sortSpecs (map snd (filter (\<lambda>(t, want). map_of c t = None) d)),
       df_Changed = sortSpecs (map snd (filter (\<lambda>(t, want). map_of c t \<noteq> None \<and> map_of c t \<noteq> Some want) d)),
       df_Removed = sortSpecs (map snd (filter (\<lambda>(t, have). map_of d t = None) c)),
       df_CurrentRevision = [], df_TargetRevision = [], df_SubscribedCount = length desired\<rparr>)"

text \<open>\<open>sha\<close> is the hexadecimal SHA-256 of the specs' JSON.\<close>

definition revisionOf :: "(SubscriptionSpec list \<Rightarrow> string) \<Rightarrow> SubscriptionSpec list \<Rightarrow> string" where
  "revisionOf sha specs = ''sha256:'' @ sha (sortSpecs specs)"

section \<open>The client\<close>

record SyncConfig =
  DefaultSubscribeQoS :: "byte gomap"
  DefaultCommandQoS :: "byte gomap"
  sync_Timeout :: int

definition NewClient :: "SyncConfig \<Rightarrow> SyncConfig" where
  "NewClient cfg = (if sync_Timeout cfg \<le> 0 then cfg\<lparr>sync_Timeout := 5000000000\<rparr> else cfg)"

definition default_qos :: "byte gomap \<Rightarrow> string \<Rightarrow> byte" where
  "default_qos m connectorID = (case map_of m connectorID of Some q \<Rightarrow> if q \<noteq> 0 then q else 1 | None \<Rightarrow> 1)"

definition client_desired :: "SyncConfig \<Rightarrow> Entry list \<Rightarrow> string \<Rightarrow> SubscriptionSpec list" where
  "client_desired cfg snapshot connectorID =
     Derive snapshot connectorID (default_qos (DefaultSubscribeQoS cfg) connectorID) (default_qos (DefaultCommandQoS cfg) connectorID)"

text \<open>A request over NATS to a subject, with its reply decoded.\<close>

datatype 'r bus_reply = BusFailed | BusGarbled | BusReply 'r

datatype sync_error = RequestFailed string | DecodeFailed string | InvalidPoints point_error

definition bus_result :: "string \<Rightarrow> 'r bus_reply \<Rightarrow> sync_error + 'r" where
  "bus_result connectorID r = (case r of BusFailed \<Rightarrow> Inl (RequestFailed connectorID)
     | BusGarbled \<Rightarrow> Inl (DecodeFailed connectorID) | BusReply x \<Rightarrow> Inr x)"

record 'n sync_bus =
  bus_status :: "string \<Rightarrow> 'n \<Rightarrow> SubscriptionStatusReply bus_reply \<times> 'n"
  bus_apply :: "string \<Rightarrow> SubscriptionApplyRequest \<Rightarrow> 'n \<Rightarrow> SubscriptionApplyReply bus_reply \<times> 'n"

definition client_status :: "'n sync_bus \<Rightarrow> string \<Rightarrow> 'n \<Rightarrow> (sync_error + SubscriptionStatusReply) \<times> 'n" where
  "client_status bus connectorID n =
     (case bus_status bus (''cfg.mqtt.'' @ connectorID @ ''.status'') n of (r, n1) \<Rightarrow> (bus_result connectorID r, n1))"

definition Preview :: "(SubscriptionSpec list \<Rightarrow> string) \<Rightarrow> 'n sync_bus \<Rightarrow> SyncConfig \<Rightarrow> Entry list \<Rightarrow> string \<Rightarrow> 'n
    \<Rightarrow> (sync_error + Diff) \<times> 'n" where
  "Preview sha bus cfg snapshot connectorID n =
     (case client_status bus connectorID n of
        (Inl e, n1) \<Rightarrow> (Inl e, n1)
      | (Inr status, n1) \<Rightarrow>
          let desired = client_desired cfg snapshot connectorID in
          (Inr ((computeDiff (sr_Subscriptions status) desired)\<lparr>df_CurrentRevision := sr_AppliedRevision status,
             df_TargetRevision := revisionOf sha desired\<rparr>), n1))"

definition Apply :: "(SubscriptionSpec list \<Rightarrow> string) \<Rightarrow> 'n sync_bus \<Rightarrow> SyncConfig \<Rightarrow> Entry list \<Rightarrow> string \<Rightarrow> 'n
    \<Rightarrow> (sync_error + SubscriptionApplyReply) \<times> 'n" where
  "Apply sha bus cfg snapshot connectorID n =
     (let desired = client_desired cfg snapshot connectorID in
      case ValidatePoints (map pointConfigFromSpec desired) of
        Some e \<Rightarrow> (Inl (InvalidPoints e), n)
      | None \<Rightarrow>
          (case bus_apply bus (''cfg.mqtt.'' @ connectorID @ ''.apply'')
              \<lparr>ar_Revision = revisionOf sha desired, ar_Points = desired\<rparr> n of
             (r, n1) \<Rightarrow> (bus_result connectorID r, n1)))"

section \<open>The connector on the other end of the bus\<close>

text \<open>The handlers of \<open>cfg.mqtt.<id>.status\<close> and \<open>cfg.mqtt.<id>.apply\<close>; a request that reaches them decodes.\<close>

definition connector_bus :: "(string list \<Rightarrow> string list) \<Rightarrow> (point_error \<Rightarrow> string) \<Rightarrow> 'b broker_api \<Rightarrow> SubscriptionConfig list \<Rightarrow> string
    \<Rightarrow> (topicIndex \<times> 'b option) sync_bus" where
  "connector_bus ord err api static connectorID =
     \<lparr>bus_status = (\<lambda>subject n. if subject = ''cfg.mqtt.'' @ connectorID @ ''.status''
         then (BusReply (SubscriptionStatus ord (fst n)), n) else (BusFailed, n)),
      bus_apply = (\<lambda>subject req n. if subject = ''cfg.mqtt.'' @ connectorID @ ''.apply''
         then (case ApplySubscriptions ord err api static req n of (r, n1) \<Rightarrow> (BusReply r, n1)) else (BusFailed, n))\<rparr>"

end
