(* ===== verification/Mqtt_Facts.thy ===== *)
theory Mqtt_Facts
  imports Mqtt_Sync Point_List_Facts
begin

text \<open>
  What MQTT synchronisation shows: filters match as MQTT 5 prescribes, an applied set of subscriptions is
  what the broker then holds, a failed apply changes nothing of the connector's state, and after a
  successful apply the preview is empty. Two cases in which the cover by wildcards goes wrong are recorded.
\<close>

section \<open>Filters as MQTT 5 has them\<close>

inductive levels_match :: "string list \<Rightarrow> string list \<Rightarrow> bool" where
  levels_done: "levels_match [] []"
| levels_multi: "levels_match [''#''] ts"
| levels_single: "levels_match fs ts \<Longrightarrow> levels_match (''+'' # fs) (t # ts)"
| levels_literal: "l \<noteq> ''+'' \<Longrightarrow> l \<noteq> ''#'' \<Longrightarrow> levels_match fs ts \<Longrightarrow> levels_match (l # fs) (l # ts)"

inductive_cases levels_match_NilE: "levels_match [] ts"
inductive_cases levels_match_ConsE: "levels_match (f # fs) ts"

definition mqtt_matches :: "string \<Rightarrow> string \<Rightarrow> bool" where
  "mqtt_matches flt topic \<longleftrightarrow> levels_match (Split (CHR ''/'') flt) (Split (CHR ''/'') topic)
     \<and> \<not> (is_prefix ''$'' topic \<and> hd (Split (CHR ''/'') flt) \<in> {''+'', ''#''})"

lemma match_levels_iff: "match_levels fs ts \<longleftrightarrow> levels_match fs ts"
proof (induction fs ts rule: match_levels.induct)
  case (1 ts)
  show ?case by (auto elim: levels_match_NilE intro: levels_match.intros)
next
  case (2 f fs ts)
  show ?case
  proof (cases "f = ''#''")
    case True
    then show ?thesis by (auto elim: levels_match_ConsE intro: levels_match.intros)
  next
    case False
    with 2 show ?thesis by (cases ts) (auto elim: levels_match_ConsE intro: levels_match.intros)
  qed
qed

lemma levels_match_refl: "\<forall>l \<in> set ls. l \<noteq> ''+'' \<and> l \<noteq> ''#'' \<Longrightarrow> levels_match ls ls"
  by (induction ls) (auto intro: levels_match.intros)

lemma is_prefix_dollar: "is_prefix ''$'' (hd (Split (CHR ''/'') t)) = is_prefix ''$'' t"
proof (cases t)
  case (Cons c s)
  then show ?thesis by (cases "Split (CHR ''/'') s") (auto simp: is_prefix_def)
qed simp

lemma levels_match_hd:
  assumes "levels_match fs ts" "fs \<noteq> []" "ts \<noteq> []"
  shows "hd fs \<in> {''+'', ''#''} \<or> hd fs = hd ts"
  using assms by (auto elim: levels_match.cases)

lemma Split_ne [simp]: "Split c s \<noteq> []"
  by (cases s) (auto split: list.splits)

section \<open>The index\<close>

lemma index_points_lookup:
  "map_of (index_points ps m) t =
     (case last_such (\<lambda>p. pt_Topic p = t) ps of Some p \<Rightarrow> Some p | None \<Rightarrow> map_of m t)"
  by (induction ps arbitrary: m) (auto simp: last_such_Cons update_conv' split: option.splits)

lemma index_points_topic: "map_of (index_points ps []) t = Some p \<Longrightarrow> p \<in> set ps \<and> pt_Topic p = t"
  by (auto simp: index_points_lookup dest: last_such_SomeD split: option.splits)

lemma index_subs_lookup:
  assumes "\<forall>p q. pt_Topic p = pt_Topic q \<longrightarrow> covered p = covered q"
  shows "map_of (index_subs covered ps m) t =
     (case last_such (\<lambda>p. pt_Topic p = t) ps of
        Some p \<Rightarrow> if covered p then map_of m t else Some (subscribeOptionsFor p) | None \<Rightarrow> map_of m t)"
proof (induction ps arbitrary: m)
  case (Cons p ps)
  show ?case
  proof (cases "last_such (\<lambda>p. pt_Topic p = t) ps")
    case None
    with Cons show ?thesis by (auto simp: last_such_Cons update_conv')
  next
    case (Some q)
    with assms last_such_SomeD [OF Some] have "pt_Topic p = t \<Longrightarrow> covered p = covered q" by metis
    with Cons Some show ?thesis by (auto simp: last_such_Cons update_conv')
  qed
qed simp

lemma point_covered_topic: "\<forall>p q. pt_Topic p = pt_Topic q \<longrightarrow> point_covered ws static p = point_covered ws static q"
  by (simp add: point_covered_def)

lemma points_lookup [simp]: "ti_points (newTopicIndex ps static rv) = index_points ps []"
  by (simp add: newTopicIndex_def Let_def)

lemma explicitSubs_lookup:
  "map_of (ti_explicitSubs (newTopicIndex ps static rv)) t =
     (case map_of (ti_points (newTopicIndex ps static rv)) t of
        Some p \<Rightarrow> if point_covered (filter (\<lambda>p. hasWildcard (pt_Topic p)) ps) static p then None else Some (subscribeOptionsFor p)
      | None \<Rightarrow> None)"
proof -
  have "ti_explicitSubs (newTopicIndex ps static rv) =
      index_subs (point_covered (filter (\<lambda>p. hasWildcard (pt_Topic p)) ps) static) ps []"
    by (simp add: newTopicIndex_def Let_def)
  then show ?thesis
    by (simp only: index_subs_lookup [OF point_covered_topic] points_lookup index_points_lookup) (simp split: option.splits)
qed

lemma distinct_index_points: "distinct (map fst m) \<Longrightarrow> distinct (map fst (index_points ps m))"
  by (induction ps arbitrary: m) (auto simp: distinct_update)

lemma distinct_index_subs: "distinct (map fst m) \<Longrightarrow> distinct (map fst (index_subs c ps m))"
  by (induction ps arbitrary: m) (auto simp: distinct_update)

text \<open>Every key order of a Go map ranges over its keys.\<close>

lemma ord_set: "\<forall>ks. mset (ord ks) = mset ks \<Longrightarrow> set (ord ks) = set (ks :: string list)"
  by (metis set_mset_mset)

lemma set_map_filter: "set (List.map_filter f xs) = {y. \<exists>x \<in> set xs. f x = Some y}"
  by (induction xs) (auto simp: map_filter_simps split: option.splits)

lemma range_lookup: "y \<in> set (List.map_filter (map_of m) (map fst m)) \<longleftrightarrow> (\<exists>k. map_of m k = Some y)"
proof
  assume "\<exists>k. map_of m k = Some y"
  then obtain k where k: "map_of m k = Some y" ..
  then have "k \<in> fst ` set m" using map_of_eq_None_iff [of m k] by auto
  with k show "y \<in> set (List.map_filter (map_of m) (map fst m))" unfolding set_map_filter set_map by blast
qed (auto simp: set_map_filter)

lemma set_pointConfigsOf:
  assumes "\<forall>ks. mset (ord ks) = mset ks" "distinct (map fst m)"
  shows "set (pointConfigsOf ord m) = snd ` set m"
proof -
  have "set (pointConfigsOf ord m) = {v. \<exists>k \<in> fst ` set m. map_of m k = Some v}"
    using ord_set [OF assms(1), of "map fst m"] by (simp add: pointConfigsOf_def set_map_filter)
  also have "\<dots> = snd ` set m" using assms(2) by (force simp: map_of_eq_Some_iff)
  finally show ?thesis .
qed

lemma pointConfigsOf_lookup:
  assumes "\<forall>ks. mset (ord ks) = mset ks"
  shows "map_of (index_points (pointConfigsOf ord (index_points ps [])) []) = map_of (index_points ps [])"
proof
  fix t
  let ?m = "index_points ps []" and ?qs = "pointConfigsOf ord (index_points ps [])"
  have d: "distinct (map fst ?m)" by (simp add: distinct_index_points)
  have q: "p \<in> set ?qs \<longleftrightarrow> map_of ?m (pt_Topic p) = Some p" for p
  proof -
    have "p \<in> set ?qs \<longleftrightarrow> (\<exists>k. (k, p) \<in> set ?m)" unfolding set_pointConfigsOf [OF assms d] by force
    also have "\<dots> \<longleftrightarrow> (\<exists>k. map_of ?m k = Some p)" by (simp only: map_of_eq_Some_iff [OF d])
    also have "\<dots> \<longleftrightarrow> map_of ?m (pt_Topic p) = Some p" using index_points_topic by metis
    finally show ?thesis .
  qed
  have "map_of (index_points ?qs []) t = last_such (\<lambda>p. pt_Topic p = t) ?qs"
    by (simp only: index_points_lookup [of ?qs]) (simp split: option.splits)
  also have "\<dots> = map_of ?m t"
  proof (cases "last_such (\<lambda>p. pt_Topic p = t) ?qs")
    case None
    have "map_of ?m t \<noteq> Some p" for p using None q [of p] index_points_topic [of ps t p] by (auto simp: last_such_None)
    with None show ?thesis by (metis option.exhaust)
  next
    case (Some p)
    have "map_of ?m t = Some p" using last_such_SomeD [OF Some] q [of p] by metis
    with Some show ?thesis by simp
  qed
  finally show "map_of (index_points ?qs []) t = map_of ?m t" .
qed

section \<open>Applying a set of subscriptions\<close>

definition apply_desired :: "SubscriptionApplyRequest \<Rightarrow> PointConfig gomap" where
  "apply_desired req = index_points (map pointConfigFromSpec (ar_Points req)) []"

definition apply_next :: "(string list \<Rightarrow> string list) \<Rightarrow> SubscriptionConfig list \<Rightarrow> SubscriptionApplyRequest \<Rightarrow> topicIndex" where
  "apply_next ord static req = newTopicIndex (pointConfigsOf ord (apply_desired req)) static (ar_Revision req)"

definition apply_changed_topics :: "(string list \<Rightarrow> string list) \<Rightarrow> topicIndex \<Rightarrow> SubscriptionApplyRequest \<Rightarrow> string list" where
  "apply_changed_topics ord current req =
     filter (\<lambda>t. map_of (ti_points current) t \<noteq> None \<and> map_of (ti_points current) t \<noteq> map_of (apply_desired req) t)
       (ord (map fst (apply_desired req)))"

definition apply_plan :: "(string list \<Rightarrow> string list) \<Rightarrow> SubscriptionConfig list \<Rightarrow> SubscriptionApplyRequest \<Rightarrow> topicIndex
    \<Rightarrow> SubscribeOptions list \<times> string list" where
  "apply_plan ord static req current =
     planSubscriptions ord current (apply_next ord static req) (apply_changed_topics ord current req)"

lemma ApplySubscriptions_cases:
  assumes "ApplySubscriptions ord err api static req (current, ob) = (reply, idx, ob')"
  obtains (refused) "\<not> ay_Applied reply" "idx = current"
  | (applied) b b1 b2 uerr where "ob = Some b" "ob' = Some b2" "ay_Applied reply" "ay_AppliedRevision reply = ar_Revision req"
      "idx = apply_next ord static req"
      "(if fst (apply_plan ord static req current) \<noteq> [] then br_subscribe api (fst (apply_plan ord static req current)) b else (None, b)) = (None, b1)"
      "(if snd (apply_plan ord static req current) \<noteq> [] then br_unsubscribe api (snd (apply_plan ord static req current)) b1 else (None, b1)) = (uerr, b2)"
      "ay_Errors reply = (case uerr of None \<Rightarrow> [] | Some e \<Rightarrow> [''unsubscribe: '' @ e])"
proof (cases ob)
  case None
  with assms show thesis by (intro refused) (auto simp: ApplySubscriptions_def apply_refused_def)
next
  case (Some b)
  show thesis
  proof (cases "ValidatePoints (pointConfigsOf ord (apply_desired req))")
    case (Some e)
    with assms \<open>ob = Some b\<close> show thesis
      by (intro refused) (auto simp: ApplySubscriptions_def apply_refused_def apply_desired_def Let_def)
  next
    case None
    let ?plan = "apply_plan ord static req current"
    obtain serr b1 where sb: "(if fst ?plan \<noteq> [] then br_subscribe api (fst ?plan) b else (None, b)) = (serr, b1)" by fastforce
    obtain uerr b2 where ub: "(if snd ?plan \<noteq> [] then br_unsubscribe api (snd ?plan) b1 else (None, b1)) = (uerr, b2)" by fastforce
    note body = assms [unfolded ApplySubscriptions_def Some prod.case option.case Let_def, folded apply_desired_def,
        unfolded None option.case, folded apply_next_def apply_changed_topics_def, folded apply_plan_def, unfolded case_prod_beta]
    show thesis
    proof (cases serr)
      case None
      with body sb ub \<open>ob = Some b\<close> show thesis by (intro applied [of b b2 b1 uerr]) auto
    next
      case (Some e)
      with body sb show thesis by (intro refused) (auto simp: apply_refused_def)
    qed
  qed
qed

section \<open>What the broker holds\<close>

text \<open>A subscription replaces an earlier one with the same filter.\<close>

fun subscribe_all :: "SubscribeOptions list \<Rightarrow> (string \<rightharpoonup> SubscribeOptions) \<Rightarrow> (string \<rightharpoonup> SubscribeOptions)" where
  "subscribe_all [] h = h"
| "subscribe_all (s # ss) h = subscribe_all ss (h(so_Topic s \<mapsto> s))"

text \<open>What a fresh session holds after connecting.\<close>

definition session :: "SubscriptionConfig list \<Rightarrow> topicIndex \<Rightarrow> string \<rightharpoonup> SubscribeOptions" where
  "session static idx = subscribe_all (brokerSubscriptions id static idx) Map.empty"

definition static_subs :: "SubscriptionConfig list \<Rightarrow> SubscribeOptions list" where
  "static_subs static = map (\<lambda>w. \<lparr>so_Topic = sc_Filter w, so_QoS = sc_QoS w, so_NoLocal = False\<rparr>) static"

lemma subscribe_all_lookup:
  "subscribe_all ss h t = (case last_such (\<lambda>s. so_Topic s = t) ss of Some s \<Rightarrow> Some s | None \<Rightarrow> h t)"
  by (induction ss arbitrary: h) (auto simp: last_such_Cons split: option.splits)

lemma subscribe_all_append: "subscribe_all (ss @ ts) h = subscribe_all ts (subscribe_all ss h)"
  by (induction ss arbitrary: h) auto

lemma subscribe_all_map:
  assumes "\<forall>s \<in> set ss. m (so_Topic s) = Some s" "\<forall>t s. m t = Some s \<and> P t \<longrightarrow> s \<in> set ss \<and> so_Topic s = t"
    and "\<forall>s \<in> set ss. P (so_Topic s)"
  shows "subscribe_all ss h t = (if P t \<and> m t \<noteq> None then m t else h t)"
proof (cases "last_such (\<lambda>s. so_Topic s = t) ss")
  case None
  have "\<not> (P t \<and> m t = Some s)" for s using None assms(2) by (auto simp: last_such_None)
  then have "\<not> (P t \<and> m t \<noteq> None)" by blast
  with None show ?thesis by (auto simp: subscribe_all_lookup)
next
  case (Some s)
  with last_such_SomeD [OF Some] assms(1,3) have "m t = Some s" "P t" by auto
  with Some show ?thesis by (simp add: subscribe_all_lookup)
qed

text \<open>The explicit subscriptions of an index: each under its own topic, and none under a static filter.\<close>

abbreviation "explicit idx \<equiv> map_of (ti_explicitSubs idx)"

lemma explicit_SomeD:
  assumes "explicit (newTopicIndex ps static rv) t = Some s"
  shows "\<exists>p. map_of (index_points ps []) t = Some p \<and> s = subscribeOptionsFor p \<and> so_Topic s = t
     \<and> \<not> coveredByWildcard t static"
  using assms index_points_topic [of ps t]
  by (auto simp: explicitSubs_lookup point_covered_def subscribeOptionsFor_def split: option.splits if_splits)

lemma distinct_explicit: "distinct (map fst (ti_explicitSubs (newTopicIndex ps static rv)))"
  by (simp add: newTopicIndex_def Let_def distinct_index_subs)

lemma static_covers: "last_such (\<lambda>s. so_Topic s = t) (static_subs static) \<noteq> None \<Longrightarrow> coveredByWildcard t static"
  by (auto simp: last_such_None static_subs_def coveredByWildcard_def list_ex_iff filterMatches_def)

lemma explicit_static: "explicit (newTopicIndex ps static rv) t \<noteq> None \<Longrightarrow> subscribe_all (static_subs static) Map.empty t = None"
  using static_covers [of t static] explicit_SomeD [of ps static rv t]
  by (auto simp: subscribe_all_lookup split: option.splits)

lemma session_lookup:
  assumes "idx = newTopicIndex ps static rv"
  shows "session static idx t = (case explicit idx t of Some s \<Rightarrow> Some s | None \<Rightarrow> subscribe_all (static_subs static) Map.empty t)"
proof -
  let ?ss = "List.map_filter (explicit idx) (map fst (ti_explicitSubs idx))"
  have mem: "s \<in> set ?ss \<longleftrightarrow> (\<exists>t. explicit idx t = Some s)" for s
    by (simp add: range_lookup)
  have "subscribe_all ?ss h t = (if explicit idx t \<noteq> None then explicit idx t else h t)" for h
    using subscribe_all_map [of ?ss "explicit idx" "\<lambda>_. True" h t] explicit_SomeD [of ps static rv] assms mem by fastforce
  then show ?thesis by (auto simp: session_def brokerSubscriptions_def subscribe_all_append static_subs_def split: option.splits)
qed

text \<open>The effect of a plan on a session.\<close>

lemma plan_subscribes:
  assumes "\<forall>ks. mset (ord ks) = mset ks" "next = newTopicIndex ps static rv"
  shows "subscribe_all (fst (planSubscriptions ord current next changed)) h t =
     (if (explicit current t = None \<or> t \<in> set changed) \<and> explicit next t \<noteq> None then explicit next t else h t)"
proof (rule subscribe_all_map)
  have mem: "s \<in> set (fst (planSubscriptions ord current next changed)) \<longleftrightarrow>
      explicit next (so_Topic s) = Some s \<and> (explicit current (so_Topic s) = None \<or> so_Topic s \<in> set changed)" for s
  proof -
    have "s \<in> set (fst (planSubscriptions ord current next changed)) \<longleftrightarrow>
      (\<exists>t. explicit next t = Some s \<and> (explicit current t = None \<or> t \<in> set changed))"
      using ord_set [OF assms(1), of "map fst (ti_explicitSubs next)"]
      by (auto simp: planSubscriptions_def image_iff dest: map_of_SomeD) (metis map_of_eq_None_iff not_None_eq option.sel image_eqI fst_conv map_of_SomeD)+
    with explicit_SomeD [of ps static rv] assms(2) show ?thesis by metis
  qed
  show "\<forall>s \<in> set (fst (planSubscriptions ord current next changed)). explicit next (so_Topic s) = Some s"
    "\<forall>s \<in> set (fst (planSubscriptions ord current next changed)). explicit current (so_Topic s) = None \<or> so_Topic s \<in> set changed"
    using mem by blast+
  show "\<forall>t s. explicit next t = Some s \<and> (explicit current t = None \<or> t \<in> set changed) \<longrightarrow>
     s \<in> set (fst (planSubscriptions ord current next changed)) \<and> so_Topic s = t"
    using mem explicit_SomeD [of ps static rv] assms(2) by metis
qed

lemma plan_unsubscribes:
  assumes "\<forall>ks. mset (ord ks) = mset ks"
  shows "set (snd (planSubscriptions ord current next changed)) = {t. explicit current t \<noteq> None \<and> explicit next t = None}"
  using ord_set [OF assms, of "map fst (ti_explicitSubs current)"]
  by (auto simp: planSubscriptions_def map_of_eq_None_iff)

lemma session_applied:
  assumes "\<forall>ks. mset (ord ks) = mset ks" "current = newTopicIndex ps static rv"
    and "h = session static current"
    and "h1 = subscribe_all (fst (apply_plan ord static req current)) h"
    and "h2 = h1 |` (- set (snd (apply_plan ord static req current)))"
  shows "h2 = session static (apply_next ord static req)"
proof
  fix t
  let ?next = "apply_next ord static req" and ?S = "subscribe_all (static_subs static) Map.empty"
  let ?changed = "apply_changed_topics ord current req"
  note nx = apply_next_def [of ord static req]
  have h1: "h1 t = (if (explicit current t = None \<or> t \<in> set ?changed) \<and> explicit ?next t \<noteq> None then explicit ?next t else h t)"
    unfolding assms(4) apply_plan_def by (rule plan_subscribes [OF assms(1) nx])
  have h2: "h2 t = (if explicit current t \<noteq> None \<and> explicit ?next t = None then None else h1 t)"
    unfolding assms(5) apply_plan_def plan_unsubscribes [OF assms(1)] by (simp add: restrict_map_def)
  have h: "h t = (case explicit current t of Some s \<Rightarrow> Some s | None \<Rightarrow> ?S t)"
    unfolding assms(3) by (rule session_lookup [OF assms(2)])
  have n: "session static ?next t = (case explicit ?next t of Some s \<Rightarrow> Some s | None \<Rightarrow> ?S t)"
    by (rule session_lookup [OF nx])
  have st: "explicit current t \<noteq> None \<Longrightarrow> ?S t = None" unfolding assms(2) by (rule explicit_static)
  have same: "o1 = o2" if "explicit current t = Some o1" "explicit ?next t = Some o2" "t \<notin> set ?changed" for o1 o2
  proof -
    from explicit_SomeD [of ps static rv t o1] that(1) obtain p where p: "map_of (ti_points current) t = Some p" "o1 = subscribeOptionsFor p"
      by (auto simp: assms(2))
    from explicit_SomeD [OF that(2) [unfolded nx]] obtain q where q: "map_of (apply_desired req) t = Some q" "o2 = subscribeOptionsFor q"
      by (auto simp: apply_desired_def pointConfigsOf_lookup [OF assms(1)])
    then have "t \<in> set (ord (map fst (apply_desired req)))"
      using ord_set [OF assms(1), of "map fst (apply_desired req)"] by (auto dest: map_of_SomeD intro: rev_image_eqI)
    with that(3) p q show ?thesis by (auto simp: apply_changed_topics_def)
  qed
  show "h2 t = session static ?next t"
  proof (cases "explicit ?next t")
    case None
    with st show ?thesis by (cases "explicit current t") (simp_all add: h2 h1 h n)
  next
    case (Some o2)
    with same show ?thesis by (cases "explicit current t") (auto simp: h2 h1 h n)
  qed
qed

section \<open>Status after an apply\<close>

lemma by_topic_lookup:
  "map_of (by_topic ss m) t = (case last_such (\<lambda>s. sp_Topic s = t) ss of Some s \<Rightarrow> Some s | None \<Rightarrow> map_of m t)"
  by (induction ss arbitrary: m) (auto simp: last_such_Cons update_conv' split: option.splits)

lemma distinct_by_topic: "distinct (map fst m) \<Longrightarrow> distinct (map fst (by_topic ss m))"
  by (induction ss arbitrary: m) (auto simp: distinct_update)

lemma last_such_map: "last_such P (map f xs) = map_option f (last_such (\<lambda>x. P (f x)) xs)"
  by (induction xs) (auto simp: last_such_Cons split: option.splits)

lemma status_lookup:
  assumes "\<forall>ks. mset (ord ks) = mset ks"
  shows "map_of (by_topic (map spec_of_point (pointConfigsOf ord (index_points ps []))) []) t
     = map_option spec_of_point (map_of (index_points ps []) t)"
proof -
  let ?qs = "pointConfigsOf ord (index_points ps [])"
  have "map_of (index_points ?qs []) t = last_such (\<lambda>p. pt_Topic p = t) ?qs"
    by (simp only: index_points_lookup [of ?qs]) (simp split: option.splits)
  then have "last_such (\<lambda>p. pt_Topic p = t) ?qs = map_of (index_points ps []) t"
    by (simp only: pointConfigsOf_lookup [OF assms])
  then show ?thesis by (simp add: by_topic_lookup last_such_map spec_of_point_def split: option.splits)
qed

lemma spec_point_roundtrip:
  assumes "sp_QoS s \<noteq> 0" "sp_Writable s \<longrightarrow> sp_CommandQoS s \<noteq> 0" "\<not> sp_Writable s \<longrightarrow> sp_CommandQoS s = 0"
  shows "spec_of_point (pointConfigFromSpec s) = s"
  using assms by (simp add: spec_of_point_def pointConfigFromSpec_def point_subscribeQoS_def point_commandQoS_def)

lemma default_qos_nonzero: "default_qos m c \<noteq> 0"
  by (simp add: default_qos_def split: option.splits)

lemma desired_roundtrip: "s \<in> set (client_desired cfg es c) \<Longrightarrow> spec_of_point (pointConfigFromSpec s) = s"
  by (rule spec_point_roundtrip) (auto simp: client_desired_def Derive_def derive_spec_def default_qos_nonzero)

lemma sortSpecs_Nil: "sortSpecs xs = [] \<longleftrightarrow> xs = []"
  by (metis length_0_conv length_sort sortSpecs_def)

lemma computeDiff_empty:
  assumes "map_of (by_topic cs []) = map_of (by_topic ds [])"
  shows "df_Added (computeDiff cs ds) = []" "df_Changed (computeDiff cs ds) = []" "df_Removed (computeDiff cs ds) = []"
proof -
  have d: "(t, s) \<in> set (by_topic ss []) \<Longrightarrow> map_of (by_topic ss []) t = Some s" for t s ss
    by (simp add: distinct_by_topic map_of_eq_Some_iff)
  show "df_Added (computeDiff cs ds) = []" using d [of _ _ ds] by (fastforce simp: computeDiff_def Let_def sortSpecs_Nil assms filter_empty_conv)
  show "df_Changed (computeDiff cs ds) = []" using d [of _ _ ds] by (fastforce simp: computeDiff_def Let_def sortSpecs_Nil assms filter_empty_conv)
  show "df_Removed (computeDiff cs ds) = []" using d [of _ _ cs] by (fastforce simp: computeDiff_def Let_def sortSpecs_Nil assms [symmetric] filter_empty_conv)
qed

lemma Apply_connector:
  assumes "Apply sha (connector_bus ord err api static c) cfg es c n = (Inr reply, n')"
  shows "ApplySubscriptions ord err api static
     \<lparr>ar_Revision = revisionOf sha (client_desired cfg es c), ar_Points = client_desired cfg es c\<rparr> n = (reply, n')"
  using assms by (auto simp: Apply_def connector_bus_def Let_def bus_result_def split: option.splits prod.splits)

section \<open>Properties\<close>

text \<open>C32: Filter matching is that of MQTT 5. For a concrete topic the loop over the levels accepts exactly the filters
  that match it by the rules of the standard: single-level and multi-level wildcards, the parent level under a
  multi-level wildcard, and no leading wildcard for topics that begin with a dollar sign.\<close>

theorem filterMatches_mqtt:
  assumes "\<not> hasWildcard topic"
  shows "filterMatches flt topic \<longleftrightarrow> mqtt_matches flt topic"
proof -
  let ?f = "Split (CHR ''/'') flt" and ?t = "Split (CHR ''/'') topic"
  have lit: "\<forall>l \<in> set ?t. l \<noteq> ''+'' \<and> l \<noteq> ''#''" using assms by (auto simp: hasWildcard_def list_ex_iff)
  show ?thesis
  proof (cases "flt = topic")
    case True
    have "hd ?t \<in> set ?t" by simp
    with lit have "hd ?t \<notin> {''+'', ''#''}" by blast
    with True levels_match_refl [OF lit] show ?thesis by (simp add: filterMatches_def mqtt_matches_def)
  next
    case False
    have d: "hd ?f \<in> {''+'', ''#''} \<Longrightarrow> \<not> is_prefix ''$'' (hd ?f)" by (auto simp: is_prefix_def)
    have eq: "hd ?f = hd ?t \<Longrightarrow> is_prefix ''$'' flt = is_prefix ''$'' topic" by (metis is_prefix_dollar)
    from False d eq levels_match_hd [of ?f ?t] show ?thesis
      by (auto simp: filterMatches_def mqtt_matches_def match_levels_iff is_prefix_dollar)
  qed
qed

theorem filterMatches_mqtt_witness: "mqtt_matches ''a/+/c'' ''a/b/c'' \<and> \<not> mqtt_matches ''#'' ''$SYS/x''"
  using filterMatches_mqtt [of "''a/b/c''" "''a/+/c''"] filterMatches_mqtt [of "''$SYS/x''" "''#''"]
  by (simp add: hasWildcard_def filterMatches_def is_prefix_def)

text \<open>C21: An apply is all or nothing for the connector, and converges the broker. If subscribing and unsubscribing do to
  the session what MQTT says when they succeed, then an apply that is not reported as applied leaves the topic
  index as it was, and one that is applied without errors leaves the session with exactly the subscriptions a
  fresh connection with the new index would make, for any order of ranging over the maps.\<close>

theorem ApplySubscriptions_converges:
  assumes "\<forall>ks. mset (ord ks) = mset ks"
    and "\<forall>ss b b'. br_subscribe api ss b = (None, b') \<longrightarrow> held b' = subscribe_all ss (held b)"
    and "\<forall>ts b b'. br_unsubscribe api ts b = (None, b') \<longrightarrow> held b' = held b |` (- set ts)"
    and "current = newTopicIndex ps static rv" "held b = session static current"
    and "ApplySubscriptions ord err api static req (current, Some b) = (reply, idx, Some b')"
  shows "(\<not> ay_Applied reply \<longrightarrow> idx = current) \<and>
    (ay_Applied reply \<and> ay_Errors reply = [] \<longrightarrow> ti_revision idx = ar_Revision req \<and> held b' = session static idx)"
  using assms(6)
proof (cases rule: ApplySubscriptions_cases)
  case (applied b0 b1 b2 uerr)
  have h1: "held b1 = subscribe_all (fst (apply_plan ord static req current)) (held b)"
    using applied(1,6) assms(2) by (auto split: if_splits)
  have "held b2 = held b1 |` (- set (snd (apply_plan ord static req current)))" if "uerr = None"
    using applied(7) assms(3) that by (auto split: if_splits)
  with session_applied [OF assms(1,4,5) h1 refl] have "uerr = None \<Longrightarrow> held b2 = session static idx" by (simp add: applied(5))
  moreover have "ay_Errors reply = [] \<Longrightarrow> uerr = None" using applied(8) by (cases uerr) auto
  ultimately show ?thesis using applied(2,3,5) by (auto simp: apply_next_def newTopicIndex_def Let_def)
qed simp

definition map_broker :: "(string \<rightharpoonup> SubscribeOptions) broker_api" where
  "map_broker = \<lparr>br_subscribe = (\<lambda>ss b. (None, subscribe_all ss b)), br_unsubscribe = (\<lambda>ts b. (None, b |` (- set ts)))\<rparr>"

definition sample_spec :: "string \<Rightarrow> SubscriptionSpec" where
  "sample_spec t = \<lparr>sp_Topic = t, sp_QoS = 1, sp_Writable = False, sp_CommandTopic = [], sp_CommandQoS = 0, sp_DeviceRef = [],
     sp_Unit = [], sp_PayloadTemplate = []\<rparr>"

theorem ApplySubscriptions_converges_witness:
  "\<exists>reply idx b. ApplySubscriptions id (\<lambda>_. []) map_broker [] \<lparr>ar_Revision = ''r1'', ar_Points = [sample_spec ''a/b'']\<rparr>
      (newTopicIndex [] [] [], Some (session [] (newTopicIndex [] [] []))) = (reply, idx, Some b)
    \<and> ay_Applied reply \<and> ti_revision idx = ''r1'' \<and> b = session [] idx"
proof -
  let ?c = "newTopicIndex [] [] []" and ?q = "\<lparr>ar_Revision = ''r1'', ar_Points = [sample_spec ''a/b'']\<rparr>"
  let ?r = "ApplySubscriptions id (\<lambda>_. []) map_broker [] ?q (?c, Some (session [] ?c))"
  have ok: "ay_Applied (fst ?r) \<and> ay_Errors (fst ?r) = [] \<and> (\<exists>b. snd (snd ?r) = Some b)"
    by (simp add: ApplySubscriptions_def map_broker_def sample_spec_def pointConfigFromSpec_def ValidatePoints_def pointConfigsOf_def
        map_filter_def planSubscriptions_def newTopicIndex_def point_covered_def coveredByWildcard_def hasWildcard_def
        subscribeOptionsFor_def Let_def)
  then obtain b where b: "snd (snd ?r) = Some b" by blast
  have "?r = (fst ?r, fst (snd ?r), Some b)" using b by (simp add: prod_eq_iff)
  from ApplySubscriptions_converges [of id map_broker id, OF _ _ _ refl _ this] ok b show ?thesis
    by (intro exI [of _ "fst ?r"] exI [of _ "fst (snd ?r)"] exI [of _ b]) (simp add: map_broker_def prod_eq_iff)
qed

text \<open>C24: Synchronisation reaches a fixed point. After an apply of the Point List that the connector reports as
  applied, a preview against the same Point List shows nothing to add, change or remove, and the
  current revision is the target revision.\<close>

theorem Apply_then_Preview_empty:
  assumes "\<forall>ks. mset (ord ks) = mset ks"
    and "Apply sha (connector_bus ord err api static c) cfg es c n = (Inr reply, n')" "ay_Applied reply"
  shows "\<exists>d. Preview sha (connector_bus ord err api static c) cfg es c n' = (Inr d, n')
    \<and> df_Added d = [] \<and> df_Changed d = [] \<and> df_Removed d = [] \<and> df_CurrentRevision d = df_TargetRevision d"
proof -
  obtain current ob where n: "n = (current, ob)" by (cases n)
  obtain idx ob' where n': "n' = (idx, ob')" by (cases n')
  let ?des = "client_desired cfg es c"
  let ?q = "\<lparr>ar_Revision = revisionOf sha ?des, ar_Points = ?des\<rparr>"
  from Apply_connector [OF assms(2), unfolded n n'] have idx: "idx = apply_next ord static ?q"
    using assms(3) by (cases rule: ApplySubscriptions_cases) auto
  have pts: "map_of (ti_points idx) = map_of (index_points (map pointConfigFromSpec ?des) [])"
    by (simp add: idx apply_next_def apply_desired_def pointConfigsOf_lookup [OF assms(1)])
  have "map_of (by_topic (sr_Subscriptions (SubscriptionStatus ord idx)) []) t = map_of (by_topic ?des []) t" for t
  proof -
    have "map_of (by_topic (sr_Subscriptions (SubscriptionStatus ord idx)) []) t = map_option spec_of_point (map_of (ti_points idx) t)"
      using status_lookup [OF assms(1)] by (simp add: SubscriptionStatus_def idx apply_next_def)
    also have "\<dots> = map_option (\<lambda>s. spec_of_point (pointConfigFromSpec s)) (last_such (\<lambda>s. sp_Topic s = t) ?des)"
      unfolding pts index_points_lookup
      by (simp add: last_such_map pointConfigFromSpec_def option.map_comp comp_def split: option.splits)
    also have "\<dots> = last_such (\<lambda>s. sp_Topic s = t) ?des"
    proof (cases "last_such (\<lambda>s. sp_Topic s = t) ?des")
      case (Some s)
      with desired_roundtrip [of s cfg es c] last_such_SomeD [OF Some] show ?thesis by simp
    qed simp
    also have "\<dots> = map_of (by_topic ?des []) t" by (simp add: by_topic_lookup split: option.splits)
    finally show ?thesis .
  qed
  then have "map_of (by_topic (sr_Subscriptions (SubscriptionStatus ord idx)) []) = map_of (by_topic ?des [])" ..
  note e = computeDiff_empty [OF this]
  have r: "sr_AppliedRevision (SubscriptionStatus ord idx) = revisionOf sha ?des"
    by (simp add: SubscriptionStatus_def idx apply_next_def newTopicIndex_def Let_def)
  show ?thesis by (simp add: Preview_def client_status_def connector_bus_def bus_result_def n' e r Let_def)
qed

theorem Apply_then_Preview_empty_witness:
  "\<exists>reply n' d. Apply (\<lambda>_. ''h'') (connector_bus id (\<lambda>_. []) map_broker [] ''c1'')
       \<lparr>DefaultSubscribeQoS = [], DefaultCommandQoS = [], sync_Timeout = 1\<rparr>
       [(sample_entry ''c1'' ''a/b'' ''p1'')\<lparr>Protocol := ''mqtt''\<rparr>] ''c1'' (newTopicIndex [] [] [], Some Map.empty) = (Inr reply, n')
     \<and> ay_Added reply = [''a/b'']
     \<and> Preview (\<lambda>_. ''h'') (connector_bus id (\<lambda>_. []) map_broker [] ''c1'')
       \<lparr>DefaultSubscribeQoS = [], DefaultCommandQoS = [], sync_Timeout = 1\<rparr>
       [(sample_entry ''c1'' ''a/b'' ''p1'')\<lparr>Protocol := ''mqtt''\<rparr>] ''c1'' n' = (Inr d, n') \<and> df_Added d = []"
proof -
  let ?bus = "connector_bus id (\<lambda>_. []) map_broker [] ''c1''" and ?cfg = "\<lparr>DefaultSubscribeQoS = [], DefaultCommandQoS = [], sync_Timeout = 1\<rparr>"
  let ?es = "[(sample_entry ''c1'' ''a/b'' ''p1'')\<lparr>Protocol := ''mqtt''\<rparr>]"
  let ?r = "Apply (\<lambda>_. ''h'') ?bus ?cfg ?es ''c1'' (newTopicIndex [] [] [], Some Map.empty)"
  have "\<exists>reply. fst ?r = Inr reply \<and> ay_Applied reply \<and> ay_Added reply = [''a/b'']"
    by (simp add: Apply_def connector_bus_def bus_result_def client_desired_def Derive_def derive_spec_def derived_def default_qos_def
        sample_entry_def zero_Entry_def ApplySubscriptions_def map_broker_def pointConfigFromSpec_def ValidatePoints_def pointConfigsOf_def
        map_filter_def planSubscriptions_def newTopicIndex_def point_covered_def coveredByWildcard_def hasWildcard_def
        subscribeOptionsFor_def Let_def)
  then obtain reply where reply: "fst ?r = Inr reply" "ay_Applied reply" "ay_Added reply = [''a/b'']" by blast
  then have "?r = (Inr reply, snd ?r)" by (simp add: prod_eq_iff)
  with Apply_then_Preview_empty [OF _ this reply(2)] obtain d where
    "?r = (Inr reply, snd ?r)" "Preview (\<lambda>_. ''h'') ?bus ?cfg ?es ''c1'' (snd ?r) = (Inr d, snd ?r)" "df_Added d = []" by auto
  with reply(3) show ?thesis by blast
qed

text \<open>C35: Every exactly configured point is delivered. If no wildcard point is itself taken to be covered by a static
  filter, then for each point with a concrete topic the connector asks the broker for a filter that matches it.\<close>

theorem exact_points_delivered:
  assumes "\<forall>w \<in> set ps. hasWildcard (pt_Topic w) \<longrightarrow> \<not> coveredByWildcard (pt_Topic w) static"
    and "p \<in> set ps" "\<not> hasWildcard (pt_Topic p)" "\<forall>ks. mset (ord ks) = mset ks"
  shows "list_ex (\<lambda>s. filterMatches (so_Topic s) (pt_Topic p)) (brokerSubscriptions ord static (newTopicIndex ps static rv))"
proof -
  let ?idx = "newTopicIndex ps static rv"
  have sub: "\<exists>s \<in> set (brokerSubscriptions ord static ?idx). so_Topic s = t" if "explicit ?idx t \<noteq> None" for t
  proof -
    from that obtain s where s: "explicit ?idx t = Some s" by blast
    then have "t \<in> set (ord (map fst (ti_explicitSubs ?idx)))"
      using ord_set [OF assms(4), of "map fst (ti_explicitSubs ?idx)"] by (auto dest: map_of_SomeD intro: rev_image_eqI)
    with s explicit_SomeD [OF s] show ?thesis by (auto simp: brokerSubscriptions_def set_map_filter)
  qed
  have point: "explicit ?idx (pt_Topic q) \<noteq> None"
    if "q \<in> set ps" "\<not> point_covered (filter (\<lambda>p. hasWildcard (pt_Topic p)) ps) static q" for q
  proof -
    have "last_such (\<lambda>p. pt_Topic p = pt_Topic q) ps \<noteq> None" using that(1) by (auto simp: last_such_None)
    then obtain q' where "last_such (\<lambda>p. pt_Topic p = pt_Topic q) ps = Some q'" by blast
    with last_such_SomeD [OF this] that(2) show ?thesis
      by (simp add: explicitSubs_lookup index_points_lookup point_covered_def)
  qed
  consider "coveredByWildcard (pt_Topic p) static" | w where "w \<in> set ps" "hasWildcard (pt_Topic w)" "filterMatches (pt_Topic w) (pt_Topic p)"
    | "\<not> point_covered (filter (\<lambda>p. hasWildcard (pt_Topic p)) ps) static p"
    by (auto simp: point_covered_def list_ex_iff)
  then show ?thesis
  proof cases
    case 1
    then obtain w where w: "w \<in> set static" "filterMatches (sc_Filter w) (pt_Topic p)" by (auto simp: coveredByWildcard_def list_ex_iff)
    then have "\<lparr>so_Topic = sc_Filter w, so_QoS = sc_QoS w, so_NoLocal = False\<rparr> \<in> set (brokerSubscriptions ord static ?idx)"
      by (simp add: brokerSubscriptions_def)
    with w(2) show ?thesis unfolding list_ex_iff by (intro bexI) simp_all
  next
    case (2 w)
    with assms(1) have "explicit ?idx (pt_Topic w) \<noteq> None" by (intro point) (auto simp: point_covered_def)
    from sub [OF this] 2(3) show ?thesis unfolding list_ex_iff by metis
  next
    case 3
    with assms(2) have "explicit ?idx (pt_Topic p) \<noteq> None" by (intro point)
    from sub [OF this] show ?thesis unfolding list_ex_iff filterMatches_def by metis
  qed
qed

theorem exact_points_delivered_witness:
  "list_ex (\<lambda>s. filterMatches (so_Topic s) ''a/b'')
     (brokerSubscriptions id [] (newTopicIndex [pointConfigFromSpec (sample_spec ''a/b''), pointConfigFromSpec (sample_spec ''a/#'')] [] []))"
  using exact_points_delivered [of "[pointConfigFromSpec (sample_spec ''a/b''), pointConfigFromSpec (sample_spec ''a/#'')]" "[]"
      "pointConfigFromSpec (sample_spec ''a/b'')" id "[]"]
  by (simp add: pointConfigFromSpec_def sample_spec_def coveredByWildcard_def hasWildcard_def)

text \<open>The hypothesis is needed: a static filter is compared with a wildcard point as if the point's filter were a topic, so
  the filter \<open>a/+\<close> is taken to cover the point \<open>a/#\<close>, which in turn covers the point \<open>a/b/c\<close>; neither is subscribed.\<close>

lemma wildcard_cover_loses_point:
  "let static = [\<lparr>sc_Filter = ''a/+'', sc_QoS = 1\<rparr>];
       idx = newTopicIndex [pointConfigFromSpec (sample_spec ''a/#''), pointConfigFromSpec (sample_spec ''a/b/c'')] static []
   in map fst (ti_points idx) = [''a/#'', ''a/b/c'']
      \<and> map so_Topic (brokerSubscriptions id static idx) = [''a/+''] \<and> \<not> filterMatches ''a/+'' ''a/b/c''"
  by (simp add: newTopicIndex_def pointConfigFromSpec_def sample_spec_def point_covered_def coveredByWildcard_def hasWildcard_def
      filterMatches_def is_prefix_def brokerSubscriptions_def map_filter_def)

text \<open>A writable point whose command topic is its own topic is subscribed with No Local, unless a wildcard covers it.\<close>

lemma explicit_no_local:
  assumes "explicit (newTopicIndex ps static rv) t = Some s"
  shows "\<exists>p \<in> set ps. pt_Topic p = t \<and> so_NoLocal s = (pt_Writable p \<and> pt_CommandTopic p = t)"
proof -
  from explicit_SomeD [OF assms] obtain p where p: "map_of (index_points ps []) t = Some p" "s = subscribeOptionsFor p" by blast
  with index_points_topic [OF p(1)] show ?thesis by (intro bexI [of _ p]) (simp_all add: subscribeOptionsFor_def)
qed

end
