(* ===== verification/Store_Forward.thy ===== *)
theory Store_Forward
  imports Gateway_Prelude
begin

text \<open>
  The store-and-forward buffer (\<open>internal/storeforward/buffer.go\<close>): a bounded ring of telemetry
  frames kept in SQLite between the Normalizer and the uplink. The two tables are the fields of
  \<open>db\<close>; every SQL statement of the source is a definition over them, written as the statement is
  (\<open>ORDER BY\<close> as a sort, \<open>IN\<close> as a membership filter), and the facts the Go comments rely on
  (rows stay in insertion order, acked rows are a prefix) are lemmas. The protobuf codec, which is
  a third-party package, is the parameter \<open>codec\<close>; an I/O failure of SQLite at a given statement
  is the parameter \<open>ok\<close>, so every early return of the source is a branch of the model.
\<close>

section \<open>Frames, rows and the database\<close>

datatype fvalue = ValueNum f64 | ValueStr string | ValueBool bool

record TelemetryFrame =
  GatewayId :: string
  PointId :: string
  FrameValue :: "fvalue option"
  Timestamp :: string
  Attributes :: "string gomap"

definition GetValueNum :: "TelemetryFrame \<Rightarrow> f64" where
  "GetValueNum f = (case FrameValue f of Some (ValueNum x) \<Rightarrow> x | _ \<Rightarrow> 0)"

record StoredFrame =
  Seq :: int
  Frame :: TelemetryFrame

record row =
  row_seq :: int
  row_gateway_id :: string
  row_point_id :: string
  row_value :: f64
  row_timestamp :: string
  row_attributes :: "string option"
  row_frame :: string

record db =
  has_tables :: bool
  has_attributes :: bool
  has_frame :: bool
  user_version :: int
  frames :: "row list"
  last_seq :: int
  cursor_row :: "int option"

record codec =
  marshal :: "TelemetryFrame \<Rightarrow> string option"
  unmarshal :: "string \<Rightarrow> TelemetryFrame option"
  encode_attrs :: "string gomap \<Rightarrow> string"
  decode_attrs :: "string \<Rightarrow> string gomap"

text \<open>The statements that can fail, and the errors the operations return.\<close>

datatype db_step =
    SqlOpen | Pragma nat | ReadVersion | MigrationStep nat | StampVersion nat
  | Begin | Insert | Count | Delete | Commit | Query | Advance

datatype sf_error =
    CapacityNotPositive | NewerSchema int | MissingMigrationStep | IndexPanic
  | MarshalFailed | UnmarshalFailed | DbFailed db_step

record Buffer =
  buf_db :: db
  capacity :: int
  drifts :: "int gomap"
  written :: int
  evictedSent :: int
  lostUnsent :: int
  writeErrors :: int
  duplicates :: int
  sent :: int
  accepted :: int
  checkpoints :: int
  sendErrors :: int
  driftTotal :: int
  lastCheckpointUnix :: int
  notify :: bool

section \<open>Opening and migrating\<close>

text \<open>
  \<open>PRAGMA user_version\<close> drives the migration list. Each step probes before it alters, so a rerun
  is a no-op; the stamp after it is a separate statement that can fail on its own.
\<close>

definition schemaVersion :: int where
  "schemaVersion = 3"

definition migration_0_1 :: "db \<Rightarrow> db option" where
  "migration_0_1 d = (if has_tables d then Some d
     else Some (d\<lparr>has_tables := True, frames := [], last_seq := 0, cursor_row := None\<rparr>))"

definition migration_1_2 :: "db \<Rightarrow> db option" where
  "migration_1_2 d = (if has_attributes d then Some d
     else if \<not> has_tables d then None
     else Some (d\<lparr>has_attributes := True, frames := map (row_attributes_update (\<lambda>_. None)) (frames d)\<rparr>))"

definition migration_2_3 :: "db \<Rightarrow> db option" where
  "migration_2_3 d = (if has_frame d then Some d
     else if \<not> has_tables d then None
     else Some (d\<lparr>has_frame := True, frames := map (row_frame_update (\<lambda>_. [])) (frames d)\<rparr>))"

definition migrations :: "(db \<Rightarrow> db option) list" where
  "migrations = [migration_0_1, migration_1_2, migration_2_3]"

function migrate_from :: "(db_step \<Rightarrow> bool) \<Rightarrow> int \<Rightarrow> db \<Rightarrow> sf_error option \<times> db" where
  "migrate_from ok v d =
     (if v < schemaVersion then
        if v < 0 then (Some IndexPanic, d)
        else case (if ok (MigrationStep (nat v)) then (migrations ! nat v) d else None) of
          None \<Rightarrow> (Some (DbFailed (MigrationStep (nat v))), d)
        | Some d1 \<Rightarrow>
          if \<not> ok (StampVersion (nat (v + 1))) then (Some (DbFailed (StampVersion (nat (v + 1)))), d1)
          else migrate_from ok (v + 1) (d1\<lparr>user_version := v + 1\<rparr>)
      else (None, d))"
  by pat_completeness auto
termination
  by (relation "measure (\<lambda>(ok, v, d). nat (schemaVersion - v))") (auto simp: schemaVersion_def)

declare migrate_from.simps [simp del]

definition migrate :: "(db_step \<Rightarrow> bool) \<Rightarrow> db \<Rightarrow> sf_error option \<times> db" where
  "migrate ok d =
     (if \<not> ok ReadVersion then (Some (DbFailed ReadVersion), d)
      else if user_version d > schemaVersion then (Some (NewerSchema (user_version d)), d)
      else if int (length migrations) < schemaVersion then (Some MissingMigrationStep, d)
      else migrate_from ok (user_version d) d)"

definition Open :: "(db_step \<Rightarrow> bool) \<Rightarrow> int \<Rightarrow> int \<Rightarrow> db \<Rightarrow> (sf_error + Buffer) \<times> db" where
  "Open ok now cap d =
     (if cap \<le> 0 then (Inl CapacityNotPositive, d)
      else if \<not> ok SqlOpen then (Inl (DbFailed SqlOpen), d)
      else if \<not> ok (Pragma 0) then (Inl (DbFailed (Pragma 0)), d)
      else if \<not> ok (Pragma 1) then (Inl (DbFailed (Pragma 1)), d)
      else if \<not> ok (Pragma 2) then (Inl (DbFailed (Pragma 2)), d)
      else case migrate ok d of
        (Some e, d') \<Rightarrow> (Inl e, d')
      | (None, d') \<Rightarrow>
          (Inr \<lparr>buf_db = d', capacity = cap, drifts = [], written = 0, evictedSent = 0,
                lostUnsent = 0, writeErrors = 0, duplicates = 0, sent = 0, accepted = 0,
                checkpoints = 0, sendErrors = 0, driftTotal = 0, lastCheckpointUnix = now,
                notify = False\<rparr>, d'))"

section \<open>Writing\<close>

text \<open>
  \<open>seq INTEGER PRIMARY KEY AUTOINCREMENT\<close>: the next row number is one above every number the
  table has ever used, and the insert fails once the largest 64-bit row number has been used.
\<close>

definition max_rowid :: int where
  "max_rowid = 2 ^ 63 - 1"

definition sql_insert :: "row \<Rightarrow> db \<Rightarrow> db option" where
  "sql_insert r d =
     (if last_seq d \<ge> max_rowid then None
      else Some (d\<lparr>frames := frames d @ [r\<lparr>row_seq := last_seq d + 1\<rparr>], last_seq := last_seq d + 1\<rparr>))"

definition cursor_or_0 :: "db \<Rightarrow> int" where
  "cursor_or_0 d = (case cursor_row d of None \<Rightarrow> 0 | Some c \<Rightarrow> c)"

definition sql_total :: "db \<Rightarrow> int" where
  "sql_total d = int (length (frames d))"

definition sql_acked :: "db \<Rightarrow> int" where
  "sql_acked d = int (length (filter (\<lambda>r. row_seq r \<le> cursor_or_0 d) (frames d)))"

definition sql_oldest :: "nat \<Rightarrow> db \<Rightarrow> int list" where
  "sql_oldest n d = take n (sort (map row_seq (frames d)))"

definition sql_drop_oldest :: "int \<Rightarrow> db \<Rightarrow> db" where
  "sql_drop_oldest cap d =
     (let victims = sql_oldest (nat (max 0 (sql_total d - cap))) d
      in d\<lparr>frames := filter (\<lambda>r. row_seq r \<notin> set victims) (frames d)\<rparr>)"

definition frame_row :: "codec \<Rightarrow> TelemetryFrame \<Rightarrow> string \<Rightarrow> row" where
  "frame_row cd f wire =
     \<lparr>row_seq = 0, row_gateway_id = GatewayId f, row_point_id = PointId f, row_value = GetValueNum f,
      row_timestamp = Timestamp f,
      row_attributes = (if Attributes f \<noteq> [] then Some (encode_attrs cd (Attributes f)) else None),
      row_frame = wire\<rparr>"

definition evict_split :: "int \<Rightarrow> int \<Rightarrow> int \<Rightarrow> int \<times> int" where
  "evict_split cap tot acked =
     (let victims = tot - cap in
      if victims > 0 then (let es = min victims acked in (es, victims - es)) else (0, 0))"

definition Write :: "codec \<Rightarrow> (db_step \<Rightarrow> bool) \<Rightarrow> TelemetryFrame \<Rightarrow> Buffer \<Rightarrow> sf_error option \<times> Buffer" where
  "Write cd ok f b =
     (case marshal cd f of
        None \<Rightarrow> (Some MarshalFailed, b)
      | Some wire \<Rightarrow>
        if \<not> ok Begin then (Some (DbFailed Begin), b)
        else case (if ok Insert then sql_insert (frame_row cd f wire) (buf_db b) else None) of
          None \<Rightarrow> (Some (DbFailed Insert), b)
        | Some d1 \<Rightarrow>
          if \<not> ok Count then (Some (DbFailed Count), b)
          else let (es, lu) = evict_split (capacity b) (sql_total d1) (sql_acked d1) in
            if \<not> ok Delete then (Some (DbFailed Delete), b)
            else if \<not> ok Commit then (Some (DbFailed Commit), b)
            else (None, b\<lparr>buf_db := sql_drop_oldest (capacity b) d1,
                          written := written b + 1,
                          evictedSent := evictedSent b + (if es > 0 then es else 0),
                          lostUnsent := lostUnsent b + (if lu > 0 then lu else 0),
                          notify := True\<rparr>))"

section \<open>Reading, the cursor and the counters\<close>

definition decode_row :: "codec \<Rightarrow> row \<Rightarrow> StoredFrame option" where
  "decode_row cd r =
     (if row_frame r \<noteq> [] then
        (case unmarshal cd (row_frame r) of
           None \<Rightarrow> None
         | Some f \<Rightarrow> Some \<lparr>Seq = row_seq r, Frame = f\<rparr>)
      else Some \<lparr>Seq = row_seq r,
                 Frame = \<lparr>GatewayId = row_gateway_id r, PointId = row_point_id r,
                          FrameValue = Some (ValueNum (row_value r)), Timestamp = row_timestamp r,
                          Attributes = (case row_attributes r of
                             None \<Rightarrow> []
                           | Some s \<Rightarrow> if s \<noteq> [] then decode_attrs cd s else [])\<rparr>\<rparr>)"

definition sql_select_after :: "int \<Rightarrow> int \<Rightarrow> db \<Rightarrow> row list" where
  "sql_select_after afterSeq limit d =
     (let rs = sort_key row_seq (filter (\<lambda>r. row_seq r > afterSeq) (frames d))
      in if limit < 0 then rs else take (nat limit) rs)"

fun decode_rows :: "codec \<Rightarrow> row list \<Rightarrow> StoredFrame list option" where
  "decode_rows cd [] = Some []"
| "decode_rows cd (r # rs) =
     (case decode_row cd r of
        None \<Rightarrow> None
      | Some sf \<Rightarrow> (case decode_rows cd rs of None \<Rightarrow> None | Some sfs \<Rightarrow> Some (sf # sfs)))"

definition ReadBatch :: "codec \<Rightarrow> (db_step \<Rightarrow> bool) \<Rightarrow> int \<Rightarrow> int \<Rightarrow> Buffer \<Rightarrow> sf_error + StoredFrame list" where
  "ReadBatch cd ok afterSeq limit b =
     (if \<not> ok Query then Inl (DbFailed Query)
      else case decode_rows cd (sql_select_after afterSeq limit (buf_db b)) of
        None \<Rightarrow> Inl UnmarshalFailed
      | Some sfs \<Rightarrow> Inr sfs)"

definition Advance_cursor :: "(db_step \<Rightarrow> bool) \<Rightarrow> int \<Rightarrow> Buffer \<Rightarrow> sf_error option \<times> Buffer" where
  "Advance_cursor ok s b =
     (if \<not> ok Advance then (Some (DbFailed Advance), b)
      else (None, b\<lparr>buf_db := (buf_db b)\<lparr>cursor_row := Some s\<rparr>\<rparr>))"

definition Cursor :: "(db_step \<Rightarrow> bool) \<Rightarrow> Buffer \<Rightarrow> int" where
  "Cursor ok b = (if ok Query then cursor_or_0 (buf_db b) else 0)"

definition Depth :: "(db_step \<Rightarrow> bool) \<Rightarrow> Buffer \<Rightarrow> int" where
  "Depth ok b = (if ok Query
     then int (length (filter (\<lambda>r. row_seq r > cursor_or_0 (buf_db b)) (frames (buf_db b)))) else 0)"

definition RecordSent :: "int \<Rightarrow> Buffer \<Rightarrow> Buffer" where
  "RecordSent n b = b\<lparr>sent := sent b + n\<rparr>"

definition RecordAccepted :: "int \<Rightarrow> Buffer \<Rightarrow> Buffer" where
  "RecordAccepted n b = b\<lparr>accepted := accepted b + n\<rparr>"

definition RecordCheckpoint :: "int \<Rightarrow> Buffer \<Rightarrow> Buffer" where
  "RecordCheckpoint now b = b\<lparr>checkpoints := checkpoints b + 1, lastCheckpointUnix := now\<rparr>"

definition RecordSendError :: "Buffer \<Rightarrow> Buffer" where
  "RecordSendError b = b\<lparr>sendErrors := sendErrors b + 1\<rparr>"

definition RecordWriteError :: "Buffer \<Rightarrow> Buffer" where
  "RecordWriteError b = b\<lparr>writeErrors := writeErrors b + 1\<rparr>"

definition RecordDuplicate :: "Buffer \<Rightarrow> Buffer" where
  "RecordDuplicate b = b\<lparr>duplicates := duplicates b + 1\<rparr>"

definition Dropped :: "Buffer \<Rightarrow> int" where
  "Dropped b = evictedSent b + lostUnsent b"

definition goadd :: "string \<Rightarrow> int \<Rightarrow> int gomap \<Rightarrow> int gomap" where
  "goadd k n m = AList.update k ((case map_of m k of None \<Rightarrow> 0 | Some v \<Rightarrow> v) + n) m"

definition RecordDrift :: "string \<Rightarrow> int \<Rightarrow> Buffer \<Rightarrow> Buffer" where
  "RecordDrift pid delta b = b\<lparr>drifts := goadd pid delta (drifts b), driftTotal := driftTotal b + delta\<rparr>"

section \<open>Acknowledgements\<close>

record SentFrame =
  SentSeq :: int
  SentPointID :: string

fun count_drifts :: "SentFrame list \<Rightarrow> int gomap \<Rightarrow> int gomap" where
  "count_drifts [] m = m"
| "count_drifts (sf # sfs) m = count_drifts sfs (goadd (SentPointID sf) 1 m)"

definition ApplyAck :: "SentFrame list \<Rightarrow> int \<Rightarrow> int \<times> int gomap" where
  "ApplyAck batch acc =
     (if batch = [] then (0, [])
      else let newCursor = SentSeq (last batch); lost = int64 (int (length batch) - acc) in
        if lost \<le> 0 then (newCursor, [])
        else let start = (if acc < 0 then 0 else acc) in
          (newCursor, count_drifts (drop (nat start) batch) []))"

section \<open>The database invariant\<close>

text \<open>
  Rows are stored in the order of their numbers, and every number is one the table has handed
  out. Every operation keeps it. The cursor stays at or below the newest row number as long as it
  is only advanced to rows that exist (\<open>cursor_inv\<close>).
\<close>

definition db_inv :: "db \<Rightarrow> bool" where
  "db_inv d \<longleftrightarrow> increasing_on row_seq (frames d)
     \<and> (\<forall>r \<in> set (frames d). 0 < row_seq r \<and> row_seq r \<le> last_seq d) \<and> 0 \<le> last_seq d"

definition cursor_inv :: "db \<Rightarrow> bool" where
  "cursor_inv d \<longleftrightarrow> 0 \<le> cursor_or_0 d \<and> cursor_or_0 d \<le> last_seq d"

definition buffer_inv :: "Buffer \<Rightarrow> bool" where
  "buffer_inv b \<longleftrightarrow> db_inv (buf_db b) \<and> 0 < capacity b"

lemma cursor_or_0_cong [simp]:
  "cursor_or_0 (d\<lparr>frames := fs\<rparr>) = cursor_or_0 d"
  "cursor_or_0 (d\<lparr>last_seq := n\<rparr>) = cursor_or_0 d"
  "cursor_or_0 (d\<lparr>cursor_row := Some s\<rparr>) = s"
  by (simp_all add: cursor_or_0_def)

lemma sql_insert_SomeD:
  assumes "sql_insert r d = Some d1"
  shows "frames d1 = frames d @ [r\<lparr>row_seq := last_seq d + 1\<rparr>]" "last_seq d1 = last_seq d + 1"
    "cursor_or_0 d1 = cursor_or_0 d" "cursor_row d1 = cursor_row d"
  using assms by (auto simp: sql_insert_def cursor_or_0_def split: if_splits)

lemma sql_insert_inv:
  assumes "db_inv d" "sql_insert r d = Some d1"
  shows "db_inv d1"
  using assms(1) sql_insert_SomeD [OF assms(2)]
  by (fastforce simp: db_inv_def sorted_wrt_append)

lemma sql_drop_oldest_frames:
  assumes "db_inv d"
  shows "frames (sql_drop_oldest cap d) = drop (nat (sql_total d - cap)) (frames d)"
proof -
  have inc: "increasing_on row_seq (frames d)" using assms by (simp add: db_inv_def)
  let ?n = "nat (max 0 (sql_total d - cap))"
  have "set (sql_oldest ?n d) = row_seq ` set (take ?n (frames d))"
    using inc by (simp add: sql_oldest_def take_map)
  then show ?thesis
    using filter_notin_take_keys [OF increasing_on_distinct [OF inc], of ?n]
    by (simp add: sql_drop_oldest_def max_def nat_eq_iff split: if_splits)
qed

lemma sql_drop_oldest_other [simp]:
  "last_seq (sql_drop_oldest cap d) = last_seq d"
  "cursor_row (sql_drop_oldest cap d) = cursor_row d"
  "cursor_or_0 (sql_drop_oldest cap d) = cursor_or_0 d"
  by (simp_all add: sql_drop_oldest_def Let_def)

lemma sql_drop_oldest_inv: "db_inv d \<Longrightarrow> db_inv (sql_drop_oldest cap d)"
  using sql_drop_oldest_frames [of d cap] by (auto simp: db_inv_def dest: in_set_dropD)

text \<open>
  The two counts of \<open>Write\<close> describe exactly the rows the delete removes: with \<open>n\<close> victims, the
  acked ones are the victims at or below the cursor and the lost ones those above it.
\<close>

lemma evict_split_exact:
  assumes "db_inv d" "0 \<le> cap"
  shows "evict_split cap (sql_total d) (sql_acked d)
       = (let vs = take (nat (sql_total d - cap)) (frames d) in
          (int (length (filter (\<lambda>r. row_seq r \<le> cursor_or_0 d) vs)),
           int (length (filter (\<lambda>r. cursor_or_0 d < row_seq r) vs))))"
proof (cases "sql_total d - cap > 0")
  case True
  have inc: "increasing_on row_seq (frames d)" using assms by (simp add: db_inv_def)
  let ?n = "nat (sql_total d - cap)"
  have n: "?n \<le> length (frames d)" using True assms(2) by (simp add: sql_total_def)
  show ?thesis
    using True n length_filter_le_take [OF inc n, of "cursor_or_0 d"]
    by (auto simp: evict_split_def Let_def sql_acked_def length_filter_gt_eq min_def)
qed (simp add: evict_split_def)

end
