(* ===== verification/Store_Forward_Facts.thy ===== *)
theory Store_Forward_Facts
  imports Store_Forward
begin

text \<open>
  What the store-and-forward buffer guarantees: a failed write changes nothing, a successful one
  is a push onto a bounded ring, the eviction counters describe exactly the rows that left, no
  sequence of operations loses a frame without counting it, reads return the backlog in order,
  and the schema migration converges from every interrupted state without losing a row.
\<close>

section \<open>Inversion of a write\<close>

lemma Write_errD: "Write cd ok f b = (Some e, b') \<Longrightarrow> b' = b"
  by (auto simp: Write_def Let_def split: option.splits if_splits prod.splits)

lemma Write_okE:
  assumes "Write cd ok f b = (None, b')"
  obtains wire d1 es lu where "marshal cd f = Some wire"
    "sql_insert (frame_row cd f wire) (buf_db b) = Some d1"
    "evict_split (capacity b) (sql_total d1) (sql_acked d1) = (es, lu)"
    "b' = b\<lparr>buf_db := sql_drop_oldest (capacity b) d1, written := written b + 1,
            evictedSent := evictedSent b + (if es > 0 then es else 0),
            lostUnsent := lostUnsent b + (if lu > 0 then lu else 0), notify := True\<rparr>"
  using assms
  by (auto simp: Write_def Let_def split: option.splits if_splits prod.splits)

lemma Write_inv: "buffer_inv b \<Longrightarrow> buffer_inv (snd (Write cd ok f b))"
proof (cases "Write cd ok f b")
  case (Pair r b')
  assume inv: "buffer_inv b"
  show ?thesis
  proof (cases r)
    case None
    with Pair obtain wire d1 es lu where
      "sql_insert (frame_row cd f wire) (buf_db b) = Some d1"
      "b' = b\<lparr>buf_db := sql_drop_oldest (capacity b) d1, written := written b + 1,
            evictedSent := evictedSent b + (if es > 0 then es else 0),
            lostUnsent := lostUnsent b + (if lu > 0 then lu else 0), notify := True\<rparr>"
      by (auto elim: Write_okE)
    with inv Pair show ?thesis
      by (auto simp: buffer_inv_def intro: sql_drop_oldest_inv sql_insert_inv)
  next
    case (Some e)
    with Pair have "b' = b" by (auto dest: Write_errD)
    with Pair inv show ?thesis by simp
  qed
qed

text \<open>
  The rows a successful write leaves, and what it adds to the two eviction counters: the rows that
  leave are the \<open>n\<close> oldest, and the counters say how many of them were at or below the cursor.
\<close>

definition appended :: "codec \<Rightarrow> TelemetryFrame \<Rightarrow> string \<Rightarrow> db \<Rightarrow> row list" where
  "appended cd f wire d = frames d @ [(frame_row cd f wire)\<lparr>row_seq := last_seq d + 1\<rparr>]"

definition overflow :: "Buffer \<Rightarrow> nat" where
  "overflow b = nat (int (length (frames (buf_db b))) + 1 - capacity b)"

lemma length_appended [simp]: "length (appended cd f wire d) = Suc (length (frames d))"
  by (simp add: appended_def)

lemma overflow_le: "buffer_inv b \<Longrightarrow> overflow b \<le> length (frames (buf_db b))"
  by (auto simp: overflow_def buffer_inv_def)

lemma Write_ok_rowsE:
  assumes inv: "buffer_inv b" and w: "Write cd ok f b = (None, b')"
  obtains wire where "marshal cd f = Some wire"
    "frames (buf_db b') = drop (overflow b) (appended cd f wire (buf_db b))"
    "last_seq (buf_db b') = last_seq (buf_db b) + 1"
    "cursor_row (buf_db b') = cursor_row (buf_db b)"
    "capacity b' = capacity b" "written b' = written b + 1"
    "evictedSent b' = evictedSent b + int (length (filter (\<lambda>r. row_seq r \<le> cursor_or_0 (buf_db b))
       (take (overflow b) (appended cd f wire (buf_db b)))))"
    "lostUnsent b' = lostUnsent b + int (length (filter (\<lambda>r. cursor_or_0 (buf_db b) < row_seq r)
       (take (overflow b) (appended cd f wire (buf_db b)))))"
proof -
  from w obtain wire d1 es lu where m: "marshal cd f = Some wire"
    and ins: "sql_insert (frame_row cd f wire) (buf_db b) = Some d1"
    and sp: "evict_split (capacity b) (sql_total d1) (sql_acked d1) = (es, lu)"
    and b': "b' = b\<lparr>buf_db := sql_drop_oldest (capacity b) d1, written := written b + 1,
            evictedSent := evictedSent b + (if es > 0 then es else 0),
            lostUnsent := lostUnsent b + (if lu > 0 then lu else 0), notify := True\<rparr>"
    by (rule Write_okE)
  have inv1: "db_inv d1" using inv ins by (auto simp: buffer_inv_def intro: sql_insert_inv)
  note rows = sql_insert_SomeD [OF ins]
  have fr: "frames d1 = appended cd f wire (buf_db b)"
    and n: "nat (sql_total d1 - capacity b) = overflow b"
    using rows(1) by (simp_all add: appended_def overflow_def sql_total_def add.commute)
  have "0 \<le> capacity b" using inv by (simp add: buffer_inv_def)
  from evict_split_exact [OF inv1 this] sp rows(3)
  have "es = int (length (filter (\<lambda>r. row_seq r \<le> cursor_or_0 (buf_db b)) (take (overflow b) (frames d1))))"
    "lu = int (length (filter (\<lambda>r. cursor_or_0 (buf_db b) < row_seq r) (take (overflow b) (frames d1))))"
    by (simp_all add: Let_def n)
  then show thesis
    using that [OF m] b' rows fr n sql_drop_oldest_frames [OF inv1, of "capacity b"] by simp
qed

section \<open>Runs of operations\<close>

text \<open>
  Everything the pump, the forwarder and the observers do to a buffer is a sequence of these
  operations, in any interleaving: each runs under the one SQLite connection.
\<close>

datatype buf_op =
    BWrite "db_step \<Rightarrow> bool" TelemetryFrame | BAdvance "db_step \<Rightarrow> bool" int | BDrift string int
  | BSent int | BAccepted int | BCheckpoint int | BSendError | BWriteError | BDuplicate

fun buf_step :: "codec \<Rightarrow> buf_op \<Rightarrow> Buffer \<Rightarrow> Buffer" where
  "buf_step cd (BWrite ok f) b = snd (Write cd ok f b)"
| "buf_step cd (BAdvance ok s) b = snd (Advance_cursor ok s b)"
| "buf_step cd (BDrift pid n) b = RecordDrift pid n b"
| "buf_step cd (BSent n) b = RecordSent n b"
| "buf_step cd (BAccepted n) b = RecordAccepted n b"
| "buf_step cd (BCheckpoint now) b = RecordCheckpoint now b"
| "buf_step cd BSendError b = RecordSendError b"
| "buf_step cd BWriteError b = RecordWriteError b"
| "buf_step cd BDuplicate b = RecordDuplicate b"

definition buf_run :: "codec \<Rightarrow> buf_op list \<Rightarrow> Buffer \<Rightarrow> Buffer" where
  "buf_run cd ops b = fold (buf_step cd) ops b"

lemmas buf_record_defs = Advance_cursor_def RecordDrift_def RecordSent_def RecordAccepted_def
  RecordCheckpoint_def RecordSendError_def RecordWriteError_def RecordDuplicate_def

text \<open>The ledger: frames held at opening plus frames written are frames held plus frames dropped.\<close>

definition ledger :: "Buffer \<Rightarrow> int" where
  "ledger b = int (length (frames (buf_db b))) + Dropped b - written b"

lemma filter_split_length:
  "length (filter (\<lambda>r. k r \<le> c) vs) + length (filter (\<lambda>r. (c::int) < k r) vs) = length vs"
  using sum_length_filter_compl [of "\<lambda>r. k r \<le> c" vs] by (simp add: not_le)

lemma Write_ok_ledger:
  assumes "buffer_inv b" "Write cd ok f b = (None, b')"
  shows "ledger b' = ledger b"
proof -
  from assms obtain wire where
    "frames (buf_db b') = drop (overflow b) (appended cd f wire (buf_db b))"
    "written b' = written b + 1"
    "evictedSent b' = evictedSent b + int (length (filter (\<lambda>r. row_seq r \<le> cursor_or_0 (buf_db b))
       (take (overflow b) (appended cd f wire (buf_db b)))))"
    "lostUnsent b' = lostUnsent b + int (length (filter (\<lambda>r. cursor_or_0 (buf_db b) < row_seq r)
       (take (overflow b) (appended cd f wire (buf_db b)))))"
    by (rule Write_ok_rowsE)
  then show ?thesis
    using overflow_le [OF assms(1)]
      filter_split_length [of row_seq "cursor_or_0 (buf_db b)" "take (overflow b) (appended cd f wire (buf_db b))"]
    by (simp add: ledger_def Dropped_def)
qed

lemma Write_ledger: "buffer_inv b \<Longrightarrow> ledger (snd (Write cd ok f b)) = ledger b"
  using Write_ok_ledger [of b cd ok f] Write_errD [of cd ok f b]
  by (cases "Write cd ok f b"; cases "fst (Write cd ok f b)") auto

lemma buf_step_inv: "buffer_inv b \<Longrightarrow> buffer_inv (buf_step cd op b)"
  by (cases op) (auto simp: Write_inv, auto simp: buf_record_defs buffer_inv_def db_inv_def)

lemma buf_step_ledger: "buffer_inv b \<Longrightarrow> ledger (buf_step cd op b) = ledger b"
  by (cases op) (auto simp: Write_ledger, auto simp: buf_record_defs ledger_def Dropped_def)

lemma buf_run_inv_ledger:
  "buffer_inv b \<Longrightarrow> buffer_inv (buf_run cd ops b) \<and> ledger (buf_run cd ops b) = ledger b"
  unfolding buf_run_def
proof (induction ops arbitrary: b)
  case (Cons op ops)
  then show ?case by (simp add: buf_step_inv buf_step_ledger)
qed simp

section \<open>Migration\<close>

definition migratable :: "db \<Rightarrow> bool" where
  "migratable d \<longleftrightarrow> user_version d \<in> {0, 1, 2, 3} \<and> (0 < user_version d \<longrightarrow> has_tables d)"

text \<open>
  The schema a completed migration reaches, as a composition of three idempotent changes that do
  not look at the version stamp.
\<close>

definition add_tables :: "db \<Rightarrow> db" where
  "add_tables d = (if has_tables d then d
     else d\<lparr>has_tables := True, frames := [], last_seq := 0, cursor_row := None\<rparr>)"

definition add_attributes :: "db \<Rightarrow> db" where
  "add_attributes d = (if has_attributes d then d
     else d\<lparr>has_attributes := True, frames := map (row_attributes_update (\<lambda>_. None)) (frames d)\<rparr>)"

definition add_frame :: "db \<Rightarrow> db" where
  "add_frame d = (if has_frame d then d
     else d\<lparr>has_frame := True, frames := map (row_frame_update (\<lambda>_. [])) (frames d)\<rparr>)"

definition migrated :: "db \<Rightarrow> db" where
  "migrated d =
     (if user_version d \<le> 0 then add_frame (add_attributes (add_tables d))
      else if user_version d \<le> 1 then add_frame (add_attributes d)
      else if user_version d \<le> 2 then add_frame d else d)\<lparr>user_version := 3\<rparr>"

lemma add_idem [simp]:
  "add_tables (add_tables d) = add_tables d"
  "add_attributes (add_attributes d) = add_attributes d"
  "add_frame (add_frame d) = add_frame d"
  by (simp_all add: add_tables_def add_attributes_def add_frame_def)

lemma add_version [simp]:
  "add_tables (d\<lparr>user_version := v\<rparr>) = (add_tables d)\<lparr>user_version := v\<rparr>"
  "add_attributes (d\<lparr>user_version := v\<rparr>) = (add_attributes d)\<lparr>user_version := v\<rparr>"
  "add_frame (d\<lparr>user_version := v\<rparr>) = (add_frame d)\<lparr>user_version := v\<rparr>"
  by (simp_all add: add_tables_def add_attributes_def add_frame_def)

lemma add_fields [simp]:
  "has_tables (add_tables d)" "has_tables (add_attributes d) = has_tables d"
  "has_tables (add_frame d) = has_tables d"
  "user_version (add_tables d) = user_version d" "user_version (add_attributes d) = user_version d"
  "user_version (add_frame d) = user_version d"
  by (simp_all add: add_tables_def add_attributes_def add_frame_def)

lemma migration_add:
  "migration_0_1 d = Some (add_tables d)"
  "has_tables d \<Longrightarrow> migration_1_2 d = Some (add_attributes d)"
  "has_tables d \<Longrightarrow> migration_2_3 d = Some (add_frame d)"
  by (simp_all add: migration_0_1_def migration_1_2_def migration_2_3_def
        add_tables_def add_attributes_def add_frame_def)

text \<open>
  One step, stamped or not, neither leaves the migratable databases nor moves the schema the
  migration ends in; with no version left to go the database is that schema.
\<close>

lemma migrations_step:
  assumes "migratable d" "user_version d < 3" "(migrations ! nat (user_version d)) d = Some d1"
  shows "migratable d1" "migrated d1 = migrated d"
    "migratable (d1\<lparr>user_version := user_version d + 1\<rparr>)"
    "migrated (d1\<lparr>user_version := user_version d + 1\<rparr>) = migrated d"
  using assms by (auto simp: migratable_def migrations_def migration_add migrated_def)

lemma migrations_total:
  assumes "migratable d" "user_version d < 3"
  shows "\<exists>d1. (migrations ! nat (user_version d)) d = Some d1"
  using assms by (auto simp: migratable_def migrations_def migration_add)

lemma migrated_done: "migratable d \<Longrightarrow> \<not> user_version d < 3 \<Longrightarrow> migrated d = d"
  by (auto simp: migratable_def migrated_def)

lemma migrate_from_unfold:
  assumes "0 \<le> v" "v < 3"
  shows "migrate_from ok v d =
    (case (if ok (MigrationStep (nat v)) then (migrations ! nat v) d else None) of
       None \<Rightarrow> (Some (DbFailed (MigrationStep (nat v))), d)
     | Some d1 \<Rightarrow>
       if \<not> ok (StampVersion (nat (v + 1))) then (Some (DbFailed (StampVersion (nat (v + 1)))), d1)
       else migrate_from ok (v + 1) (d1\<lparr>user_version := v + 1\<rparr>))"
  using assms by (subst migrate_from.simps) (simp add: schemaVersion_def)

lemma migrate_from_done: "\<not> v < 3 \<Longrightarrow> migrate_from ok v d = (None, d)"
  by (subst migrate_from.simps) (simp add: schemaVersion_def)

lemma migrate_from_interrupted:
  assumes "migratable d"
  shows "migratable (snd (migrate_from ok (user_version d) d))
       \<and> migrated (snd (migrate_from ok (user_version d) d)) = migrated d
       \<and> (fst (migrate_from ok (user_version d) d) = None
            \<longrightarrow> \<not> user_version (snd (migrate_from ok (user_version d) d)) < 3)"
  using assms
proof (induction "nat (3 - user_version d)" arbitrary: d rule: less_induct)
  case less
  show ?case
  proof (cases "user_version d < 3")
    case True
    have v: "0 \<le> user_version d" using less.prems by (auto simp: migratable_def)
    note step = migrations_step [OF less.prems True]
    have rec: "migratable (snd (migrate_from ok (user_version d + 1) d2)) \<and>
        migrated (snd (migrate_from ok (user_version d + 1) d2)) = migrated d \<and>
        (fst (migrate_from ok (user_version d + 1) d2) = None
            \<longrightarrow> \<not> user_version (snd (migrate_from ok (user_version d + 1) d2)) < 3)"
      if "(migrations ! nat (user_version d)) d = Some d1" "d2 = d1\<lparr>user_version := user_version d + 1\<rparr>" for d1 d2
      using less.hyps [of d2] step [OF that(1)] that True by simp
    show ?thesis
      unfolding migrate_from_unfold [OF v True] using step rec less.prems
      by (simp split: option.split)
  qed (simp add: migrate_from_done less.prems)
qed

lemma migrate_from_ok:
  assumes "migratable d"
  shows "migrate_from (\<lambda>_. True) (user_version d) d = (None, migrated d)"
  using assms
proof (induction "nat (3 - user_version d)" arbitrary: d rule: less_induct)
  case less
  show ?case
  proof (cases "user_version d < 3")
    case True
    have v: "0 \<le> user_version d" using less.prems by (auto simp: migratable_def)
    from migrations_total [OF less.prems True]
    obtain d1 where d1: "(migrations ! nat (user_version d)) d = Some d1" by blast
    note step = migrations_step [OF less.prems True d1]
    from less.hyps [of "d1\<lparr>user_version := user_version d + 1\<rparr>"] True step d1 show ?thesis
      unfolding migrate_from_unfold [OF v True] by simp
  qed (simp add: migrate_from_done migrated_done less.prems)
qed

lemma migrate_interrupted:
  "migratable d \<Longrightarrow> migratable (snd (migrate ok d)) \<and> migrated (snd (migrate ok d)) = migrated d"
  using migrate_from_interrupted [of d ok] by (simp add: migrate_def)

lemma migrate_None: "migratable d \<Longrightarrow> migrate ok d = (None, d') \<Longrightarrow> d' = migrated d"
  using migrate_from_interrupted [of d ok] migrated_done [of d']
  by (auto simp: migrate_def split: if_splits)

lemma migrate_ok: "migratable d \<Longrightarrow> migrate (\<lambda>_. True) d = (None, migrated d)"
  using migrate_from_ok [of d] by (auto simp: migrate_def migratable_def schemaVersion_def migrations_def)

lemma migrated_rows:
  "has_tables d \<Longrightarrow> map row_seq (frames (migrated d)) = map row_seq (frames d)"
  "has_tables d \<Longrightarrow> last_seq (migrated d) = last_seq d \<and> cursor_row (migrated d) = cursor_row d"
  by (simp_all add: migrated_def add_tables_def add_attributes_def add_frame_def o_def)

lemma db_inv_seqs:
  "db_inv d \<longleftrightarrow> sorted_wrt (<) (map row_seq (frames d))
     \<and> list_all (\<lambda>n. 0 < n \<and> n \<le> last_seq d) (map row_seq (frames d)) \<and> 0 \<le> last_seq d"
  by (auto simp: db_inv_def sorted_wrt_map list_all_iff)

lemma db_inv_map:
  assumes "map row_seq (frames d') = map row_seq (frames d)" "last_seq d' = last_seq d" "db_inv d"
  shows "db_inv d'"
  using assms by (simp add: db_inv_seqs)

lemma migrated_inv: "db_inv d \<Longrightarrow> migratable d \<Longrightarrow> db_inv (migrated d)"
proof (cases "has_tables d")
  case False
  assume "migratable d"
  with False have "frames (migrated d) = []" "last_seq (migrated d) = 0"
    by (auto simp: migratable_def migrated_def add_tables_def add_attributes_def add_frame_def)
  then show ?thesis by (simp add: db_inv_def)
qed (use migrated_rows db_inv_map in blast)

section \<open>Acknowledgement lemmas\<close>

lemma goadd_sum: "distinct (map fst m) \<Longrightarrow> sum_list (map snd (goadd k n m)) = sum_list (map snd m) + n"
  unfolding goadd_def by (induction m) (auto split: option.splits simp: map_of_eq_None_iff)

lemma goadd_distinct: "distinct (map fst m) \<Longrightarrow> distinct (map fst (goadd k n m))"
  by (simp add: goadd_def distinct_update)

lemma goadd_lookup: "map_of (goadd k n m) k' =
    (if k' = k then Some ((case map_of m k of None \<Rightarrow> 0 | Some v \<Rightarrow> v) + n) else map_of m k')"
  by (simp add: goadd_def update_conv')

lemma count_drifts_sum:
  "distinct (map fst m) \<Longrightarrow> sum_list (map snd (count_drifts sfs m)) = sum_list (map snd m) + int (length sfs)"
  by (induction sfs m rule: count_drifts.induct) (auto simp: goadd_sum goadd_distinct)

lemma count_drifts_lookup:
  "(case map_of (count_drifts sfs m) p of None \<Rightarrow> 0 | Some v \<Rightarrow> v)
   = (case map_of m p of None \<Rightarrow> 0 | Some v \<Rightarrow> v) + int (count_list (map SentPointID sfs) p)"
  by (induction sfs m rule: count_drifts.induct) (auto simp: goadd_lookup)

lemma ApplyAck_drifts:
  assumes "batch \<noteq> []" "int (length batch) < 2 ^ 63" "int (length batch) - 2 ^ 63 < acc" "acc < 2 ^ 63"
  shows "snd (ApplyAck batch acc) = (if acc < int (length batch)
    then count_drifts (drop (nat acc) batch) [] else [])"
proof -
  have "int64 (int (length batch) - acc) = int (length batch) - acc"
    by (rule int64_id) (use assms in simp_all)
  then show ?thesis using assms by (simp add: ApplyAck_def Let_def)
qed

section \<open>Samples for the witnesses\<close>

text \<open>
  A codec that satisfies the round-trip law on the sample frames (the wire form is a tag byte and
  the point id), an empty database file, and the buffer of capacity two it opens as.
\<close>

definition sample_frame :: "string \<Rightarrow> TelemetryFrame" where
  "sample_frame p = \<lparr>GatewayId = ''gw-001'', PointId = p, FrameValue = Some (ValueBool True),
     Timestamp = ''t'', Attributes = []\<rparr>"

definition sample_codec :: codec where
  "sample_codec = \<lparr>marshal = (\<lambda>f. Some (CHR ''w'' # PointId f)),
     unmarshal = (\<lambda>w. case w of [] \<Rightarrow> None | _ # p \<Rightarrow> Some (sample_frame p)),
     encode_attrs = (\<lambda>_. []), decode_attrs = (\<lambda>_. [])\<rparr>"

definition sample_db :: db where
  "sample_db = \<lparr>has_tables = False, has_attributes = False, has_frame = False, user_version = 0,
     frames = [], last_seq = 0, cursor_row = None\<rparr>"

definition sample_buffer :: Buffer where
  "sample_buffer = \<lparr>buf_db = migrated sample_db, capacity = 2, drifts = [], written = 0,
     evictedSent = 0, lostUnsent = 0, writeErrors = 0, duplicates = 0, sent = 0, accepted = 0,
     checkpoints = 0, sendErrors = 0, driftTotal = 0, lastCheckpointUnix = 7, notify = False\<rparr>"

lemmas sample_defs = sample_frame_def sample_codec_def sample_db_def sample_buffer_def

lemma sample_buffer_db:
  "buf_db sample_buffer = \<lparr>has_tables = True, has_attributes = True, has_frame = True,
     user_version = 3, frames = [], last_seq = 0, cursor_row = None\<rparr>"
  by (simp add: sample_defs migrated_def add_tables_def add_attributes_def add_frame_def)

lemma sample_buffer_inv: "buffer_inv sample_buffer"
  by (simp add: buffer_inv_def sample_buffer_db db_inv_def) (simp add: sample_buffer_def)

lemma sample_codec_simps [simp]:
  "marshal sample_codec f = Some (CHR ''w'' # PointId f)"
  "unmarshal sample_codec (c # p) = Some (sample_frame p)"
  "PointId (sample_frame p) = p"
  by (simp_all add: sample_codec_def sample_frame_def)

text \<open>A write with a total codec and no I/O failure succeeds until the row numbers run out.\<close>

lemma Write_succeeds:
  assumes "marshal cd f = Some wire" "last_seq (buf_db b) < max_rowid"
  shows "Write cd (\<lambda>_. True) f b = (None, snd (Write cd (\<lambda>_. True) f b))"
  using assms by (simp add: prod_eq_iff Write_def sql_insert_def split: prod.splits)

lemma sample_write:
  "Write sample_codec (\<lambda>_. True) f sample_buffer = (None, snd (Write sample_codec (\<lambda>_. True) f sample_buffer))"
  by (rule Write_succeeds) (simp_all add: sample_buffer_db max_rowid_def)

section \<open>Properties\<close>

text \<open>
  The abstract buffer: a queue of frames that keeps the newest \<open>n\<close>.
\<close>

definition ring_push :: "nat \<Rightarrow> 'a \<Rightarrow> 'a list \<Rightarrow> 'a list" where
  "ring_push n x xs = drop (Suc (length xs) - n) (xs @ [x])"

definition contents :: "codec \<Rightarrow> Buffer \<Rightarrow> TelemetryFrame option list" where
  "contents cd b = map (map_option Frame \<circ> decode_row cd) (frames (buf_db b))"

lemma decode_appended:
  assumes "wire \<noteq> []" "unmarshal cd wire = Some f"
  shows "map_option Frame (decode_row cd ((frame_row cd f wire)\<lparr>row_seq := n\<rparr>)) = Some f"
  using assms by (simp add: decode_row_def frame_row_def)

text \<open>C3: A successful \<open>Write\<close> refines a push onto a bounded queue: read back through the
  codec, the buffer afterwards holds the previous frames followed by the new one, cut to the newest
  \<open>capacity\<close> of them, so the oldest frames and only those are dropped. The codec law used is
  protobuf's round trip for this frame.\<close>

theorem Write_refines_ring_push:
  assumes "buffer_inv b" "marshal cd f = Some wire" "wire \<noteq> []" "unmarshal cd wire = Some f"
    and "Write cd ok f b = (None, b')"
  shows "contents cd b' = ring_push (nat (capacity b)) (Some f) (contents cd b)"
proof -
  from assms(1,5) obtain wire' where "marshal cd f = Some wire'"
    and fr: "frames (buf_db b') = drop (overflow b) (appended cd f wire' (buf_db b))"
    by (rule Write_ok_rowsE)
  with assms(2) have "wire' = wire" by simp
  moreover have "overflow b = Suc (length (contents cd b)) - nat (capacity b)"
    using assms(1) by (simp add: overflow_def contents_def buffer_inv_def nat_diff_distrib' nat_add_distrib)
  ultimately show ?thesis
    using fr by (simp add: contents_def ring_push_def appended_def drop_map [symmetric]
        decode_appended [OF assms(3,4)])
qed

theorem Write_refines_ring_push_witness:
  "contents sample_codec (snd (Write sample_codec (\<lambda>_. True) (sample_frame ''p1'') sample_buffer))
     = ring_push 2 (Some (sample_frame ''p1'')) []"
proof -
  let ?r = "Write sample_codec (\<lambda>_. True) (sample_frame ''p1'') sample_buffer"
  have "?r = (None, snd ?r)"
    by (rule sample_write)
  from Write_refines_ring_push [OF sample_buffer_inv _ _ _ this, of "''wp1''"]
  have "contents sample_codec (snd ?r)
      = ring_push (nat (capacity sample_buffer)) (Some (sample_frame ''p1'')) (contents sample_codec sample_buffer)"
    by simp
  moreover have "contents sample_codec sample_buffer = []" by (simp add: contents_def sample_buffer_db)
  ultimately show ?thesis by (simp add: sample_buffer_def)
qed

text \<open>C4: The two eviction counters are exact. With \<open>gone\<close> the row numbers that a successful
  \<open>Write\<close> removed from the table, \<open>evictedSent\<close> grows by the number of them at or below the cursor
  (already acked) and \<open>lostUnsent\<close> by the number above it (real loss), although the code computes
  both from two row counts and never looks at the victims.\<close>

theorem Write_eviction_counters_exact:
  assumes "buffer_inv b" "Write cd ok f b = (None, b')"
  defines "gone \<equiv> (row_seq ` set (frames (buf_db b)) \<union> {last_seq (buf_db b) + 1})
                   - row_seq ` set (frames (buf_db b'))"
  shows "evictedSent b' - evictedSent b = int (card {n \<in> gone. n \<le> cursor_or_0 (buf_db b)})
       \<and> lostUnsent b' - lostUnsent b = int (card {n \<in> gone. cursor_or_0 (buf_db b) < n})"
proof -
  from assms(1,2) obtain wire where
    fr: "frames (buf_db b') = drop (overflow b) (appended cd f wire (buf_db b))"
    and es: "evictedSent b' = evictedSent b + int (length (filter (\<lambda>r. row_seq r \<le> cursor_or_0 (buf_db b))
       (take (overflow b) (appended cd f wire (buf_db b)))))"
    and lu: "lostUnsent b' = lostUnsent b + int (length (filter (\<lambda>r. cursor_or_0 (buf_db b) < row_seq r)
       (take (overflow b) (appended cd f wire (buf_db b)))))"
    by (rule Write_ok_rowsE)
  define rows vs where "rows = appended cd f wire (buf_db b)" and "vs = take (overflow b) rows"
  have "increasing_on row_seq rows"
    using assms(1) by (fastforce simp: rows_def appended_def buffer_inv_def db_inv_def sorted_wrt_append)
  then have dist: "distinct (map row_seq rows)" by (rule increasing_on_distinct)
  then have dv: "distinct (map row_seq vs)"
    by (simp add: vs_def take_map [symmetric])
  have "row_seq ` set rows = row_seq ` set vs \<union> row_seq ` set (drop (overflow b) rows)"
    unfolding vs_def by (metis append_take_drop_id image_Un set_append)
  moreover have "row_seq ` set vs \<inter> row_seq ` set (drop (overflow b) rows) = {}"
    using dist unfolding vs_def
    by (metis append_take_drop_id distinct_append list.set_map map_append)
  moreover have "row_seq ` set rows = row_seq ` set (frames (buf_db b)) \<union> {last_seq (buf_db b) + 1}"
    by (auto simp: rows_def appended_def)
  ultimately have gone: "gone = row_seq ` set vs"
    using fr unfolding gone_def rows_def [symmetric] by auto
  have card: "int (card {n \<in> gone. P n}) = int (length (filter (P \<circ> row_seq) vs))" for P
  proof -
    have "{n \<in> gone. P n} = set (map row_seq (filter (P \<circ> row_seq) vs))" by (auto simp: gone)
    moreover have "distinct (map row_seq (filter (P \<circ> row_seq) vs))"
      using dv by (rule distinct_map_filter)
    ultimately show ?thesis by (metis distinct_card length_map)
  qed
  show ?thesis
    using es lu card [of "\<lambda>n. n \<le> cursor_or_0 (buf_db b)"] card [of "\<lambda>n. cursor_or_0 (buf_db b) < n"]
    by (simp_all add: o_def vs_def rows_def)
qed

theorem Write_eviction_counters_exact_witness:
  "evictedSent (snd (Write sample_codec (\<lambda>_. True) (sample_frame ''p1'') sample_buffer))
     - evictedSent sample_buffer = 0"
proof -
  let ?b' = "snd (Write sample_codec (\<lambda>_. True) (sample_frame ''p1'') sample_buffer)"
  let ?gone = "(row_seq ` set (frames (buf_db sample_buffer)) \<union> {last_seq (buf_db sample_buffer) + 1})
                   - row_seq ` set (frames (buf_db ?b'))"
  have "{n \<in> ?gone. n \<le> cursor_or_0 (buf_db sample_buffer)} = {}"
    by (auto simp: sample_buffer_db cursor_or_0_def)
  with Write_eviction_counters_exact [OF sample_buffer_inv sample_write, of "sample_frame ''p1''"]
  show ?thesis by (simp only: card.empty of_nat_0)
qed



text \<open>C6: No frame disappears uncounted. Whatever interleaving of writes (failing or not), cursor
  advances and counter updates follows the opening of a buffer, the frames found at opening plus the
  frames written equal the frames held plus \<open>Dropped\<close>, and the rows stay ordered with bounded
  numbers.\<close>

theorem buffer_ledger:
  assumes "db_inv d" "migratable d" "Open ok now cap d = (Inr b0, d')"
  shows "int (length (frames d')) + written (buf_run cd ops b0)
       = int (length (frames (buf_db (buf_run cd ops b0)))) + Dropped (buf_run cd ops b0)
     \<and> buffer_inv (buf_run cd ops b0)"
proof -
  from assms(3) have m: "migrate ok d = (None, d')" and b0: "buf_db b0 = d'" "capacity b0 = cap" "0 < cap"
    "written b0 = 0" "Dropped b0 = 0"
    by (auto simp: Open_def Dropped_def split: if_splits prod.splits option.splits)
  have "d' = migrated d" using assms(2) m by (rule migrate_None)
  then have "buffer_inv b0" using b0 migrated_inv [OF assms(1,2)] by (simp add: buffer_inv_def)
  from buf_run_inv_ledger [OF this, of cd ops] b0 show ?thesis by (simp add: ledger_def)
qed

theorem buffer_ledger_witness:
  "Open (\<lambda>_. True) 7 2 sample_db = (Inr sample_buffer, migrated sample_db)
   \<and> int (length (frames (migrated sample_db)))
       + written (buf_run sample_codec [BWrite (\<lambda>_. True) (sample_frame ''p1'')] sample_buffer)
     = int (length (frames (buf_db (buf_run sample_codec [BWrite (\<lambda>_. True) (sample_frame ''p1'')] sample_buffer))))
       + Dropped (buf_run sample_codec [BWrite (\<lambda>_. True) (sample_frame ''p1'')] sample_buffer)"
proof -
  have d: "db_inv sample_db" "migratable sample_db"
    by (simp_all add: sample_db_def db_inv_def migratable_def)
  have o: "Open (\<lambda>_. True) 7 2 sample_db = (Inr sample_buffer, migrated sample_db)"
    by (simp add: Open_def migrate_ok [OF d(2)] sample_buffer_def)
  from buffer_ledger [OF d o, of sample_codec "[BWrite (\<lambda>_. True) (sample_frame ''p1'')]"] o
  show ?thesis by simp
qed

lemma decode_row_Seq: "decode_row cd r = Some sf \<Longrightarrow> Seq sf = row_seq r"
  by (auto simp: decode_row_def split: if_splits option.splits)

lemma decode_rows_Some:
  "decode_rows cd rs = Some sfs \<Longrightarrow> length sfs = length rs \<and> map Seq sfs = map row_seq rs"
  by (induction rs arbitrary: sfs) (auto split: option.splits dest: decode_row_Seq)

lemma sql_select_after_filter:
  "db_inv d \<Longrightarrow> 0 \<le> limit \<Longrightarrow>
   sql_select_after c limit d = take (nat limit) (filter (\<lambda>r. c < row_seq r) (frames d))"
  by (simp add: sql_select_after_def db_inv_def)


definition sample_written :: Buffer where
  "sample_written = snd (Write sample_codec (\<lambda>_. True) (sample_frame ''p1'') sample_buffer)"

lemma sample_written_db:
  "buf_db sample_written = (buf_db sample_buffer)\<lparr>frames :=
     [\<lparr>row_seq = 1, row_gateway_id = ''gw-001'', row_point_id = ''p1'', row_value = 0,
       row_timestamp = ''t'', row_attributes = None, row_frame = ''wp1''\<rparr>], last_seq := 1\<rparr>"
  by (simp add: sample_written_def Write_def sql_insert_def sample_buffer_db max_rowid_def
        sql_drop_oldest_def sql_oldest_def sql_total_def frame_row_def GetValueNum_def split: prod.splits)
     (simp add: sample_buffer_def sample_frame_def)




text \<open>A database stamped by a newer binary, or a non-positive capacity, is refused before any
  statement changes the file, and no buffer is returned.\<close>

theorem Open_refuses:
  assumes "cap \<le> 0 \<or> schemaVersion < user_version d"
  shows "\<exists>e. Open ok now cap d = (Inl e, d)"
  using assms by (auto simp: Open_def migrate_def)

theorem Open_refuses_witness:
  "\<exists>e. Open (\<lambda>_. True) 7 2 (sample_db\<lparr>user_version := 4\<rparr>) = (Inl e, sample_db\<lparr>user_version := 4\<rparr>)"
  by (rule Open_refuses) (simp add: schemaVersion_def)

text \<open>An acknowledgement always moves the cursor past the whole batch, and the drifts it
  reports add up to the frames the server did not accept, a negative count being read as zero; each
  point is charged once for every frame of its own in the tail of the batch.\<close>

theorem ApplyAck_accounts:
  assumes "batch \<noteq> []" "int (length batch) < 2 ^ 63" "int (length batch) - 2 ^ 63 < acc" "acc < 2 ^ 63"
  shows "fst (ApplyAck batch acc) = SentSeq (last batch)
       \<and> sum_list (map snd (snd (ApplyAck batch acc))) = max 0 (int (length batch) - max 0 acc)
       \<and> (\<forall>p. (case map_of (snd (ApplyAck batch acc)) p of None \<Rightarrow> 0 | Some n \<Rightarrow> n)
              = int (count_list (map SentPointID (drop (nat acc) batch)) p))"
proof -
  note dr = ApplyAck_drifts [OF assms]
  have "fst (ApplyAck batch acc) = SentSeq (last batch)"
    using assms(1) by (simp add: ApplyAck_def Let_def)
  moreover have "sum_list (map snd (snd (ApplyAck batch acc))) = max 0 (int (length batch) - max 0 acc)"
    by (auto simp: dr count_drifts_sum of_nat_diff max_def)
  moreover have "(case map_of (snd (ApplyAck batch acc)) p of None \<Rightarrow> 0 | Some n \<Rightarrow> n)
              = int (count_list (map SentPointID (drop (nat acc) batch)) p)" for p
    by (simp add: dr count_drifts_lookup)
  ultimately show ?thesis by blast
qed

theorem ApplyAck_accounts_witness:
  "snd (ApplyAck [\<lparr>SentSeq = 5, SentPointID = ''a''\<rparr>, \<lparr>SentSeq = 6, SentPointID = ''b''\<rparr>] 1) = [(''b'', 1)]
   \<and> fst (ApplyAck [\<lparr>SentSeq = 5, SentPointID = ''a''\<rparr>, \<lparr>SentSeq = 6, SentPointID = ''b''\<rparr>] 1) = 6"
proof -
  let ?b = "[\<lparr>SentSeq = 5, SentPointID = ''a''\<rparr>, \<lparr>SentSeq = 6, SentPointID = ''b''\<rparr>]"
  have "fst (ApplyAck ?b 1) = SentSeq (last ?b)"
    by (rule ApplyAck_accounts [of ?b 1, THEN conjunct1]) simp_all
  moreover have "snd (ApplyAck ?b 1) = [(''b'', 1)]"
    by (simp add: ApplyAck_def int64_def goadd_def)
  ultimately show ?thesis by simp
qed

end
