(* ===== verification/Seq_Window.thy ===== *)
theory Seq_Window
  imports Gateway_Prelude
begin

text \<open>
  The sliding duplicate window of the pump (\<open>seqWindow\<close> in \<open>internal/storeforward/pump.go\<close>): a
  bitmap over 64-bit stream sequences, indexed by the sequence modulo the span. Everything is kept at
  the source's width; \<open>window_set\<close> is the set of sequences the bitmap stands for, and the lemmas show
  that \<open>contains\<close> is membership in it and \<open>add\<close> inserts and forgets what slides out.
\<close>

section \<open>The window\<close>

type_synonym u64 = "64 word"

record seqWindow =
  win_bits :: "u64 list"
  win_n :: u64
  win_base :: u64

text \<open>
  The rounding loop of \<open>newSeqWindow\<close>, on the values its \<open>uint64\<close> counter takes; it doubles below
  the requested size, so for sizes up to \<open>2^63\<close> the counter does not wrap.
\<close>

function window_span :: "nat \<Rightarrow> nat \<Rightarrow> nat" where
  "window_span n sz = (if 0 < n \<and> n < sz then window_span (2 * n) sz else n)"
  by pat_completeness auto
termination
  by (relation "measure (\<lambda>(n, sz). sz - n)") auto

declare window_span.simps [simp del]

definition newSeqWindow :: "nat \<Rightarrow> seqWindow" where
  "newSeqWindow sz =
     (let n = window_span 64 sz
      in \<lparr>win_bits = replicate (n div 64) 0, win_n = of_nat n, win_base = 0\<rparr>)"

definition test_bit64 :: "u64 list \<Rightarrow> u64 \<Rightarrow> bool" where
  "test_bit64 bits i \<longleftrightarrow> bits ! unat (drop_bit 6 i) AND push_bit (unat (i AND 63)) 1 \<noteq> 0"

definition set_bit64 :: "u64 list \<Rightarrow> u64 \<Rightarrow> u64 list" where
  "set_bit64 bits i = bits[unat (drop_bit 6 i) := bits ! unat (drop_bit 6 i) OR push_bit (unat (i AND 63)) 1]"

definition clear_bit64 :: "u64 list \<Rightarrow> u64 \<Rightarrow> u64 list" where
  "clear_bit64 bits i =
     bits[unat (drop_bit 6 i) := bits ! unat (drop_bit 6 i) AND NOT (push_bit (unat (i AND 63)) 1)]"

definition seqWindow_contains :: "seqWindow \<Rightarrow> u64 \<Rightarrow> bool" where
  "seqWindow_contains w s =
     (if s < win_base w \<or> s - win_base w \<ge> win_n w then False
      else test_bit64 (win_bits w) (s AND (win_n w - 1)))"

lemma unat_Suc_below:
  fixes s t :: u64
  assumes "s < t"
  shows "unat (s + 1) = Suc (unat s)"
proof -
  have "unat s < unat t" using assms by (simp add: word_less_nat_alt)
  moreover have "unat t < 2 ^ 64" using unsigned_less [of t] by simp
  ultimately have "(unat s + 1) mod 2 ^ 64 = unat s + 1" by (intro mod_less) linarith
  then show ?thesis by (simp add: unat_word_ariths)
qed

function clear_range :: "u64 \<Rightarrow> u64 \<Rightarrow> u64 \<Rightarrow> u64 list \<Rightarrow> u64 list" where
  "clear_range n s newBase bits =
     (if s < newBase then clear_range n (s + 1) newBase (clear_bit64 bits (s AND (n - 1))) else bits)"
  by pat_completeness auto
termination
  by (relation "measure (\<lambda>(n, s, newBase, bits). unat newBase - unat s)")
     (auto simp: unat_Suc_below word_less_nat_alt)

declare clear_range.simps [simp del]

definition seqWindow_slide :: "seqWindow \<Rightarrow> u64 \<Rightarrow> seqWindow" where
  "seqWindow_slide w newBase =
     (if newBase - win_base w \<ge> win_n w
      then w\<lparr>win_bits := replicate (length (win_bits w)) 0, win_base := newBase\<rparr>
      else w\<lparr>win_bits := clear_range (win_n w) (win_base w) newBase (win_bits w), win_base := newBase\<rparr>)"

definition seqWindow_add :: "seqWindow \<Rightarrow> u64 \<Rightarrow> seqWindow" where
  "seqWindow_add w s =
     (if s < win_base w then w
      else let w1 = (if s - win_base w \<ge> win_n w then seqWindow_slide w (s - win_n w + 1) else w)
        in w1\<lparr>win_bits := set_bit64 (win_bits w1) (s AND (win_n w1 - 1))\<rparr>)"

section \<open>Bits as a set of positions\<close>

definition getbit :: "u64 list \<Rightarrow> nat \<Rightarrow> bool" where
  "getbit bits p \<longleftrightarrow> p < 64 * length bits \<and> bit (bits ! (p div 64)) (p mod 64)"

lemma getbit_zeros: "\<not> getbit (replicate m 0) p"
  by (auto simp: getbit_def)

lemma unat_shift6: "unat (drop_bit 6 (i :: u64)) = unat i div 64"
  by (simp add: drop_bit_eq_div unat_div)

lemma unat_and_mask:
  assumes "k < 64"
  shows "unat ((i :: u64) AND (2 ^ k - 1)) = unat i mod 2 ^ k"
proof -
  have "i AND (2 ^ k - 1) = take_bit k i"
    using assms by (simp only: take_bit_eq_mask mask_eq_exp_minus_1)
  then have "unat (i AND (2 ^ k - 1)) = unat (take_bit k i)" by (simp only:)
  also have "\<dots> = take_bit k (unat i)" by (rule unsigned_take_bit_eq)
  finally show ?thesis by (simp only: take_bit_eq_mod)
qed

lemma unat_2p:
  assumes "k < 64"
  shows "unat ((2 :: u64) ^ k) = 2 ^ k"
proof -
  have "(2 :: nat) ^ k < 2 ^ 64" using assms by (rule power_strict_increasing) simp
  then show ?thesis using unat_of_nat [where 'a = 64, of "2 ^ k"] by simp
qed

lemma unat_and63: "unat ((i :: u64) AND 63) = unat i mod 64"
  using unat_and_mask [of 6 i] by simp

lemma bit_2p: "bit ((2 :: u64) ^ m) k \<longleftrightarrow> k = m \<and> m < 64"
  by (auto simp: bit_exp_iff)

lemma and_single_bit: "(x :: u64) AND 2 ^ m \<noteq> 0 \<longleftrightarrow> m < 64 \<and> bit x m"
proof -
  have "x AND 2 ^ m \<noteq> 0 \<longleftrightarrow> (\<exists>k. bit (x AND 2 ^ m) k)"
    by (metis bit_0_eq bit_eq_iff bot_apply bot_bool_def)
  also have "\<dots> \<longleftrightarrow> m < 64 \<and> bit x m"
    by (auto simp: bit_and_iff bit_2p)
  finally show ?thesis .
qed

lemma same_place: "(p :: nat) div 64 = q div 64 \<Longrightarrow> p mod 64 = q mod 64 \<Longrightarrow> p = q"
  by (metis div_mult_mod_eq)

lemma test_bit64_getbit:
  "unat i < 64 * length bits \<Longrightarrow> test_bit64 bits i \<longleftrightarrow> getbit bits (unat i)"
  by (simp add: test_bit64_def getbit_def unat_shift6 unat_and63 and_single_bit)

lemma set_bit64_getbit:
  assumes "unat i < 64 * length bits"
  shows "getbit (set_bit64 bits i) p \<longleftrightarrow> p = unat i \<or> getbit bits p"
    "length (set_bit64 bits i) = length bits"
  using assms
  by (auto simp: set_bit64_def getbit_def unat_shift6 unat_and63 nth_list_update bit_or_iff bit_2p
        dest: same_place)

lemma clear_bit64_getbit:
  assumes "unat i < 64 * length bits"
  shows "getbit (clear_bit64 bits i) p \<longleftrightarrow> p \<noteq> unat i \<and> getbit bits p"
    "length (clear_bit64 bits i) = length bits"
  using assms
  by (auto simp: clear_bit64_def getbit_def unat_shift6 unat_and63 nth_list_update bit_and_iff
        bit_not_iff bit_2p dest: same_place)

section \<open>The set a window stands for\<close>

definition win_inv :: "seqWindow \<Rightarrow> bool" where
  "win_inv w \<longleftrightarrow> (\<exists>k. 6 \<le> k \<and> k < 64 \<and> win_n w = 2 ^ k \<and> length (win_bits w) = 2 ^ (k - 6))
     \<and> unat (win_base w) + unat (win_n w) \<le> 2 ^ 64"

definition window_set :: "seqWindow \<Rightarrow> u64 set" where
  "window_set w = {s. win_base w \<le> s \<and> unat s < unat (win_base w) + unat (win_n w)
     \<and> getbit (win_bits w) (unat s mod unat (win_n w))}"

lemma win_invE:
  assumes "win_inv w"
  obtains k where "k < 64" "win_n w = 2 ^ k" "unat (win_n w) = 2 ^ k" "64 * length (win_bits w) = 2 ^ k"
    "unat (win_base w) + 2 ^ k \<le> 2 ^ 64"
proof -
  from assms obtain k where k: "6 \<le> k" "k < 64" "win_n w = 2 ^ k" "length (win_bits w) = 2 ^ (k - 6)"
    "unat (win_base w) + unat (win_n w) \<le> 2 ^ 64" by (auto simp: win_inv_def)
  moreover have "unat ((2 :: u64) ^ k) = 2 ^ k" using k(2) by (rule unat_2p)
  moreover have "64 * 2 ^ (k - 6) = (2 :: nat) ^ k"
    using k(1) power_add [of "2 :: nat" 6 "k - 6"] by simp
  ultimately show thesis using that by simp
qed

lemma getbit_bound: "getbit bits p \<Longrightarrow> p < 64 * length bits"
  by (simp add: getbit_def)

lemma index_bound:
  assumes "win_inv w"
  shows "unat (s AND (win_n w - 1)) = unat s mod unat (win_n w)"
    "unat s mod unat (win_n w) < 64 * length (win_bits w)"
  using assms by (auto elim!: win_invE simp: unat_and_mask)

lemma unat_sub_ge:
  fixes a b :: u64
  assumes "b \<le> a"
  shows "unat (a - b) = unat a - unat b"
  using assms by (rule unat_sub)

lemma seqWindow_contains_iff:
  assumes "win_inv w"
  shows "seqWindow_contains w s \<longleftrightarrow> s \<in> window_set w"
proof (cases "s < win_base w")
  case False
  then have le: "win_base w \<le> s" "unat (win_base w) \<le> unat s"
    by (simp_all add: not_less word_le_nat_alt)
  have "s - win_base w \<ge> win_n w \<longleftrightarrow> unat (win_base w) + unat (win_n w) \<le> unat s"
    using le by (auto simp: word_le_nat_alt unat_sub_ge)
  then show ?thesis
    using le index_bound [OF assms, of s]
    by (auto simp: seqWindow_contains_def window_set_def test_bit64_getbit)
qed (auto simp: seqWindow_contains_def window_set_def)

lemma clear_range_getbit:
  assumes "k < 64" "64 * length bits = 2 ^ k" "s \<le> t"
  shows "(getbit (clear_range (2 ^ k) s t bits) p \<longleftrightarrow>
           getbit bits p \<and> (\<forall>u. unat s \<le> u \<and> u < unat t \<longrightarrow> u mod 2 ^ k \<noteq> p))
       \<and> length (clear_range (2 ^ k) s t bits) = length bits"
  using assms
proof (induction "(2 :: u64) ^ k" s t bits rule: clear_range.induct)
  case (1 s t bits)
  show ?case
  proof (cases "s < t")
    case True
    have idx: "unat (s AND (2 ^ k - 1)) = unat s mod 2 ^ k" using "1.prems"(1) by (rule unat_and_mask)
    then have b: "unat (s AND (2 ^ k - 1)) < 64 * length bits" using "1.prems"(2) by simp
    note clr = clear_bit64_getbit [OF b] and suc = unat_Suc_below [OF True]
    have le: "s + 1 \<le> t" using True suc by (simp add: word_le_nat_alt word_less_nat_alt)
    have "(getbit (clear_range (2 ^ k) s t bits) p \<longleftrightarrow>
        (p \<noteq> unat s mod 2 ^ k \<and> getbit bits p) \<and> (\<forall>u. Suc (unat s) \<le> u \<and> u < unat t \<longrightarrow> u mod 2 ^ k \<noteq> p))
        \<and> length (clear_range (2 ^ k) s t bits) = length bits"
      using "1.hyps" [OF True] "1.prems" le clr idx suc
      by (simp add: clear_range.simps [of _ s t bits] True)
    moreover have "unat s < unat t" using True by (simp add: word_less_nat_alt)
    ultimately show ?thesis by (metis Suc_le_eq le_less order_refl)
  next
    case False
    with "1.prems" have "s = t" by simp
    then show ?thesis by (simp add: clear_range.simps [of _ t t bits])
  qed
qed

lemma mod_window_eq:
  fixes a b c N :: nat
  assumes "c \<le> a" "a < c + N" "c \<le> b" "b < c + N" "a mod N = b mod N"
  shows "a = b"
proof -
  have "x = y" if "y \<le> x" "c \<le> y" "x < c + N" "x mod N = y mod N" for x y
    using that mod_eq_dvd_iff_nat [of y x N] dvd_imp_le [of N "x - y"] by fastforce
  then show ?thesis using assms by (cases "b \<le> a") (metis, metis nat_le_linear)
qed

lemma win_inv_set_bit:
  "win_inv w \<Longrightarrow> win_inv (w\<lparr>win_bits := set_bit64 (win_bits w) i\<rparr>)"
  by (simp add: win_inv_def set_bit64_def)

lemma window_set_set_bit:
  assumes "win_inv w" "win_base w \<le> s" "unat s < unat (win_base w) + unat (win_n w)"
  shows "window_set (w\<lparr>win_bits := set_bit64 (win_bits w) (s AND (win_n w - 1))\<rparr>) = insert s (window_set w)"
proof -
  have "t = s" if "unat (win_base w) \<le> unat t" "unat t < unat (win_base w) + unat (win_n w)"
    "unat t mod unat (win_n w) = unat s mod unat (win_n w)" for t
    using mod_window_eq [of "unat (win_base w)" "unat t" "unat (win_n w)" "unat s"] that assms(2,3)
    by (simp add: word_le_nat_alt word_unat_eq_iff)
  then show ?thesis
    using assms(2,3) index_bound [OF assms(1), of s]
      set_bit64_getbit [of "s AND (win_n w - 1)" "win_bits w"]
    by (auto simp: window_set_def word_le_nat_alt)
qed

lemma slide_fields:
  "win_n (seqWindow_slide w nb) = win_n w" "win_base (seqWindow_slide w nb) = nb"
  by (simp_all add: seqWindow_slide_def)

lemma seqWindow_slide_set:
  assumes "win_inv w" "win_base w \<le> nb" "unat nb + unat (win_n w) \<le> 2 ^ 64"
  shows "win_inv (seqWindow_slide w nb)"
    and "window_set (seqWindow_slide w nb) = {s \<in> window_set w. nb \<le> s}"
proof -
  from assms(1) obtain k where k: "k < 64" "win_n w = 2 ^ k" "unat (win_n w) = 2 ^ k"
    "64 * length (win_bits w) = 2 ^ k" by (rule win_invE)
  note clr = clear_range_getbit [OF k(1,4) assms(2)]
  have len: "length (win_bits (seqWindow_slide w nb)) = length (win_bits w)"
    using clr by (simp add: seqWindow_slide_def k(2))
  note fields = slide_fields [of w nb]
  show "win_inv (seqWindow_slide w nb)"
    using assms(1,3) len fields by (auto simp: win_inv_def)
  let ?N = "2 ^ k :: nat"
  have le: "unat (win_base w) \<le> unat nb" using assms(2) by (simp add: word_le_nat_alt)
  show "window_set (seqWindow_slide w nb) = {s \<in> window_set w. nb \<le> s}"
  proof (cases "nb - win_base w \<ge> win_n w")
    case True
    then have far: "unat (win_base w) + ?N \<le> unat nb"
      using le k(3) by (simp add: word_le_nat_alt unat_sub_ge assms(2))
    have "window_set (seqWindow_slide w nb) = {}"
      using True by (simp add: window_set_def seqWindow_slide_def getbit_zeros)
    moreover have "{s \<in> window_set w. nb \<le> s} = {}"
      using far k(3) by (auto simp: window_set_def word_le_nat_alt)
    ultimately show ?thesis by simp
  next
    case False
    then have near: "unat nb < unat (win_base w) + ?N"
      using le k(3) by (simp add: word_le_nat_alt unat_sub_ge assms(2) not_le)
    have "s \<in> window_set (seqWindow_slide w nb) \<longleftrightarrow> s \<in> window_set w \<and> nb \<le> s" for s
    proof (cases "unat s < unat (win_base w) + ?N \<and> nb \<le> s")
      case True
      have "u mod ?N \<noteq> unat s mod ?N" if "unat (win_base w) \<le> u" "u < unat nb" for u
        using mod_window_eq [of "unat (win_base w)" u ?N "unat s"] that True near le
        by (auto simp: word_le_nat_alt)
      then show ?thesis
        using False True clr k near le
        by (auto simp: window_set_def seqWindow_slide_def word_le_nat_alt)
    next
      case out: False
      show ?thesis
      proof (cases "nb \<le> s \<and> unat s < unat nb + ?N")
        case True
        with out have "unat (win_base w) \<le> unat s - ?N" "unat s - ?N < unat nb"
          "(unat s - ?N) mod ?N = unat s mod ?N"
          by (auto simp: le_mod_geq)
        then show ?thesis
          using False clr k out by (auto simp: window_set_def seqWindow_slide_def)
      qed (use out k fields in \<open>auto simp: window_set_def\<close>)
    qed
    then show ?thesis by blast
  qed
qed

lemma seqWindow_add_set:
  assumes "win_inv w"
  shows "win_inv (seqWindow_add w s)"
    and "window_set (seqWindow_add w s) =
      (if s < win_base w then window_set w
       else insert s {t \<in> window_set w. win_base (seqWindow_add w s) \<le> t})"
    and "win_base (seqWindow_add w s) =
      (if win_base w \<le> s \<and> win_n w \<le> s - win_base w then s - win_n w + 1 else win_base w)"
    and "win_n (seqWindow_add w s) = win_n w"
proof -
  from assms obtain k where k: "k < 64" "win_n w = 2 ^ k" "unat (win_n w) = 2 ^ k"
    "64 * length (win_bits w) = 2 ^ k" "unat (win_base w) + 2 ^ k \<le> 2 ^ 64" by (rule win_invE)
  define nb where "nb = s - win_n w + 1"
  define w1 where "w1 = (if s - win_base w \<ge> win_n w then seqWindow_slide w nb else w)"
  have w1_set: "win_inv w1 \<and> win_n w1 = win_n w \<and>
      win_base w1 = (if s - win_base w \<ge> win_n w then nb else win_base w) \<and>
      unat (win_base w1) \<le> unat s \<and> unat s < unat (win_base w1) + 2 ^ k \<and>
      window_set w1 = {t \<in> window_set w. win_base w1 \<le> t}" if "win_base w \<le> s"
  proof (cases "s - win_base w \<ge> win_n w")
    case True
    have s64: "unat s < 2 ^ 64" using unsigned_less [of s] by simp
    have s: "unat (win_base w) + 2 ^ k \<le> unat s"
      using True that k(3) by (simp add: word_le_nat_alt unat_sub_ge)
    then have "win_n w \<le> s" by (simp add: word_le_nat_alt k(3))
    then have "unat (s - win_n w) = unat s - 2 ^ k" using k(3) by (simp add: unat_sub_ge)
    moreover have "s - win_n w < s"
      using calculation s zero_less_power [of "2 :: nat" k] by (simp only: word_less_nat_alt) linarith
    ultimately have nb: "unat nb = unat s - 2 ^ k + 1" unfolding nb_def by (simp add: unat_Suc_below)
    then have "win_base w \<le> nb" "unat nb + unat (win_n w) \<le> 2 ^ 64"
      using s k(3) s64 by (simp_all add: word_le_nat_alt)
    note slide = seqWindow_slide_set [OF assms this]
    have w1: "w1 = seqWindow_slide w nb" using True by (simp add: w1_def)
    have "unat nb \<le> unat s" "unat s < unat nb + 2 ^ k"
      using nb s zero_less_power [of "2 :: nat" k] by linarith+
    with slide True show ?thesis unfolding w1 by (simp only: slide_fields if_True simp_thms)
  next
    case False
    then have "unat s < unat (win_base w) + 2 ^ k"
      using that k(3) by (simp add: word_le_nat_alt unat_sub_ge not_le)
    with False that assms show ?thesis by (auto simp: w1_def window_set_def word_le_nat_alt)
  qed
  have add: "seqWindow_add w s = (if s < win_base w then w
      else w1\<lparr>win_bits := set_bit64 (win_bits w1) (s AND (win_n w1 - 1))\<rparr>)"
    by (simp add: seqWindow_add_def w1_def nb_def Let_def)
  show "win_base (seqWindow_add w s) =
      (if win_base w \<le> s \<and> win_n w \<le> s - win_base w then s - win_n w + 1 else win_base w)"
    "win_n (seqWindow_add w s) = win_n w"
    using w1_set by (auto simp: add nb_def not_le)
  show "win_inv (seqWindow_add w s)"
    using w1_set assms by (auto simp: add not_less intro!: win_inv_set_bit)
  show "window_set (seqWindow_add w s) = (if s < win_base w then window_set w
       else insert s {t \<in> window_set w. win_base (seqWindow_add w s) \<le> t})"
  proof (cases "s < win_base w")
    case False
    then have le: "win_base w \<le> s" by simp
    note i = w1_set [OF le]
    then have inv1: "win_inv w1" by blast
    from i have "unat (win_base w1) \<le> unat s" "unat s < unat (win_base w1) + 2 ^ k" "win_n w1 = win_n w"
      by blast+
    then have "win_base w1 \<le> s" "unat s < unat (win_base w1) + unat (win_n w1)"
      by (simp_all only: word_le_nat_alt k(3))
    from window_set_set_bit [OF inv1 this] i False show ?thesis by (simp add: add)
  qed (simp add: add)
qed

lemma seqWindow_add_base:
  assumes "win_inv w"
  shows "unat (win_base (seqWindow_add w s)) = max (unat (win_base w)) (unat s + 1 - unat (win_n w))"
proof (cases "win_base w \<le> s \<and> win_n w \<le> s - win_base w")
  case True
  from assms obtain k where k: "unat (win_n w) = 2 ^ k" by (rule win_invE)
  have s: "unat (win_base w) + unat (win_n w) \<le> unat s"
    using True by (auto simp: word_le_nat_alt unat_sub_ge)
  then have "win_n w \<le> s" by (simp add: word_le_nat_alt)
  then have d: "unat (s - win_n w) = unat s - unat (win_n w)" by (rule unat_sub_ge)
  have "0 < unat (win_n w)" using k by simp
  then have "s - win_n w < s" using s d by (simp only: word_less_nat_alt)
  then have "unat (s - win_n w + 1) = unat s - unat (win_n w) + 1"
    using d by (simp add: unat_Suc_below)
  then show ?thesis using True s seqWindow_add_set(3) [OF assms, of s] by simp
next
  case False
  have "unat s < unat (win_base w) + unat (win_n w)"
  proof (cases "win_base w \<le> s")
    case le: True
    with False have "unat (s - win_base w) < unat (win_n w)" by (simp add: word_le_nat_alt not_le)
    then show ?thesis using unat_sub_ge [OF le] by simp
  qed (simp add: word_le_nat_alt)
  then show ?thesis using False seqWindow_add_set(3) [OF assms, of s] by auto
qed

lemma window_span_pow2: "\<exists>k. 6 \<le> k \<and> window_span (2 ^ j) sz = 2 ^ k" if "6 \<le> j"
  using that
proof (induction "(2 :: nat) ^ j" sz arbitrary: j rule: window_span.induct)
  case (1 sz)
  show ?case
  proof (cases "2 ^ j < sz")
    case True
    with "1.hyps" [of "Suc j"] "1.prems" show ?thesis by (simp add: window_span.simps [of "2 ^ j"])
  next
    case False
    with "1.prems" show ?thesis by (auto simp: window_span.simps [of "2 ^ j"])
  qed
qed

lemma window_span_bounds:
  "0 < n \<Longrightarrow> sz \<le> window_span n sz \<and> (window_span n sz < 2 * sz \<or> window_span n sz = n)"
proof (induction n sz rule: window_span.induct)
  case (1 n sz)
  show ?case
  proof (cases "n < sz")
    case True
    with 1 show ?thesis by (auto simp: window_span.simps [of n sz])
  qed (auto simp: window_span.simps [of n sz])
qed

lemma newSeqWindow_inv:
  assumes "sz \<le> 2 ^ 62"
  shows "win_inv (newSeqWindow sz)" "window_set (newSeqWindow sz) = {}" "win_base (newSeqWindow sz) = 0"
    "sz \<le> unat (win_n (newSeqWindow sz))"
proof -
  obtain k where k: "6 \<le> k" "window_span 64 sz = 2 ^ k" using window_span_pow2 [of 6 sz] by auto
  have b: "sz \<le> window_span 64 sz" "window_span 64 sz < 2 * sz \<or> window_span 64 sz = 64"
    using window_span_bounds [of 64 sz] by auto
  then have lt: "(2 :: nat) ^ k < 2 ^ 64" using assms k(2) by auto
  then have k64: "k < 64" by (rule power_less_imp_less_exp [rotated]) simp
  have n: "unat (win_n (newSeqWindow sz)) = 2 ^ k"
    using unat_2p [OF k64] k(2) by (simp add: newSeqWindow_def)
  have "(2 :: nat) ^ k div 64 = 2 ^ (k - 6)"
    using k(1) power_diff [of "2 :: nat" 6 k] by simp
  then show "win_inv (newSeqWindow sz)"
    using k k64 n lt by (auto simp: win_inv_def newSeqWindow_def intro!: exI [of _ k])
  show "window_set (newSeqWindow sz) = {}" "win_base (newSeqWindow sz) = 0"
    by (simp_all add: newSeqWindow_def window_set_def getbit_zeros Let_def)
  show "sz \<le> unat (win_n (newSeqWindow sz))" using n b(1) k(2) by simp
qed

end
