(* ===== verification/Pump.thy ===== *)
theory Pump
  imports Store_Forward_Facts Seq_Window
begin

text \<open>
  The pump (\<open>internal/storeforward/pump.go\<close>): the single goroutine that takes normalized frames off
  the hand-off channel, writes each to the buffer and only then acknowledges its source message. Its
  duplicate memory is an interface (\<open>dedup_memory\<close>), whose laws are proved for \<open>seqWindow\<close>; the
  guarantees on redelivery are proved once inside it.
\<close>

section \<open>The duplicate memory as an interface\<close>

datatype pump_out = Written | Duplicate | WriteFailed

text \<open>
  What happens to a list of deliveries, each an idempotency key (\<^const>\<open>None\<close> when the source gave
  none) and whether its write succeeds.
\<close>

definition dedup_step :: "('w \<Rightarrow> 'k \<Rightarrow> bool) \<Rightarrow> ('w \<Rightarrow> 'k \<Rightarrow> 'w) \<Rightarrow> 'w \<Rightarrow> 'k option \<times> bool \<Rightarrow> pump_out \<times> 'w" where
  "dedup_step contains add w x =
     (if (case fst x of None \<Rightarrow> False | Some s \<Rightarrow> contains w s) then (Duplicate, w)
      else if \<not> snd x then (WriteFailed, w)
      else (Written, case fst x of None \<Rightarrow> w | Some s \<Rightarrow> add w s))"

fun dedup_outs :: "('w \<Rightarrow> 'k \<Rightarrow> bool) \<Rightarrow> ('w \<Rightarrow> 'k \<Rightarrow> 'w) \<Rightarrow> 'w \<Rightarrow> ('k option \<times> bool) list \<Rightarrow> pump_out list" where
  "dedup_outs contains add w [] = []"
| "dedup_outs contains add w (x # xs) =
     fst (dedup_step contains add w x) # dedup_outs contains add (snd (dedup_step contains add w x)) xs"

lemma dedup_outs_written:
  "i < length xs \<Longrightarrow> dedup_outs contains add w xs ! i = Written \<Longrightarrow> snd (xs ! i)"
proof (induction xs arbitrary: w i)
  case (Cons x xs)
  then show ?case
    by (cases i) (auto simp: dedup_step_def split: if_splits)
qed simp

text \<open>The keys a list of deliveries carries.\<close>

definition keyset :: "('k option \<times> bool) list \<Rightarrow> 'k set" where
  "keyset xs = {k. Some k \<in> fst ` set xs}"

lemma keyset_Cons: "keyset (x # xs) = {k. fst x = Some k} \<union> keyset xs"
  by (auto simp: keyset_def)

lemma keyset_nth: "i < length xs \<Longrightarrow> fst (xs ! i) = Some k \<Longrightarrow> k \<in> keyset xs"
  unfolding keyset_def by (metis (mono_tags, lifting) image_eqI mem_Collect_eq nth_mem)

lemma length_dedup_outs [simp]: "length (dedup_outs contains add w xs) = length xs"
  by (induction xs arbitrary: w) auto

locale dedup_memory =
  fixes contains :: "'w \<Rightarrow> 'k \<Rightarrow> bool"
    and add :: "'w \<Rightarrow> 'k \<Rightarrow> 'w"
    and invar :: "'w \<Rightarrow> bool"
    and mem :: "'w \<Rightarrow> 'k set"
    and pos :: "'k \<Rightarrow> nat"
    and floor :: "'w \<Rightarrow> nat"
    and span :: "'w \<Rightarrow> nat"
  assumes contains_mem: "invar w \<Longrightarrow> contains w k \<longleftrightarrow> k \<in> mem w"
    and invar_add: "invar w \<Longrightarrow> invar (add w k)"
    and mem_add: "invar w \<Longrightarrow> mem (add w k) =
      (if pos k < floor w then mem w else insert k {j \<in> mem w. floor (add w k) \<le> pos j})"
    and floor_add: "invar w \<Longrightarrow> floor (add w k) = max (floor w) (pos k + 1 - span w)"
    and span_add: "invar w \<Longrightarrow> span (add w k) = span w"
begin

lemma mem_add_subset: "invar w \<Longrightarrow> mem (add w k) \<subseteq> insert k (mem w)"
  by (auto simp: mem_add split: if_splits)

lemma step_cases:
  assumes "invar w"
  obtains (dup) s where "fst x = Some s" "s \<in> mem w" "dedup_step contains add w x = (Duplicate, w)"
  | (failed) "dedup_step contains add w x = (WriteFailed, w)"
  | (anon) "fst x = None" "dedup_step contains add w x = (Written, w)"
  | (fresh) s where "fst x = Some s" "s \<notin> mem w" "dedup_step contains add w x = (Written, add w s)"
  using assms that
  by (cases "fst x"; cases "snd x"; cases "the (fst x) \<in> mem w") (auto simp: dedup_step_def contains_mem)

lemma duplicate_was_written:
  assumes "invar w" "i < length xs" "dedup_outs contains add w xs ! i = Duplicate"
  shows "\<exists>s. fst (xs ! i) = Some s \<and>
     (s \<in> mem w \<or> (\<exists>j < i. fst (xs ! j) = Some s \<and> dedup_outs contains add w xs ! j = Written))"
  using assms
proof (induction xs arbitrary: w i)
  case (Cons x xs)
  obtain out w' where st: "dedup_step contains add w x = (out, w')" by fastforce
  show ?case
  proof (cases i)
    case 0
    then show ?thesis using Cons.prems by (cases rule: step_cases [OF Cons.prems(1), of x]) auto
  next
    case (Suc m)
    have inv': "invar w'" and mem': "mem w' \<subseteq> mem w \<union> {s. fst x = Some s \<and> out = Written}"
      using Cons.prems(1) st mem_add_subset [OF Cons.prems(1)]
      by (cases rule: step_cases [OF Cons.prems(1), of x]; auto simp: invar_add)+
    from Cons.IH [OF inv', of m] Cons.prems Suc st obtain s where s: "fst (xs ! m) = Some s"
      and "s \<in> mem w' \<or> (\<exists>j < m. fst (xs ! j) = Some s \<and> dedup_outs contains add w' xs ! j = Written)"
      by auto
    then consider "s \<in> mem w" | "fst x = Some s" "out = Written"
      | j where "j < m" "fst (xs ! j) = Some s" "dedup_outs contains add w' xs ! j = Written"
      using mem' by auto
    then show ?thesis
    proof cases
      case 2
      then show ?thesis using s Suc st by (auto intro!: exI [of _ 0])
    next
      case 3
      then show ?thesis using s Suc st by (auto intro!: exI [of _ "Suc j"])
    qed (use s Suc in auto)
  qed
qed simp

text \<open>A key the memory holds stays in it as long as no key is a whole span ahead.\<close>

lemma remembered_step:
  assumes "invar w" "s \<in> mem w" "floor w \<le> pos s"
    and "\<And>k. fst x = Some k \<Longrightarrow> pos k < pos s + span w"
    and "dedup_step contains add w x = (out, w')"
  shows "invar w' \<and> s \<in> mem w' \<and> floor w' \<le> pos s \<and> span w' = span w"
proof (cases rule: step_cases [OF assms(1), of x, case_names dup failed anon fresh])
  case (fresh k)
  have "floor (add w k) \<le> pos s" using assms(1,3) assms(4) [OF fresh(1)] by (auto simp: floor_add)
  then show ?thesis using assms(1,2,5) fresh(3) by (auto simp: invar_add span_add mem_add)
qed (use assms in auto)

lemma remembered_not_written:
  assumes "invar w" "s \<in> mem w" "floor w \<le> pos s"
    and "\<forall>k \<in> keyset xs. pos k < pos s + span w"
    and "i < length xs" "fst (xs ! i) = Some s"
  shows "dedup_outs contains add w xs ! i \<noteq> Written"
  using assms
proof (induction xs arbitrary: w i)
  case (Cons x xs)
  obtain out w' where st: "dedup_step contains add w x = (out, w')" by fastforce
  show ?case
  proof (cases i)
    case 0
    then show ?thesis using Cons.prems by (cases rule: step_cases [OF Cons.prems(1), of x]) auto
  next
    case (Suc m)
    have "invar w' \<and> s \<in> mem w' \<and> floor w' \<le> pos s \<and> span w' = span w"
      by (rule remembered_step [OF Cons.prems(1-3) _ st]) (use Cons.prems(4) in \<open>auto simp: keyset_Cons\<close>)
    with Cons.IH [of w' m] Cons.prems(4-6) Suc st show ?thesis by (simp add: keyset_Cons)
  qed
qed simp

lemma written_at_most_once:
  assumes "invar w" "\<forall>k \<in> keyset xs. floor w \<le> pos k"
    and "\<forall>k \<in> keyset xs. \<forall>l \<in> keyset xs. pos l < pos k + span w"
    and "i < j" "j < length xs" "fst (xs ! i) = Some s" "fst (xs ! j) = Some s"
    and "dedup_outs contains add w xs ! i = Written"
  shows "dedup_outs contains add w xs ! j \<noteq> Written"
  using assms
proof (induction xs arbitrary: w i j)
  case (Cons x xs)
  obtain out w' where st: "dedup_step contains add w x = (out, w')" by fastforce
  obtain m where j: "j = Suc m" using Cons.prems(4) by (cases j) auto
  have w': "invar w' \<and> span w' = span w \<and> (\<forall>k \<in> keyset (x # xs). floor w' \<le> pos k)"
  proof (cases rule: step_cases [OF Cons.prems(1), of x, case_names dup failed anon fresh])
    case (fresh t)
    have "t \<in> keyset (x # xs)" using fresh(1) by (simp add: keyset_Cons)
    then have "\<forall>k \<in> keyset (x # xs). floor (add w t) \<le> pos k"
      using Cons.prems(1,2,3) by (fastforce simp: floor_add)
    then show ?thesis using Cons.prems(1) fresh(3) st by (simp add: invar_add span_add)
  qed (use Cons.prems(1,2) st in auto)
  show ?case
  proof (cases i)
    case 0
    with Cons.prems(6,8) st have out: "fst x = Some s" "out = Written" by auto
    then have s: "s \<in> keyset (x # xs)" by (simp add: keyset_Cons)
    have "s \<in> mem w'"
      using st out Cons.prems(1,2) s
      by (cases rule: step_cases [OF Cons.prems(1), of x]) (auto simp: mem_add)
    moreover have "\<forall>k \<in> keyset xs. pos k < pos s + span w'"
      using s w' Cons.prems(3) by (simp add: keyset_Cons)
    ultimately have "dedup_outs contains add w' xs ! m \<noteq> Written"
      using remembered_not_written [of w' s xs m] w' s Cons.prems(5,7) j by auto
    then show ?thesis using j st by simp
  next
    case (Suc l)
    have "dedup_outs contains add w' xs ! m \<noteq> Written"
      by (rule Cons.IH [of w' l m]) (use w' Cons.prems(3-8) j Suc st in \<open>auto simp: keyset_Cons\<close>)
    then show ?thesis using j st by simp
  qed
qed simp

end

text \<open>The bitmap window provides the interface.\<close>

interpretation seq_win: dedup_memory seqWindow_contains seqWindow_add win_inv window_set unat
  "\<lambda>w. unat (win_base w)" "\<lambda>w. unat (win_n w)"
proof unfold_locales
  fix w :: seqWindow and s :: u64
  assume inv: "win_inv w"
  then show "seqWindow_contains w s \<longleftrightarrow> s \<in> window_set w" by (rule seqWindow_contains_iff)
  show "win_inv (seqWindow_add w s)" using inv by (rule seqWindow_add_set(1))
  show "unat (win_n (seqWindow_add w s)) = unat (win_n w)" by (simp add: seqWindow_add_set(4) [OF inv])
  show "window_set (seqWindow_add w s) = (if unat s < unat (win_base w) then window_set w
      else insert s {j \<in> window_set w. unat (win_base (seqWindow_add w s)) \<le> unat j})"
    using seqWindow_add_set(2) [OF inv, of s] by (simp add: word_less_nat_alt word_le_nat_alt)
  show "unat (win_base (seqWindow_add w s)) = max (unat (win_base w)) (unat s + 1 - unat (win_n w))"
    by (rule seqWindow_add_base [OF inv])
qed

section \<open>The pump\<close>

text \<open>
  A source message is a handle (\<^const>\<open>None\<close> for the nil message of the tests); its
  acknowledgements are collected in order. Each delivery comes with the I/O behaviour of its write.
\<close>

record FrameMsg =
  fm_Frame :: TelemetryFrame
  fm_Msg :: "nat option"
  fm_Seq :: u64

datatype ack_event = Ack nat | NakWithDelay nat int

definition writeErrorNakDelay :: int where
  "writeErrorNakDelay = 5 * 1000000000"

definition dedupWindowSeqs :: nat where
  "dedupWindowSeqs = 2 ^ 21"

record pump_state =
  pump_window :: seqWindow
  pump_buf :: Buffer
  pump_acks :: "ack_event list"

definition Pump_start :: "Buffer \<Rightarrow> pump_state" where
  "Pump_start b = \<lparr>pump_window = newSeqWindow dedupWindowSeqs, pump_buf = b, pump_acks = []\<rparr>"

definition do_ack :: "FrameMsg \<Rightarrow> ack_event list" where
  "do_ack fm = (case fm_Msg fm of None \<Rightarrow> [] | Some m \<Rightarrow> [Ack m])"

definition do_nak :: "FrameMsg \<Rightarrow> ack_event list" where
  "do_nak fm = (case fm_Msg fm of None \<Rightarrow> [] | Some m \<Rightarrow> [NakWithDelay m writeErrorNakDelay])"

definition Pump_step :: "codec \<Rightarrow> FrameMsg \<times> (db_step \<Rightarrow> bool) \<Rightarrow> pump_state \<Rightarrow> pump_state" where
  "Pump_step cd ev st =
     (case ev of (fm, ok) \<Rightarrow>
      if fm_Seq fm \<noteq> 0 \<and> seqWindow_contains (pump_window st) (fm_Seq fm)
      then st\<lparr>pump_buf := RecordDuplicate (pump_buf st), pump_acks := pump_acks st @ do_ack fm\<rparr>
      else case Write cd ok (fm_Frame fm) (pump_buf st) of
        (Some e, b') \<Rightarrow> st\<lparr>pump_buf := RecordWriteError b', pump_acks := pump_acks st @ do_nak fm\<rparr>
      | (None, b') \<Rightarrow>
          st\<lparr>pump_window := (if fm_Seq fm \<noteq> 0 then seqWindow_add (pump_window st) (fm_Seq fm) else pump_window st),
             pump_buf := b', pump_acks := pump_acks st @ do_ack fm\<rparr>)"

definition Pump :: "codec \<Rightarrow> (FrameMsg \<times> (db_step \<Rightarrow> bool)) list \<Rightarrow> pump_state \<Rightarrow> pump_state" where
  "Pump cd evs st = fold (Pump_step cd) evs st"

text \<open>The deliveries of a run as the interface sees them, and what became of each.\<close>

definition delivery :: "codec \<Rightarrow> FrameMsg \<times> (db_step \<Rightarrow> bool) \<Rightarrow> pump_state \<Rightarrow> u64 option \<times> bool" where
  "delivery cd ev st = (if fm_Seq (fst ev) \<noteq> 0 then Some (fm_Seq (fst ev)) else None,
     fst (Write cd (snd ev) (fm_Frame (fst ev)) (pump_buf st)) = None)"

fun deliveries :: "codec \<Rightarrow> (FrameMsg \<times> (db_step \<Rightarrow> bool)) list \<Rightarrow> pump_state \<Rightarrow> (u64 option \<times> bool) list" where
  "deliveries cd [] st = []"
| "deliveries cd (ev # evs) st = delivery cd ev st # deliveries cd evs (Pump_step cd ev st)"

definition Pump_outs :: "codec \<Rightarrow> (FrameMsg \<times> (db_step \<Rightarrow> bool)) list \<Rightarrow> pump_state \<Rightarrow> pump_out list" where
  "Pump_outs cd evs st = dedup_outs seqWindow_contains seqWindow_add (pump_window st) (deliveries cd evs st)"

definition ack_for :: "FrameMsg \<Rightarrow> pump_out \<Rightarrow> ack_event list" where
  "ack_for fm out = (if out = WriteFailed then do_nak fm else do_ack fm)"

lemma length_deliveries [simp]: "length (deliveries cd evs st) = length evs"
  by (induction evs arbitrary: st) auto

lemma deliveries_key:
  "i < length evs \<Longrightarrow> fst (deliveries cd evs st ! i) =
     (if fm_Seq (fst (evs ! i)) \<noteq> 0 then Some (fm_Seq (fst (evs ! i))) else None)"
  by (induction evs arbitrary: st i) (auto simp: delivery_def nth_Cons split: nat.splits)

lemma keyset_deliveries: "keyset (deliveries cd evs st) = fm_Seq ` fst ` set evs - {0}"
  by (induction evs arbitrary: st) (auto simp: keyset_Cons delivery_def keyset_def [of "[]"] split: if_splits)

text \<open>One delivery: the interface step and the pump step agree, and the step's effects.\<close>

lemma Pump_step_out:
  fixes cd ev st
  defines "out \<equiv> fst (dedup_step seqWindow_contains seqWindow_add (pump_window st) (delivery cd ev st))"
  shows "pump_window (Pump_step cd ev st)
       = snd (dedup_step seqWindow_contains seqWindow_add (pump_window st) (delivery cd ev st))"
    "pump_acks (Pump_step cd ev st) = pump_acks st @ ack_for (fst ev) out"
    "pump_buf (Pump_step cd ev st) =
       (case out of
          Duplicate \<Rightarrow> RecordDuplicate (pump_buf st)
        | WriteFailed \<Rightarrow> RecordWriteError (pump_buf st)
        | Written \<Rightarrow> snd (Write cd (snd ev) (fm_Frame (fst ev)) (pump_buf st)))"
proof -
  obtain fm ok where ev: "ev = (fm, ok)" by fastforce
  obtain r b' where w: "Write cd ok (fm_Frame fm) (pump_buf st) = (r, b')" by fastforce
  have err: "b' = pump_buf st" if "r = Some e" for e using that w Write_errD by blast
  show "pump_window (Pump_step cd ev st)
       = snd (dedup_step seqWindow_contains seqWindow_add (pump_window st) (delivery cd ev st))"
    by (cases r) (simp_all add: ev w Pump_step_def delivery_def dedup_step_def)
  show "pump_acks (Pump_step cd ev st) = pump_acks st @ ack_for (fst ev) out"
    by (cases r) (simp_all add: ev w out_def Pump_step_def delivery_def dedup_step_def ack_for_def)
  show "pump_buf (Pump_step cd ev st) =
       (case out of
          Duplicate \<Rightarrow> RecordDuplicate (pump_buf st)
        | WriteFailed \<Rightarrow> RecordWriteError (pump_buf st)
        | Written \<Rightarrow> snd (Write cd (snd ev) (fm_Frame (fst ev)) (pump_buf st)))"
    using err by (cases r) (auto simp: ev w out_def Pump_step_def delivery_def dedup_step_def)
qed

lemma Pump_outs_Cons:
  "Pump_outs cd (ev # evs) st =
     fst (dedup_step seqWindow_contains seqWindow_add (pump_window st) (delivery cd ev st))
     # Pump_outs cd evs (Pump_step cd ev st)"
  by (simp add: Pump_outs_def Pump_step_out(1))

lemma Write_counters:
  assumes "fst (Write cd ok f b) = None"
  shows "written (snd (Write cd ok f b)) = written b + 1
     \<and> writeErrors (snd (Write cd ok f b)) = writeErrors b \<and> duplicates (snd (Write cd ok f b)) = duplicates b"
proof -
  obtain b' where b': "Write cd ok f b = (None, b')" using assms by (cases "Write cd ok f b") auto
  then show ?thesis by (rule Write_okE) (simp add: b')
qed

lemma dedup_step_written: "fst (dedup_step contains add w x) = Written \<Longrightarrow> snd x"
  by (auto simp: dedup_step_def split: if_splits)

lemma Pump_step_counters:
  assumes "fst (dedup_step seqWindow_contains seqWindow_add (pump_window st) (delivery cd ev st)) = out"
  shows "written (pump_buf (Pump_step cd ev st)) = written (pump_buf st) + int (count_list [out] Written)
     \<and> duplicates (pump_buf (Pump_step cd ev st)) = duplicates (pump_buf st) + int (count_list [out] Duplicate)
     \<and> writeErrors (pump_buf (Pump_step cd ev st)) = writeErrors (pump_buf st) + int (count_list [out] WriteFailed)"
proof (cases out)
  case Written
  then have "fst (Write cd (snd ev) (fm_Frame (fst ev)) (pump_buf st)) = None"
    using dedup_step_written [of seqWindow_contains seqWindow_add "pump_window st" "delivery cd ev st"] assms
    by (simp add: delivery_def)
  from Write_counters [OF this] show ?thesis by (simp add: Pump_step_out(3) assms Written)
qed (simp_all add: Pump_step_out(3) assms RecordDuplicate_def RecordWriteError_def)

lemma Pump_Cons: "Pump cd (ev # evs) st = Pump cd evs (Pump_step cd ev st)"
  by (simp add: Pump_def)

lemma Pump_start_window:
  "win_inv (pump_window (Pump_start b))" "window_set (pump_window (Pump_start b)) = {}"
  "win_base (pump_window (Pump_start b)) = 0"
  "dedupWindowSeqs \<le> unat (win_n (pump_window (Pump_start b)))"
proof -
  have w: "pump_window (Pump_start b) = newSeqWindow dedupWindowSeqs" by (simp add: Pump_start_def)
  have le: "dedupWindowSeqs \<le> 2 ^ 62" by (simp add: dedupWindowSeqs_def)
  show "win_inv (pump_window (Pump_start b))" "window_set (pump_window (Pump_start b)) = {}"
    "win_base (pump_window (Pump_start b)) = 0"
    "dedupWindowSeqs \<le> unat (win_n (pump_window (Pump_start b)))"
    unfolding w by (rule newSeqWindow_inv [OF le])+
qed

definition sample_msg :: "nat \<Rightarrow> u64 \<Rightarrow> string \<Rightarrow> FrameMsg" where
  "sample_msg m s p = \<lparr>fm_Frame = sample_frame p, fm_Msg = Some m, fm_Seq = s\<rparr>"

text \<open>A message and its redelivery.\<close>

definition redelivered :: "(FrameMsg \<times> (db_step \<Rightarrow> bool)) list" where
  "redelivered = [(sample_msg 0 9 ''p'', \<lambda>_. True), (sample_msg 1 9 ''p'', \<lambda>_. True)]"

lemma redelivered_outs: "Pump_outs sample_codec redelivered (Pump_start sample_buffer) = [Written, Duplicate]"
proof -
  let ?w = "pump_window (Pump_start sample_buffer)"
  have d: "delivery sample_codec (sample_msg 0 9 ''p'', \<lambda>_. True) (Pump_start sample_buffer) = (Some 9, True)"
    using sample_write [of "sample_frame ''p''"] by (simp add: delivery_def sample_msg_def Pump_start_def prod_eq_iff)
  have "\<not> seqWindow_contains ?w 9"
    using Pump_start_window(2) [of sample_buffer] seqWindow_contains_iff [OF Pump_start_window(1)] by auto
  moreover have "seqWindow_contains (seqWindow_add ?w 9) 9"
    using seq_win.mem_add [OF Pump_start_window(1), of sample_buffer 9] Pump_start_window(3)
      seqWindow_contains_iff [OF seqWindow_add_set(1) [OF Pump_start_window(1)]] by auto
  ultimately show ?thesis
    by (simp add: Pump_outs_def redelivered_def d dedup_step_def) (simp add: delivery_def sample_msg_def)
qed

text \<open>The acknowledgement discipline of \<open>Pump\<close>. For every list of deliveries, with every
  pattern of write failures, each delivery is acknowledged if its frame was written or recognised as a
  duplicate and is NAKed with the five second delay if its write failed, in delivery order, exactly
  once each; and the written, duplicate and write-error counters count exactly those outcomes.\<close>

theorem Pump_acks_by_outcome:
  "pump_acks (Pump cd evs st)
     = pump_acks st @ concat (map2 ack_for (map fst evs) (Pump_outs cd evs st))
   \<and> written (pump_buf (Pump cd evs st)) = written (pump_buf st) + int (count_list (Pump_outs cd evs st) Written)
   \<and> duplicates (pump_buf (Pump cd evs st)) = duplicates (pump_buf st) + int (count_list (Pump_outs cd evs st) Duplicate)
   \<and> writeErrors (pump_buf (Pump cd evs st)) = writeErrors (pump_buf st) + int (count_list (Pump_outs cd evs st) WriteFailed)"
proof (induction evs arbitrary: st)
  case (Cons ev evs)
  show ?case
    using Cons.IH [of "Pump_step cd ev st"] Pump_step_counters [OF refl, of cd ev st]
    by (simp add: Pump_Cons Pump_outs_Cons Pump_step_out(2))
qed (simp add: Pump_def Pump_outs_def)





end
