(* ===== verification/Normalizer.thy ===== *)
theory Normalizer
  imports Point_List_Facts Pump
begin

text \<open>
  Common Events (\<open>internal/common\<close>) and the Normalizer (\<open>internal/normalizer/normalizer.go\<close>): the typed
  telemetry value with its JSON form, the mapping of an event to a frame, and the consume loop that
  hands frames to the pump over a bounded channel. The resolver is a function argument; the message
  source yields the batches.
\<close>

section \<open>Telemetry values\<close>

datatype ValueKind = ValueInvalid | ValueNumber | ValueString | ValueBoolean

record Value =
  val_kind :: ValueKind
  val_number :: f64
  val_text :: string
  val_flag :: bool

definition zero_Value :: Value where
  "zero_Value = \<lparr>val_kind = ValueInvalid, val_number = 0, val_text = [], val_flag = False\<rparr>"

definition NumberValue :: "f64 \<Rightarrow> Value" where
  "NumberValue x = zero_Value\<lparr>val_kind := ValueNumber, val_number := x\<rparr>"

definition StringValue :: "string \<Rightarrow> Value" where
  "StringValue s = zero_Value\<lparr>val_kind := ValueString, val_text := s\<rparr>"

definition BoolValue :: "bool \<Rightarrow> Value" where
  "BoolValue b = zero_Value\<lparr>val_kind := ValueBoolean, val_flag := b\<rparr>"

definition Value_MarshalJSON :: "json_lib \<Rightarrow> Value \<Rightarrow> json option" where
  "Value_MarshalJSON jl v =
     (if val_kind v = ValueNumber \<and> (f64_is_nan (val_number v) \<or> f64_is_inf (val_number v)) then None
      else case val_kind v of
        ValueInvalid \<Rightarrow> None
      | ValueNumber \<Rightarrow> Some (JNum (format_float jl (val_number v)))
      | ValueString \<Rightarrow> Some (JStr (val_text v))
      | ValueBoolean \<Rightarrow> Some (JBool (val_flag v)))"

text \<open>
  What the decoder finds in the data: the values one after the other, \<^const>\<open>None\<close> where it fails.
\<close>

definition Value_UnmarshalJSON :: "json_lib \<Rightarrow> json option list \<Rightarrow> Value option" where
  "Value_UnmarshalJSON jl stream =
     (case stream of
        [] \<Rightarrow> None
      | None # _ \<Rightarrow> None
      | Some raw # trailing \<Rightarrow>
          if trailing \<noteq> [] then None
          else case raw of
            JNum lit \<Rightarrow> (case parse_float jl lit of
                None \<Rightarrow> None
              | Some x \<Rightarrow> if f64_is_nan x \<or> f64_is_inf x then None else Some (NumberValue x))
          | JStr s \<Rightarrow> Some (StringValue s)
          | JBool b \<Rightarrow> Some (BoolValue b)
          | _ \<Rightarrow> None)"

section \<open>Common Events\<close>

record Event =
  evt_Protocol :: string
  evt_ConnectorID :: string
  evt_LocalID :: string
  evt_DeviceRef :: string
  evt_Value :: Value
  evt_Unit :: string
  evt_Quality :: string
  evt_Timestamp :: string
  evt_Attributes :: "string gomap"

definition zero_Event :: Event where
  "zero_Event = \<lparr>evt_Protocol = [], evt_ConnectorID = [], evt_LocalID = [], evt_DeviceRef = [], evt_Value = zero_Value,
     evt_Unit = [], evt_Quality = [], evt_Timestamp = [], evt_Attributes = []\<rparr>"

definition Event_fields :: "json_lib \<Rightarrow> (string \<times> Event field_decoder) list" where
  "Event_fields jl =
     [(''protocol'', dec_string (\<lambda>s e. e\<lparr>evt_Protocol := s\<rparr>)),
      (''connector_id'', dec_string (\<lambda>s e. e\<lparr>evt_ConnectorID := s\<rparr>)),
      (''local_id'', dec_string (\<lambda>s e. e\<lparr>evt_LocalID := s\<rparr>)),
      (''device_ref'', dec_string (\<lambda>s e. e\<lparr>evt_DeviceRef := s\<rparr>)),
      (''value'', \<lambda>j e. map_option (\<lambda>v. e\<lparr>evt_Value := v\<rparr>) (Value_UnmarshalJSON jl [Some j])),
      (''unit'', dec_string (\<lambda>s e. e\<lparr>evt_Unit := s\<rparr>)),
      (''quality'', dec_string (\<lambda>s e. e\<lparr>evt_Quality := s\<rparr>)),
      (''timestamp'', dec_string (\<lambda>s e. e\<lparr>evt_Timestamp := s\<rparr>)),
      (''attributes'', \<lambda>j e. map_option (\<lambda>m. e\<lparr>evt_Attributes := m\<rparr>) (dec_string_map j (evt_Attributes e)))]"

definition decode_Event :: "json_lib \<Rightarrow> string \<Rightarrow> Event option" where
  "decode_Event jl d =
     (case json_read jl d of None \<Rightarrow> None | Some j \<Rightarrow> dec_struct (Event_fields jl) j zero_Event)"

section \<open>Normalization\<close>

datatype Outcome = OutcomeOK | OutcomePoison | OutcomeMiss

definition event_attrs :: "Event \<Rightarrow> string gomap" where
  "event_attrs e =
     (if evt_Attributes e \<noteq> [] \<or> evt_Unit e \<noteq> [] \<or> (evt_Quality e \<noteq> [] \<and> evt_Quality e \<noteq> ''Good'') then
        let a1 = fold (\<lambda>(k, v). AList.update k v) (evt_Attributes e) [];
            a2 = (if evt_Unit e \<noteq> [] then AList.update ''unit'' (evt_Unit e) a1 else a1)
        in if evt_Quality e \<noteq> [] \<and> evt_Quality e \<noteq> ''Good'' then AList.update ''quality'' (evt_Quality e) a2 else a2
      else [])"

definition Normalize :: "json_lib \<Rightarrow> string \<Rightarrow> string \<Rightarrow> (string \<Rightarrow> string \<Rightarrow> string option) \<Rightarrow> string
    \<Rightarrow> TelemetryFrame option \<times> Outcome" where
  "Normalize jl now d resolve gatewayID =
     (case decode_Event jl d of
        None \<Rightarrow> (None, OutcomePoison)
      | Some e \<Rightarrow>
        (case resolve (evt_ConnectorID e) (evt_LocalID e) of
           None \<Rightarrow> (None, OutcomeMiss)
         | Some pid \<Rightarrow>
           let ts = (if evt_Timestamp e = [] then now else evt_Timestamp e);
               frame = (\<lambda>v. \<lparr>GatewayId = gatewayID, PointId = pid, FrameValue = Some v, Timestamp = ts,
                              Attributes = event_attrs e\<rparr>)
           in case val_kind (evt_Value e) of
                ValueNumber \<Rightarrow> (Some (frame (ValueNum (val_number (evt_Value e)))), OutcomeOK)
              | ValueString \<Rightarrow> (Some (frame (ValueStr (val_text (evt_Value e)))), OutcomeOK)
              | ValueBoolean \<Rightarrow> (Some (frame (ValueBool (val_flag (evt_Value e)))), OutcomeOK)
              | ValueInvalid \<Rightarrow> (None, OutcomePoison)))"

section \<open>The consume loop\<close>

text \<open>
  A fetched message: a handle, its data, its stream sequence and delivery count if the metadata
  could be read, and the time it is handled.
\<close>

record EventMsg =
  em_handle :: nat
  em_Data :: string
  em_Metadata :: "(u64 \<times> nat) option"
  em_now :: string

datatype disposition = Termed nat | Handed nat | Naked nat

definition fetchBatch :: nat where
  "fetchBatch = 32"

definition frames_cap :: nat where
  "frames_cap = 256"

record norm_state =
  ns_frames :: "FrameMsg list"
  ns_disp :: "disposition list"
  ns_redelivered :: int
  ns_invalid :: int
  ns_unresolved :: int
  ns_blocked :: bool
  ns_stopped :: bool

text \<open>
  One message, before which the pump may have taken some frames. A send on the full channel waits
  until the pump takes a frame, which \<open>ns_blocked\<close> records; where the select takes the cancelled
  context instead, the message is given back and the loop ends.
\<close>

definition consume_msg :: "json_lib \<Rightarrow> (string \<Rightarrow> string \<Rightarrow> string option) \<Rightarrow> string
    \<Rightarrow> EventMsg \<times> nat \<times> bool \<Rightarrow> norm_state \<Rightarrow> norm_state" where
  "consume_msg jl resolve gw ev st =
     (case ev of (msg, taken, cancelled) \<Rightarrow>
      if ns_stopped st then st
      else let s0 = st\<lparr>ns_frames := drop taken (ns_frames st)\<rparr>;
          seq = (case em_Metadata msg of None \<Rightarrow> 0 | Some (s, _) \<Rightarrow> s);
          s1 = (case em_Metadata msg of
                  Some (_, n) \<Rightarrow> if n > 1 then s0\<lparr>ns_redelivered := ns_redelivered s0 + 1\<rparr> else s0
                | None \<Rightarrow> s0)
      in case Normalize jl (em_now msg) (em_Data msg) resolve gw of
           (_, OutcomePoison) \<Rightarrow> s1\<lparr>ns_invalid := ns_invalid s1 + 1, ns_disp := ns_disp s1 @ [Termed (em_handle msg)]\<rparr>
         | (_, OutcomeMiss) \<Rightarrow> s1\<lparr>ns_unresolved := ns_unresolved s1 + 1, ns_disp := ns_disp s1 @ [Termed (em_handle msg)]\<rparr>
         | (None, OutcomeOK) \<Rightarrow> s1
         | (Some f, OutcomeOK) \<Rightarrow>
             if cancelled then s1\<lparr>ns_disp := ns_disp s1 @ [Naked (em_handle msg)], ns_stopped := True\<rparr>
             else let full = (length (ns_frames s1) \<ge> frames_cap) in
               s1\<lparr>ns_blocked := (ns_blocked s1 \<or> full),
                  ns_frames := (if full then tl (ns_frames s1) else ns_frames s1)
                    @ [\<lparr>fm_Frame = f, fm_Msg = Some (em_handle msg), fm_Seq = seq\<rparr>],
                  ns_disp := ns_disp s1 @ [Handed (em_handle msg)]\<rparr>)"

text \<open>How many messages the loop asks for; \<^const>\<open>None\<close> when it waits for room instead.\<close>

definition consume_want :: "norm_state \<Rightarrow> nat option" where
  "consume_want st =
     (let free = frames_cap - length (ns_frames st) in if free = 0 then None else Some (min fetchBatch free))"

definition consume_batch :: "json_lib \<Rightarrow> (string \<Rightarrow> string \<Rightarrow> string option) \<Rightarrow> string
    \<Rightarrow> (EventMsg \<times> nat \<times> bool) list \<Rightarrow> norm_state \<Rightarrow> norm_state" where
  "consume_batch jl resolve gw evs st = fold (consume_msg jl resolve gw) evs st"

text \<open>
  The loop, one round per element: what the pump has taken since the last round, and what the source
  yields when asked for a number of messages.
\<close>

fun consume :: "json_lib \<Rightarrow> (string \<Rightarrow> string \<Rightarrow> string option) \<Rightarrow> string
    \<Rightarrow> (nat \<times> (nat \<Rightarrow> (EventMsg \<times> nat \<times> bool) list)) list \<Rightarrow> norm_state \<Rightarrow> norm_state" where
  "consume jl resolve gw [] st = st"
| "consume jl resolve gw ((taken, fetch) # rounds) st =
     (if ns_stopped st then st
      else let s0 = st\<lparr>ns_frames := drop taken (ns_frames st)\<rparr> in
        case consume_want s0 of
          None \<Rightarrow> consume jl resolve gw rounds s0
        | Some n \<Rightarrow> consume jl resolve gw rounds (consume_batch jl resolve gw (fetch n) s0))"

section \<open>One message\<close>

lemma event_attrs_lookup:
  "map_of (event_attrs e) k =
     (if k = ''quality'' \<and> evt_Quality e \<noteq> [] \<and> evt_Quality e \<noteq> ''Good'' then Some (evt_Quality e)
      else if k = ''unit'' \<and> evt_Unit e \<noteq> [] then Some (evt_Unit e)
      else map_of (rev (evt_Attributes e)) k)"
proof -
  have copy: "map_of (fold (\<lambda>(k, v). AList.update k v) as m) = map_of m ++ map_of (rev as)" for as m :: "string gomap"
    by (induction as arbitrary: m) (auto simp: update_conv' map_add_def fun_eq_iff split: option.splits)
  show ?thesis by (auto simp: event_attrs_def Let_def update_conv' copy)
qed

lemma Normalize_cases:
  obtains (poison) "Normalize jl now d resolve gw = (None, OutcomePoison)"
  | (miss) "Normalize jl now d resolve gw = (None, OutcomeMiss)"
  | (frame) f where "Normalize jl now d resolve gw = (Some f, OutcomeOK)"
  by (cases "decode_Event jl d"; cases "resolve (evt_ConnectorID (the (decode_Event jl d))) (evt_LocalID (the (decode_Event jl d)))";
      cases "val_kind (evt_Value (the (decode_Event jl d)))")
     (auto simp: Normalize_def Let_def)

fun disp_handle :: "disposition \<Rightarrow> nat" where
  "disp_handle (Termed h) = h"
| "disp_handle (Handed h) = h"
| "disp_handle (Naked h) = h"

text \<open>What one message adds to the dispositions, the channel and the counters.\<close>

lemma consume_msg_effect:
  fixes jl resolve gw msg taken st
  defines "st' \<equiv> consume_msg jl resolve gw (msg, taken, False) st"
  assumes "\<not> ns_stopped st" "length (ns_frames st) < frames_cap"
  obtains (dropped) "ns_disp st' = ns_disp st @ [Termed (em_handle msg)]" "ns_frames st' = drop taken (ns_frames st)"
      "ns_invalid st' + ns_unresolved st' = ns_invalid st + ns_unresolved st + 1"
      "ns_blocked st' = ns_blocked st" "\<not> ns_stopped st'"
      "fst (Normalize jl (em_now msg) (em_Data msg) resolve gw) = None"
  | (handed) f where "ns_disp st' = ns_disp st @ [Handed (em_handle msg)]"
      "ns_frames st' = drop taken (ns_frames st) @ [\<lparr>fm_Frame = f, fm_Msg = Some (em_handle msg),
         fm_Seq = (case em_Metadata msg of None \<Rightarrow> 0 | Some (s, _) \<Rightarrow> s)\<rparr>]"
      "ns_invalid st' + ns_unresolved st' = ns_invalid st + ns_unresolved st"
      "ns_blocked st' = ns_blocked st" "\<not> ns_stopped st'"
      "Normalize jl (em_now msg) (em_Data msg) resolve gw = (Some f, OutcomeOK)"
proof (cases rule: Normalize_cases [of jl "em_now msg" "em_Data msg" resolve gw])
  case poison
  then show thesis using assms(2) by (intro that(1)) (auto simp: st'_def consume_msg_def Let_def split: option.splits)
next
  case miss
  then show thesis using assms(2) by (intro that(1)) (auto simp: st'_def consume_msg_def Let_def split: option.splits)
next
  case (frame f)
  then show thesis using assms(2,3) by (intro that(2) [of f]) (auto simp: st'_def consume_msg_def Let_def split: option.splits)
qed

text \<open>A batch no longer than the room it was fetched for.\<close>

lemma consume_batch_room:
  assumes "\<not> ns_stopped st" "\<forall>ev \<in> set evs. \<not> snd (snd ev)" "length (ns_frames st) + length evs \<le> frames_cap"
  shows "length (ns_frames (consume_batch jl resolve gw evs st)) \<le> length (ns_frames st) + length evs
     \<and> ns_blocked (consume_batch jl resolve gw evs st) = ns_blocked st \<and> \<not> ns_stopped (consume_batch jl resolve gw evs st)
     \<and> map disp_handle (ns_disp (consume_batch jl resolve gw evs st))
        = map disp_handle (ns_disp st) @ map (\<lambda>ev. em_handle (fst ev)) evs
     \<and> ns_invalid (consume_batch jl resolve gw evs st) + ns_unresolved (consume_batch jl resolve gw evs st)
        - ns_invalid st - ns_unresolved st
        = int (length (filter (\<lambda>ev. fst (Normalize jl (em_now (fst ev)) (em_Data (fst ev)) resolve gw) = None) evs))"
  using assms
proof (induction evs arbitrary: st)
  case (Cons ev evs)
  obtain msg taken where ev: "ev = (msg, taken, False)" using Cons.prems(2) by (cases ev) auto
  let ?st = "consume_msg jl resolve gw (msg, taken, False) st"
  have room: "length (ns_frames st) < frames_cap" using Cons.prems(3) by simp
  have step: "consume_batch jl resolve gw (ev # evs) st = consume_batch jl resolve gw evs ?st"
    by (simp add: consume_batch_def ev)
  show ?case
  proof (cases rule: consume_msg_effect [OF Cons.prems(1) room, of jl resolve gw msg taken, case_names dropped handed])
    case dropped
    have "length (ns_frames ?st) + length evs \<le> frames_cap" "length (ns_frames ?st) \<le> Suc (length (ns_frames st))"
      using Cons.prems(3) dropped(2) by simp_all
    with Cons.IH [OF dropped(5) _ this(1)] dropped Cons.prems(2) show ?thesis unfolding step by (auto simp: ev)
  next
    case (handed f)
    have "length (ns_frames ?st) + length evs \<le> frames_cap" "length (ns_frames ?st) \<le> Suc (length (ns_frames st))"
      using Cons.prems(3) handed(2) by simp_all
    with Cons.IH [OF handed(5) _ this(1)] handed Cons.prems(2) show ?thesis unfolding step by (auto simp: ev)
  qed
qed (simp add: consume_batch_def)

section \<open>Properties\<close>

text \<open>A telemetry value survives its JSON form. Every value that can be written reads back as
  itself, given that float formatting round-trips on finite numbers; a value that cannot be written is
  the invalid one or a number that is not finite.\<close>

theorem Value_json_roundtrip:
  assumes "\<forall>x. \<not> f64_is_nan x \<and> \<not> f64_is_inf x \<longrightarrow> parse_float jl (format_float jl x) = Some x"
    and "v \<in> {NumberValue x, StringValue t, BoolValue b, zero_Value}"
  shows "case Value_MarshalJSON jl v of
      Some j \<Rightarrow> Value_UnmarshalJSON jl [Some j] = Some v
    | None \<Rightarrow> val_kind v = ValueInvalid \<or> f64_is_nan (val_number v) \<or> f64_is_inf (val_number v)"
  using assms by (auto simp: Value_MarshalJSON_def Value_UnmarshalJSON_def NumberValue_def StringValue_def BoolValue_def
      zero_Value_def)

text \<open>A JSON library whose float text is the number of its bits.\<close>

definition unary_json :: json_lib where
  "unary_json = \<lparr>json_read = (\<lambda>_. None), json_write = (\<lambda>_. []), parse_float = (\<lambda>s. Some (of_nat (length s))),
     format_float = (\<lambda>x. replicate (unat x) CHR ''1'')\<rparr>"

theorem Value_json_roundtrip_witness:
  "Value_UnmarshalJSON unary_json [Value_MarshalJSON unary_json (NumberValue 0)] = Some (NumberValue 0)"
proof -
  have ok: "\<forall>x. \<not> f64_is_nan x \<and> \<not> f64_is_inf x \<longrightarrow> parse_float unary_json (format_float unary_json x) = Some x"
    by (simp add: unary_json_def)
  have "NumberValue 0 \<in> {NumberValue 0, StringValue [], BoolValue True, zero_Value}" by simp
  from Value_json_roundtrip [OF ok this]
  show ?thesis
    by (simp add: Value_MarshalJSON_def NumberValue_def zero_Value_def f64_is_nan_def f64_is_inf_def f64_exp_ones_def)
qed


text \<open>C28: The hand-off never waits. If the source yields at most the messages it is asked for, then in
  every round of the loop, however the pump drains the channel meanwhile, no send finds the channel
  full, the channel stays within its capacity, and every message of the batch is dealt with exactly
  once and in order: terminated or handed to the pump.\<close>

theorem consume_never_waits:
  assumes "\<not> ns_stopped st" "length (ns_frames st) \<le> frames_cap"
    and "\<forall>n. length (fetch n) \<le> n \<and> (\<forall>ev \<in> set (fetch n). \<not> snd (snd ev))"
    and "consume_want st = Some n"
  shows "ns_blocked (consume_batch jl resolve gw (fetch n) st) = ns_blocked st
     \<and> length (ns_frames (consume_batch jl resolve gw (fetch n) st)) \<le> frames_cap
     \<and> map disp_handle (ns_disp (consume_batch jl resolve gw (fetch n) st))
        = map disp_handle (ns_disp st) @ map (\<lambda>ev. em_handle (fst ev)) (fetch n)"
proof -
  have "n \<le> frames_cap - length (ns_frames st)"
    using assms(4) by (auto simp: consume_want_def Let_def split: if_splits)
  then have room: "length (ns_frames st) + length (fetch n) \<le> frames_cap"
    using assms(2,3) by (metis add_left_mono le_add_diff_inverse le_trans)
  from consume_batch_room [OF assms(1) _ room, of jl resolve gw] assms(3) room show ?thesis by auto
qed

definition empty_norm :: norm_state where
  "empty_norm = \<lparr>ns_frames = [], ns_disp = [], ns_redelivered = 0, ns_invalid = 0, ns_unresolved = 0,
     ns_blocked = False, ns_stopped = False\<rparr>"

definition sample_event :: EventMsg where
  "sample_event = \<lparr>em_handle = 4, em_Data = ''x'', em_Metadata = Some (9, 1), em_now = ''t''\<rparr>"

theorem consume_never_waits_witness:
  "map disp_handle (ns_disp (consume_batch unary_json (\<lambda>_ _. None) ''gw'' [(sample_event, 0, False)] empty_norm)) = [4]"
proof -
  let ?fetch = "\<lambda>n :: nat. if n = 0 then [] else [(sample_event, 0 :: nat, False)]"
  have "consume_want empty_norm = Some 32" by (simp add: consume_want_def empty_norm_def frames_cap_def fetchBatch_def)
  from consume_never_waits [OF _ _ _ this, of ?fetch unary_json "\<lambda>_ _. None" "''gw''"]
  show ?thesis by (simp add: empty_norm_def sample_event_def)
qed

end
