(* ===== verification/Uplink.thy ===== *)
theory Uplink
  imports Pump
begin

text \<open>
  The telemetry uplink (\<open>internal/uplink\<close>, \<open>internal/retry/backoff.go\<close>, \<open>internal/mockbos/server.go\<close>):
  the Forwarder's delivery policy over a buffer and a sink, the gRPC sink, the reconnect loop with its
  backoff, and the mock Building OS. The forwarder shares the buffer with the pump: whatever the pump
  does between two of its accesses is the \<open>world\<close> parameter, as are the outcome of each database call
  and the clock.
\<close>

section \<open>Retry backoff\<close>

text \<open>
  Durations are integers (nanoseconds). The two \<open>float64\<close> products of the source are taken exactly
  and truncated; the random number in [0, 1) is an argument.
\<close>

record Backoff =
  bo_Min :: int
  bo_Max :: int
  bo_Factor :: rat
  bo_cur :: int

definition truncate_rat :: "rat \<Rightarrow> int" where
  "truncate_rat q = (if q < 0 then \<lceil>q\<rceil> else \<lfloor>q\<rfloor>)"

definition Backoff_Next :: "rat \<Rightarrow> Backoff \<Rightarrow> int \<times> Backoff" where
  "Backoff_Next rnd bo =
     (let base = (if bo_cur bo = 0 then bo_Min bo else bo_cur bo);
          jitter = truncate_rat (of_int base * (2 / 10) * (rnd * 2 - 1));
          d0 = base + jitter;
          d1 = (if d0 < bo_Min bo then bo_Min bo else d0);
          d2 = (if d1 > bo_Max bo then bo_Max bo else d1);
          cur1 = truncate_rat (of_int base * bo_Factor bo)
      in (d2, bo\<lparr>bo_cur := (if cur1 > bo_Max bo then bo_Max bo else cur1)\<rparr>))"

definition Backoff_Reset :: "Backoff \<Rightarrow> Backoff" where
  "Backoff_Reset bo = bo\<lparr>bo_cur := 0\<rparr>"

section \<open>Configuration and sinks\<close>

record Config =
  CheckpointSize :: int
  CheckpointAge :: int

definition DefaultConfig :: Config where
  "DefaultConfig = \<lparr>CheckpointSize = 1000, CheckpointAge = 5 * 1000000000\<rparr>"

text \<open>The configuration \<open>NewForwarder\<close> stores.\<close>

definition NewForwarder :: "Config \<Rightarrow> Config" where
  "NewForwarder cfg =
     (let c1 = (if CheckpointSize cfg \<le> 0 then cfg\<lparr>CheckpointSize := CheckpointSize DefaultConfig\<rparr> else cfg)
      in if CheckpointAge c1 \<le> 0 then c1\<lparr>CheckpointAge := CheckpointAge DefaultConfig\<rparr> else c1)"

text \<open>A sink over its state: whether a send succeeded, and what a checkpoint acknowledged.\<close>

record 'k FrameSink =
  sink_Send :: "TelemetryFrame \<Rightarrow> 'k \<Rightarrow> bool \<times> 'k"
  sink_Checkpoint :: "'k \<Rightarrow> int option \<times> 'k"

text \<open>The generated gRPC client: opening a stream, sending on it, closing it for the ack.\<close>

record 'c ingress_client =
  StreamTelemetry :: "'c \<Rightarrow> bool \<times> 'c"
  stream_Send :: "TelemetryFrame \<Rightarrow> 'c \<Rightarrow> bool \<times> 'c"
  CloseAndRecv :: "'c \<Rightarrow> int option \<times> 'c"

text \<open>The gRPC sink's state is whether it holds a stream, and the client.\<close>

definition grpcSink_Send :: "'c ingress_client \<Rightarrow> TelemetryFrame \<Rightarrow> bool \<times> 'c \<Rightarrow> bool \<times> (bool \<times> 'c)" where
  "grpcSink_Send cl f g =
     (case g of (open_stream, c) \<Rightarrow>
        if \<not> open_stream then
          (case StreamTelemetry cl c of
             (False, c1) \<Rightarrow> (False, (False, c1))
           | (True, c1) \<Rightarrow> (case stream_Send cl f c1 of (r, c2) \<Rightarrow> (r, (True, c2))))
        else (case stream_Send cl f c of (r, c2) \<Rightarrow> (r, (True, c2))))"

definition grpcSink_Checkpoint :: "'c ingress_client \<Rightarrow> bool \<times> 'c \<Rightarrow> int option \<times> (bool \<times> 'c)" where
  "grpcSink_Checkpoint cl g =
     (case g of (open_stream, c) \<Rightarrow>
        if \<not> open_stream then (Some 0, g)
        else (case CloseAndRecv cl c of (r, c1) \<Rightarrow> (r, (False, c1))))"

definition grpcSink :: "'c ingress_client \<Rightarrow> (bool \<times> 'c) FrameSink" where
  "grpcSink cl = \<lparr>sink_Send = grpcSink_Send cl, sink_Checkpoint = grpcSink_Checkpoint cl\<rparr>"

section \<open>The forwarding session\<close>

record world =
  w_ok :: "nat \<Rightarrow> db_step \<Rightarrow> bool"
  w_now :: "nat \<Rightarrow> int"
  w_pump :: "nat \<Rightarrow> buf_op list"

datatype fwd_error = SendFailed | CheckpointFailed | AdvanceFailed

record 'k forwardSession =
  fs_buf :: Buffer
  fs_sink :: 'k
  fs_time :: nat
  fs_cursor :: int
  fs_batch :: "SentFrame list"
  fs_connected :: bool

text \<open>The buffer as the session's next access finds it.\<close>

definition access :: "codec \<Rightarrow> world \<Rightarrow> 'k forwardSession \<Rightarrow> 'k forwardSession" where
  "access cd w s = s\<lparr>fs_buf := buf_run cd (w_pump w (fs_time s)) (fs_buf s), fs_time := Suc (fs_time s)\<rparr>"

definition newSession :: "codec \<Rightarrow> world \<Rightarrow> 'k forwardSession \<Rightarrow> 'k forwardSession" where
  "newSession cd w s =
     (let s1 = access cd w s
      in s1\<lparr>fs_cursor := Cursor (w_ok w (fs_time s)) (fs_buf s1), fs_batch := []\<rparr>)"

definition record_drifts :: "int gomap \<Rightarrow> Buffer \<Rightarrow> Buffer" where
  "record_drifts ds b = fold (\<lambda>(pid, delta). RecordDrift pid delta) ds b"

definition checkpoint :: "codec \<Rightarrow> 'k FrameSink \<Rightarrow> world \<Rightarrow> 'k forwardSession \<Rightarrow> fwd_error option \<times> 'k forwardSession" where
  "checkpoint cd sk w s =
     (if fs_batch s = [] then (None, s)
      else case sink_Checkpoint sk (fs_sink s) of
        (None, k) \<Rightarrow> (Some CheckpointFailed,
           s\<lparr>fs_sink := k, fs_buf := RecordSendError (fs_buf s), fs_connected := False\<rparr>)
      | (Some acc, k) \<Rightarrow>
          let s1 = access cd w s;
              b1 = RecordCheckpoint (w_now w (fs_time s))
                     (RecordAccepted acc (RecordSent (int (length (fs_batch s))) (fs_buf s1)));
              newCursor = fst (ApplyAck (fs_batch s) acc);
              b2 = record_drifts (snd (ApplyAck (fs_batch s) acc)) b1;
              s2 = s1\<lparr>fs_sink := k, fs_cursor := newCursor, fs_connected := True\<rparr>
          in case Advance_cursor (w_ok w (fs_time s)) newCursor b2 of
               (Some e, b3) \<Rightarrow> (Some AdvanceFailed, s2\<lparr>fs_buf := b3\<rparr>)
             | (None, b3) \<Rightarrow> (None, s2\<lparr>fs_buf := b3, fs_batch := []\<rparr>))"

fun send_frames :: "codec \<Rightarrow> 'k FrameSink \<Rightarrow> world \<Rightarrow> Config \<Rightarrow> StoredFrame list \<Rightarrow> 'k forwardSession
    \<Rightarrow> fwd_error option \<times> 'k forwardSession" where
  "send_frames cd sk w cfg [] s = (None, s)"
| "send_frames cd sk w cfg (sf # sfs) s =
     (case sink_Send sk (Frame sf) (fs_sink s) of
        (False, k) \<Rightarrow> (Some SendFailed,
           s\<lparr>fs_sink := k, fs_buf := RecordSendError (fs_buf s), fs_connected := False\<rparr>)
      | (True, k) \<Rightarrow>
          let s1 = s\<lparr>fs_sink := k,
                     fs_batch := fs_batch s @ [\<lparr>SentSeq = Seq sf, SentPointID = PointId (Frame sf)\<rparr>],
                     fs_cursor := Seq sf\<rparr>
          in if int (length (fs_batch s1)) \<ge> CheckpointSize cfg
             then (case checkpoint cd sk w s1 of
                     (Some e, s2) \<Rightarrow> (Some e, s2)
                   | (None, s2) \<Rightarrow> send_frames cd sk w cfg sfs s2)
             else send_frames cd sk w cfg sfs s1)"

text \<open>
  The drain loop goes on as long as the pump keeps the backlog non-empty, so it need not return.
\<close>

partial_function (option) drain ::
    "codec \<Rightarrow> 'k FrameSink \<Rightarrow> world \<Rightarrow> Config \<Rightarrow> 'k forwardSession
     \<Rightarrow> (fwd_error option \<times> 'k forwardSession) option" where
  "drain cd sk w cfg s =
     (case ReadBatch cd (w_ok w (fs_time s)) (fs_cursor s) 32 (fs_buf (access cd w s)) of
        Inl e \<Rightarrow> Some (None, access cd w s)
      | Inr sfs \<Rightarrow>
          if sfs = [] then Some (None, access cd w s)
          else (case send_frames cd sk w cfg sfs (access cd w s) of
                  (Some e, s2) \<Rightarrow> Some (Some e, s2)
                | (None, s2) \<Rightarrow> drain cd sk w cfg s2))"

declare drain.simps [code]

definition DrainOnce :: "codec \<Rightarrow> 'k FrameSink \<Rightarrow> world \<Rightarrow> Config \<Rightarrow> 'k forwardSession
    \<Rightarrow> (fwd_error option \<times> 'k forwardSession) option" where
  "DrainOnce cd sk w cfg s =
     (case drain cd sk w cfg (newSession cd w s) of
        None \<Rightarrow> None
      | Some (Some e, s1) \<Rightarrow> Some (Some e, s1)
      | Some (None, s1) \<Rightarrow> Some (checkpoint cd sk w s1))"

text \<open>
  \<open>Run\<close> reacts to what its select receives; the list of events ends when the context is
  cancelled.
\<close>

datatype run_event = CheckpointTick | WriteNotify | Backstop

fun Run_loop :: "codec \<Rightarrow> 'k FrameSink \<Rightarrow> world \<Rightarrow> Config \<Rightarrow> run_event list \<Rightarrow> 'k forwardSession
    \<Rightarrow> (fwd_error option \<times> 'k forwardSession) option" where
  "Run_loop cd sk w cfg [] s = Some (None, s)"
| "Run_loop cd sk w cfg (ev # evs) s =
     (case (case ev of
              CheckpointTick \<Rightarrow> Some (checkpoint cd sk w s)
            | WriteNotify \<Rightarrow> drain cd sk w cfg (s\<lparr>fs_buf := (fs_buf s)\<lparr>notify := False\<rparr>\<rparr>)
            | Backstop \<Rightarrow> drain cd sk w cfg s) of
        None \<Rightarrow> None
      | Some (Some e, s1) \<Rightarrow> Some (Some e, s1)
      | Some (None, s1) \<Rightarrow> Run_loop cd sk w cfg evs s1)"

definition Run :: "codec \<Rightarrow> 'k FrameSink \<Rightarrow> world \<Rightarrow> Config \<Rightarrow> run_event list \<Rightarrow> 'k forwardSession
    \<Rightarrow> (fwd_error option \<times> 'k forwardSession) option" where
  "Run cd sk w cfg evs s = Run_loop cd sk w (NewForwarder cfg) evs (newSession cd w s)"

section \<open>The reconnect loop\<close>

text \<open>
  Each connection uses a fresh sink, given by \<open>fresh\<close> from the transport the previous one leaves
  behind. The connections are listed with the events of each, the random number of its backoff, and
  whether the context is cancelled by the time it ends; \<open>Run\<close> returns without an error only when it
  is. When the list ends the context is cancelled. The result holds the waits and the backoff state.
\<close>

fun Ingress_sessions :: "codec \<Rightarrow> 'k FrameSink \<Rightarrow> ('k \<Rightarrow> 'k) \<Rightarrow> world \<Rightarrow> Config
    \<Rightarrow> (run_event list \<times> rat \<times> bool) list \<Rightarrow> Backoff \<Rightarrow> 'k forwardSession
    \<Rightarrow> (int list \<times> Backoff \<times> 'k forwardSession) option" where
  "Ingress_sessions cd sk fresh w cfg [] bo s = Some ([], bo, s)"
| "Ingress_sessions cd sk fresh w cfg ((evs, rnd, cancelled) # rest) bo s =
     (case Run cd sk w cfg evs (s\<lparr>fs_sink := fresh (fs_sink s)\<rparr>) of
        None \<Rightarrow> None
      | Some (r, s1) \<Rightarrow>
          if r = None \<or> cancelled then Some ([], Backoff_Reset bo, s1)
          else (case Backoff_Next rnd bo of (d, bo1) \<Rightarrow>
             (case Ingress_sessions cd sk fresh w cfg rest bo1 s1 of
                None \<Rightarrow> None | Some (ds, bo2, s2) \<Rightarrow> Some (d # ds, bo2, s2))))"

definition Ingress_backoff :: Backoff where
  "Ingress_backoff = \<lparr>bo_Min = 1000000000, bo_Max = 60 * 1000000000, bo_Factor = 2, bo_cur = 0\<rparr>"

definition Ingress_Run :: "codec \<Rightarrow> 'k FrameSink \<Rightarrow> ('k \<Rightarrow> 'k) \<Rightarrow> world \<Rightarrow> Config
    \<Rightarrow> (run_event list \<times> rat \<times> bool) list \<Rightarrow> 'k forwardSession \<Rightarrow> (int list \<times> fwd_error option \<times> 'k forwardSession) option" where
  "Ingress_Run cd sk fresh w cfg conns s =
     (case Ingress_sessions cd sk fresh w cfg conns Ingress_backoff s of
        None \<Rightarrow> None
      | Some (ds, bo, s1) \<Rightarrow>
          (case DrainOnce cd sk w (NewForwarder cfg) (s1\<lparr>fs_sink := fresh (fs_sink s1)\<rparr>) of
             None \<Rightarrow> None
           | Some (r, s2) \<Rightarrow> Some (ds, r, s2)))"

section \<open>The mock Building OS\<close>

text \<open>
  One counter for the life of the server; a closed stream is acknowledged with it. Over a connection
  that does not fail, the client sees this server as an \<^typ>\<open>int ingress_client\<close>.
\<close>

definition mockbos_recv :: "TelemetryFrame \<Rightarrow> int \<Rightarrow> int" where
  "mockbos_recv f acc = acc + 1"

definition mockbos_StreamTelemetry :: "TelemetryFrame list \<Rightarrow> int \<Rightarrow> int \<times> int" where
  "mockbos_StreamTelemetry fs acc = (let tot = fold mockbos_recv fs acc in (tot, tot))"

end
