(* ===== verification/Control.thy ===== *)
theory Control
  imports Point_List_Facts Uplink
begin

text \<open>
  The control path: the messages of \<open>gen/gateway_egress.pb.go\<close>, the dispatcher that turns a command into
  one request to a connector (\<open>internal/dispatch\<close>), the egress stream that feeds it
  (\<open>internal/egress/agent.go\<close>), and the connector-side memory of commands (\<open>connector/sdk/dedup.go\<close>).
  NATS and gRPC are parameters.
\<close>

section \<open>Messages\<close>

record ControlCommand =
  cc_ControlId :: string
  cc_PointId :: string
  cc_PresentValue :: f64
  cc_Priority :: int

record ControlResult =
  cr_ControlId :: string
  cr_Success :: bool
  cr_Response :: string

record WriteRequest =
  wq_Release :: bool
  wq_ControlID :: string
  wq_LocalID :: string
  wq_DeviceRef :: string
  wq_Value :: f64
  wq_Priority :: int

record WriteReply =
  wr_Success :: bool
  wr_Response :: string

definition WriteReply_fields :: "(string \<times> WriteReply field_decoder) list" where
  "WriteReply_fields =
     [(''success'', dec_bool (\<lambda>b r. r\<lparr>wr_Success := b\<rparr>)), (''response'', dec_string (\<lambda>s r. r\<lparr>wr_Response := s\<rparr>))]"

definition decode_WriteReply :: "json_lib \<Rightarrow> string \<Rightarrow> WriteReply option" where
  "decode_WriteReply jl d =
     (case json_read jl d of None \<Rightarrow> None
      | Some j \<Rightarrow> dec_struct WriteReply_fields j \<lparr>wr_Success = False, wr_Response = []\<rparr>)"

definition encode_WriteReply :: "WriteReply \<Rightarrow> json" where
  "encode_WriteReply r = JObj [(''success'', JBool (wr_Success r)), (''response'', JStr (wr_Response r))]"

text \<open>\<open>format_int\<close> and \<open>parse_int32\<close> write and read an integer literal; numbers that are not finite have no JSON.\<close>

definition encode_WriteRequest :: "json_lib \<Rightarrow> (int \<Rightarrow> string) \<Rightarrow> WriteRequest \<Rightarrow> json option" where
  "encode_WriteRequest jl format_int q =
     (if f64_is_nan (wq_Value q) \<or> f64_is_inf (wq_Value q) then None
      else Some (JObj (opt_bool ''release'' (wq_Release q)
        @ [(''control_id'', JStr (wq_ControlID q)), (''local_id'', JStr (wq_LocalID q)), (''device_ref'', JStr (wq_DeviceRef q)),
           (''value'', JNum (format_float jl (wq_Value q))), (''priority'', JNum (format_int (wq_Priority q)))])))"

definition dec_number :: "(string \<Rightarrow> 'v option) \<Rightarrow> ('v \<Rightarrow> 'a \<Rightarrow> 'a) \<Rightarrow> 'a field_decoder" where
  "dec_number rd upd j x =
     (case j of JNum s \<Rightarrow> (case rd s of None \<Rightarrow> None | Some v \<Rightarrow> Some (upd v x)) | JNull \<Rightarrow> Some x | _ \<Rightarrow> None)"

definition WriteRequest_fields :: "json_lib \<Rightarrow> (string \<Rightarrow> int option) \<Rightarrow> (string \<times> WriteRequest field_decoder) list" where
  "WriteRequest_fields jl parse_int32 =
     [(''release'', dec_bool (\<lambda>b q. q\<lparr>wq_Release := b\<rparr>)), (''control_id'', dec_string (\<lambda>s q. q\<lparr>wq_ControlID := s\<rparr>)),
      (''local_id'', dec_string (\<lambda>s q. q\<lparr>wq_LocalID := s\<rparr>)), (''device_ref'', dec_string (\<lambda>s q. q\<lparr>wq_DeviceRef := s\<rparr>)),
      (''value'', dec_number (parse_float jl) (\<lambda>v q. q\<lparr>wq_Value := v\<rparr>)),
      (''priority'', dec_number parse_int32 (\<lambda>v q. q\<lparr>wq_Priority := v\<rparr>))]"

definition zero_WriteRequest :: WriteRequest where
  "zero_WriteRequest = \<lparr>wq_Release = False, wq_ControlID = [], wq_LocalID = [], wq_DeviceRef = [], wq_Value = 0, wq_Priority = 0\<rparr>"

definition decode_WriteRequest :: "json_lib \<Rightarrow> (string \<Rightarrow> int option) \<Rightarrow> json \<Rightarrow> WriteRequest option" where
  "decode_WriteRequest jl parse_int32 j = dec_struct (WriteRequest_fields jl parse_int32) j zero_WriteRequest"

text \<open>How Go prints a number that is not finite.\<close>

definition nonfinite_name :: "f64 \<Rightarrow> string" where
  "nonfinite_name x = (if f64_is_nan x then ''NaN'' else if x = 0xFFF0000000000000 then ''-Inf'' else ''+Inf'')"

section \<open>The dispatcher\<close>

text \<open>
  What a NATS request returns: the reply's data, or why there is none. A request carries the JSON of a
  \<open>WriteRequest\<close>, here the value itself; decoding that JSON gives the value back.
\<close>

datatype nats_result = NatsReply string | NatsNoResponders | NatsTimeout

record 'n Dispatcher =
  ds_nats :: 'n
  ds_dedup :: "ControlResult gomap"

type_synonym 'n nats_request = "string \<Rightarrow> WriteRequest \<Rightarrow> 'n \<Rightarrow> nats_result \<times> 'n"
type_synonym control_resolver = "string \<Rightarrow> Entry \<times> Entry \<times> bool"

definition dispatch_New :: "'n \<Rightarrow> 'n Dispatcher" where
  "dispatch_New n = \<lparr>ds_nats = n, ds_dedup = []\<rparr>"

definition failed :: "ControlCommand \<Rightarrow> string \<Rightarrow> ControlResult" where
  "failed cmd resp = \<lparr>cr_ControlId = cc_ControlId cmd, cr_Success = False, cr_Response = resp\<rparr>"

text \<open>The first half of \<open>execute\<close>: the request a command leads to, or its refusal.\<close>

definition control_request :: "control_resolver \<Rightarrow> ControlCommand \<Rightarrow> ControlResult + (string \<times> WriteRequest)" where
  "control_request res cmd =
     (case res (cc_PointId cmd) of (entry, target, ok) \<Rightarrow>
      if \<not> ok then Inl (failed cmd ''no_connector'')
      else if \<not> Writable entry then Inl (failed cmd ''not_writable'')
      else let release = (ReleaseOf entry \<noteq> []) in
        if release \<and> (cc_PresentValue cmd \<noteq> f64_one \<or> cc_Priority cmd < 0 \<or> cc_Priority cmd > 16)
        then Inl (failed cmd ''bad_request'')
        else if release \<and> (PointID target = [] \<or> ReleaseOf target \<noteq> []) then Inl (failed cmd ''bad_request'')
        else if release \<and> \<not> Writable target then Inl (failed cmd ''not_writable'')
        else if release \<and> (Protocol target \<noteq> ''bacnet'' \<or> ConnectorID target = [] \<or> LocalID target = [])
        then Inl (failed cmd ''bad_request'')
        else let e = (if release then target else entry) in
          if f64_is_nan (cc_PresentValue cmd) \<or> f64_is_inf (cc_PresentValue cmd)
          then Inl (failed cmd (''marshal_error: json: unsupported value: '' @ nonfinite_name (cc_PresentValue cmd)))
          else Inr (''cmd.'' @ Protocol e @ ''.'' @ ConnectorID e,
                    \<lparr>wq_Release = release, wq_ControlID = cc_ControlId cmd, wq_LocalID = LocalID e,
                     wq_DeviceRef = DeviceRef e, wq_Value = cc_PresentValue cmd, wq_Priority = cc_Priority cmd\<rparr>))"

text \<open>\<open>errtext\<close> is the text of the JSON decoder's error.\<close>

definition execute :: "json_lib \<Rightarrow> (string \<Rightarrow> string) \<Rightarrow> 'n nats_request \<Rightarrow> control_resolver \<Rightarrow> ControlCommand \<Rightarrow> 'n \<Rightarrow> ControlResult \<times> 'n" where
  "execute jl errtext rq res cmd n =
     (case control_request res cmd of
        Inl refusal \<Rightarrow> (refusal, n)
      | Inr (subject, req) \<Rightarrow>
        (case rq subject req n of
           (NatsTimeout, n1) \<Rightarrow> (failed cmd ''timeout'', n1)
         | (NatsNoResponders, n1) \<Rightarrow> (failed cmd ''no_responder'', n1)
         | (NatsReply d, n1) \<Rightarrow>
           (case decode_WriteReply jl d of
              None \<Rightarrow> (failed cmd (''parse_error: '' @ errtext d), n1)
            | Some reply \<Rightarrow>
                (\<lparr>cr_ControlId = cc_ControlId cmd, cr_Success = wr_Success reply, cr_Response = wr_Response reply\<rparr>, n1))))"

text \<open>\<open>admit\<close> is \<^const>\<open>None\<close> without an admission gate, otherwise whether it lets the command in.\<close>

definition Execute :: "json_lib \<Rightarrow> (string \<Rightarrow> string) \<Rightarrow> 'n nats_request \<Rightarrow> control_resolver \<Rightarrow> bool option
    \<Rightarrow> ControlCommand \<Rightarrow> 'n Dispatcher \<Rightarrow> ControlResult \<times> 'n Dispatcher" where
  "Execute jl errtext rq res admit cmd d =
     (case map_of (ds_dedup d) (cc_ControlId cmd) of
        Some r \<Rightarrow> (r, d)
      | None \<Rightarrow>
        if admit = Some False then (failed cmd ''configuration_paused'', d)
        else case execute jl errtext rq res cmd (ds_nats d) of
          (result, n1) \<Rightarrow> (result, d\<lparr>ds_nats := n1, ds_dedup := AList.update (cc_ControlId cmd) result (ds_dedup d)\<rparr>))"

section \<open>The egress stream\<close>

datatype EgressUp = UpHello string | UpResult ControlResult | UpStatus string

datatype EgressDown = DownCommand "ControlCommand option" | DownPointListUpdate string string | DownUnknown

text \<open>
  What happens on an open stream, in the order the send mutex imposes: a message arrives (with the
  admission gate's answer and whether the reply can be sent), or the reporter sends a status,
  or the synchroniser takes the pending signal off the channel (of capacity one).
\<close>

datatype stream_event = Recv EgressDown "bool option" bool | Report string bool | RevalidateTaken

record 'x egress_state =
  eg_exec :: 'x
  eg_ups :: "EgressUp list"
  eg_revalidate :: "bool option"
  eg_reporting :: bool
  eg_closed :: bool

type_synonym 'x executor = "bool option \<Rightarrow> ControlCommand \<Rightarrow> 'x \<Rightarrow> ControlResult \<times> 'x"

definition egress_recv :: "'x executor \<Rightarrow> EgressDown \<Rightarrow> bool option \<Rightarrow> bool \<Rightarrow> 'x egress_state \<Rightarrow> 'x egress_state" where
  "egress_recv exec down admit delivered st =
     (case down of
        DownCommand None \<Rightarrow> st
      | DownCommand (Some cmd) \<Rightarrow>
          (case exec admit cmd (eg_exec st) of (result, x) \<Rightarrow>
             if delivered then st\<lparr>eg_exec := x, eg_ups := eg_ups st @ [UpResult result]\<rparr>
             else st\<lparr>eg_exec := x, eg_closed := True\<rparr>)
      | DownPointListUpdate g r \<Rightarrow>
          st\<lparr>eg_revalidate := map_option (\<lambda>_. True) (eg_revalidate st)\<rparr>
      | DownUnknown \<Rightarrow> st)"

definition egress_report :: "string \<Rightarrow> bool \<Rightarrow> 'x egress_state \<Rightarrow> 'x egress_state" where
  "egress_report revision delivered st =
     (if \<not> eg_reporting st then st
      else if delivered then st\<lparr>eg_ups := eg_ups st @ [UpStatus revision]\<rparr>
      else st\<lparr>eg_reporting := False\<rparr>)"

fun runStream_loop :: "'x executor \<Rightarrow> stream_event list \<Rightarrow> 'x egress_state \<Rightarrow> 'x egress_state" where
  "runStream_loop exec [] st = st"
| "runStream_loop exec (ev # evs) st =
     (if eg_closed st then st
      else runStream_loop exec evs
        (case ev of Recv down admit delivered \<Rightarrow> egress_recv exec down admit delivered st
         | Report revision delivered \<Rightarrow> egress_report revision delivered st
         | RevalidateTaken \<Rightarrow> st\<lparr>eg_revalidate := map_option (\<lambda>_. False) (eg_revalidate st)\<rparr>))"

text \<open>A stream: connecting may fail, and so may the first frame; the reporter runs if there is a revision to report.\<close>

definition runStream :: "'x executor \<Rightarrow> string \<Rightarrow> bool \<Rightarrow> bool \<Rightarrow> bool \<Rightarrow> stream_event list \<Rightarrow> 'x egress_state \<Rightarrow> 'x egress_state" where
  "runStream exec gw dialled greeted reporter evs st =
     (if \<not> dialled then st
      else if \<not> greeted then st
      else runStream_loop exec evs
        (st\<lparr>eg_ups := eg_ups st @ [UpHello gw], eg_reporting := reporter, eg_closed := False\<rparr>))"

text \<open>
  The reconnect loop. A stream ends with an error, so unless the context is cancelled the loop waits for
  the next delay of its \<open>Backoff\<close> and connects again.
\<close>

record stream_script =
  ss_connected :: bool
  ss_greeted :: bool
  ss_events :: "stream_event list"
  ss_random :: rat
  ss_cancelled :: bool

definition Egress_backoff :: Backoff where
  "Egress_backoff = \<lparr>bo_Min = 1000000000, bo_Max = 60 * 1000000000, bo_Factor = 2, bo_cur = 0\<rparr>"

fun Egress_streams :: "'x executor \<Rightarrow> string \<Rightarrow> bool \<Rightarrow> stream_script list \<Rightarrow> Backoff \<Rightarrow> 'x egress_state
    \<Rightarrow> int list \<times> Backoff \<times> 'x egress_state" where
  "Egress_streams exec gw reporter [] bo st = ([], bo, st)"
| "Egress_streams exec gw reporter (sc # rest) bo st =
     (let st1 = runStream exec gw (ss_connected sc) (ss_greeted sc) reporter (ss_events sc) st in
      if ss_cancelled sc then ([], Backoff_Reset bo, st1)
      else case Backoff_Next (ss_random sc) bo of (d, bo1) \<Rightarrow>
        (case Egress_streams exec gw reporter rest bo1 st1 of (ds, bo2, st2) \<Rightarrow> (d # ds, bo2, st2)))"

definition Egress_Run :: "'x executor \<Rightarrow> string \<Rightarrow> bool \<Rightarrow> stream_script list \<Rightarrow> 'x egress_state \<Rightarrow> int list \<times> Backoff \<times> 'x egress_state" where
  "Egress_Run exec gw reporter scs st = Egress_streams exec gw reporter scs Egress_backoff st"

definition egress_New :: "bool \<Rightarrow> 'x \<Rightarrow> 'x egress_state" where
  "egress_New revalidate x = \<lparr>eg_exec = x, eg_ups = [], eg_revalidate = (if revalidate then Some False else None),
     eg_reporting = False, eg_closed = False\<rparr>"

section \<open>The connector's memory of commands\<close>

record CommandDedup =
  cd_entries :: "WriteReply option gomap"
  cd_keys :: "string list"
  cd_cap :: int

definition NewCommandDedup :: "int \<Rightarrow> CommandDedup" where
  "NewCommandDedup c = \<lparr>cd_entries = [], cd_keys = [], cd_cap = c\<rparr>"

datatype reserve_result = Proceed | InFlight | Cached WriteReply | IndexOutOfRange

definition TryReserve :: "string \<Rightarrow> CommandDedup \<Rightarrow> reserve_result \<times> CommandDedup" where
  "TryReserve i d =
     (case map_of (cd_entries d) i of
        Some None \<Rightarrow> (InFlight, d)
      | Some (Some reply) \<Rightarrow> (Cached reply, d)
      | None \<Rightarrow>
        if int (length (cd_keys d)) \<ge> cd_cap d then
          (case cd_keys d of
             [] \<Rightarrow> (IndexOutOfRange, d)
           | oldest # ks \<Rightarrow>
               (Proceed, d\<lparr>cd_entries := AList.update i None (AList.delete oldest (cd_entries d)), cd_keys := ks @ [i]\<rparr>))
        else (Proceed, d\<lparr>cd_entries := AList.update i None (cd_entries d), cd_keys := cd_keys d @ [i]\<rparr>))"

definition Complete :: "string \<Rightarrow> WriteReply \<Rightarrow> CommandDedup \<Rightarrow> CommandDedup" where
  "Complete i reply d = d\<lparr>cd_entries := AList.update i (Some reply) (cd_entries d)\<rparr>"

end
