(* ===== verification/Mqtt_Connector.thy ===== *)
theory Mqtt_Connector
  imports Mqtt_Topics Normalizer Control
begin

text \<open>
  The MQTT connector at work (\<open>connector/mqtt/payload.go\<close>, \<open>connector/mqtt/connector.go\<close>): decoding a
  payload, the receive callback with its filters, the hand-off queue and the publisher that acknowledges a
  message only after JetStream has it, the freshness floor and the write handler. The broker and
  JetStream are the inputs of each step, and what the connector does to them is a list of effects.
  Times and durations are nanoseconds.
\<close>

section \<open>Payloads\<close>

record time_lib =
  parse_rfc3339 :: "string \<Rightarrow> int option"
  format_rfc3339 :: "int \<Rightarrow> string"

datatype payloadOutcome = payloadTelemetry | payloadIgnored | payloadInvalid

record decodedPayload =
  dp_Value :: Value
  dp_Timestamp :: int

record wirePayload =
  wp_Datetime :: string
  wp_SnapshotAt :: string
  wp_Value :: "json option"
  wp_ValueUpper :: "json option"
  wp_V :: "json option"
  wp_Status :: "json option"

text \<open>A \<open>RawMessage\<close> field keeps the value it is given, \<open>null\<close> included.\<close>

definition dec_raw :: "(json \<Rightarrow> 'a \<Rightarrow> 'a) \<Rightarrow> 'a field_decoder" where
  "dec_raw upd j x = Some (upd j x)"

definition wirePayload_fields :: "(string \<times> wirePayload field_decoder) list" where
  "wirePayload_fields =
     [(''datetime'', dec_string (\<lambda>s p. p\<lparr>wp_Datetime := s\<rparr>)), (''snapshot_at'', dec_string (\<lambda>s p. p\<lparr>wp_SnapshotAt := s\<rparr>)),
      (''value'', dec_raw (\<lambda>j p. p\<lparr>wp_Value := Some j\<rparr>)), (''Value'', dec_raw (\<lambda>j p. p\<lparr>wp_ValueUpper := Some j\<rparr>)),
      (''v'', dec_raw (\<lambda>j p. p\<lparr>wp_V := Some j\<rparr>)), (''status'', dec_raw (\<lambda>j p. p\<lparr>wp_Status := Some j\<rparr>))]"

definition zero_wirePayload :: wirePayload where
  "zero_wirePayload = \<lparr>wp_Datetime = [], wp_SnapshotAt = [], wp_Value = None, wp_ValueUpper = None, wp_V = None, wp_Status = None\<rparr>"

definition finite_f64 :: "f64 \<Rightarrow> bool" where
  "finite_f64 v = (\<not> f64_is_nan v \<and> \<not> f64_is_inf v)"

definition parse_finite :: "json_lib \<Rightarrow> string \<Rightarrow> f64 option" where
  "parse_finite jl s = (case parse_float jl s of None \<Rightarrow> None | Some f \<Rightarrow> if finite_f64 f then Some f else None)"

text \<open>
  Raw bytes are seen through what the decoder finds first in them and what they are as a whole;
  \<open>valid_number\<close> is the test that admits a string where a \<open>json.Number\<close> is wanted.
\<close>

record raw_json =
  raw_first :: "json option"
  raw_whole :: "json option"

definition numericValue :: "json_lib \<Rightarrow> (string \<Rightarrow> bool) \<Rightarrow> raw_json \<Rightarrow> f64 option" where
  "numericValue jl valid_number raw =
     (case (case raw_first raw of
              Some (JNum s) \<Rightarrow> parse_finite jl s
            | Some (JStr s) \<Rightarrow> if valid_number s then parse_finite jl s else None
            | _ \<Rightarrow> None) of
        Some f \<Rightarrow> Some f
      | None \<Rightarrow> (case raw_whole raw of Some (JStr s) \<Rightarrow> parse_finite jl (TrimSpace s) | _ \<Rightarrow> None))"

definition scalarValue :: "json_lib \<Rightarrow> (string \<Rightarrow> bool) \<Rightarrow> raw_json \<Rightarrow> Value option" where
  "scalarValue jl valid_number raw =
     (if raw_whole raw = Some JNull then None
      else if raw_whole raw = Some (JBool True) then Some (BoolValue True)
      else if raw_whole raw = Some (JBool False) then Some (BoolValue False)
      else case numericValue jl valid_number raw of
        Some n \<Rightarrow> Some (NumberValue n)
      | None \<Rightarrow> (case raw_whole raw of Some (JStr text) \<Rightarrow> Some (StringValue text) | _ \<Rightarrow> None))"

definition payload_time :: "time_lib \<Rightarrow> wirePayload \<Rightarrow> int \<Rightarrow> int" where
  "payload_time clk p receivedAt =
     (case List.map_filter (\<lambda>c. if c = [] then None else parse_rfc3339 clk c) [wp_Datetime p, wp_SnapshotAt p] of
        [] \<Rightarrow> receivedAt | t # _ \<Rightarrow> t)"

text \<open>\<open>read_first\<close> reads the first JSON value of the data, whatever follows it.\<close>

definition decodePayload :: "json_lib \<Rightarrow> (string \<Rightarrow> json option) \<Rightarrow> (string \<Rightarrow> bool) \<Rightarrow> time_lib \<Rightarrow> string \<Rightarrow> int
    \<Rightarrow> decodedPayload option \<times> payloadOutcome" where
  "decodePayload jl read_first valid_number clk d receivedAt =
     (let trimmed = TrimSpace d in
      if trimmed \<noteq> [] \<and> hd trimmed \<noteq> CHR ''{'' then
        (case scalarValue jl valid_number \<lparr>raw_first = read_first trimmed, raw_whole = json_read jl trimmed\<rparr> of
           Some v \<Rightarrow> (Some \<lparr>dp_Value = v, dp_Timestamp = receivedAt\<rparr>, payloadTelemetry)
         | None \<Rightarrow> (None, payloadInvalid))
      else
        (case (case json_read jl d of None \<Rightarrow> None | Some j \<Rightarrow> dec_struct wirePayload_fields j zero_wirePayload) of
           None \<Rightarrow> (None, payloadInvalid)
         | Some p \<Rightarrow>
           (case (case wp_Value p of Some j \<Rightarrow> Some j | None \<Rightarrow> (case wp_ValueUpper p of Some j \<Rightarrow> Some j | None \<Rightarrow> wp_V p)) of
              None \<Rightarrow> if wp_Status p \<noteq> None then (None, payloadIgnored) else (None, payloadInvalid)
            | Some j \<Rightarrow>
              (case scalarValue jl valid_number \<lparr>raw_first = Some j, raw_whole = Some j\<rparr> of
                 None \<Rightarrow> (None, payloadInvalid)
               | Some v \<Rightarrow> (Some \<lparr>dp_Value = v, dp_Timestamp = payload_time clk p receivedAt\<rparr>, payloadTelemetry)))))"

section \<open>The connector's state\<close>

record MqttConfig =
  mcf_ConnectorID :: string
  mcf_MaxPayloadBytes :: nat
  mcf_Subscriptions :: "SubscriptionConfig list"
  mcf_IgnoreTopics :: "string list"
  mcf_Points :: "PointConfig list"
  mcf_FreshnessInterval :: int
  mcf_WildcardMinInterval :: int
  mcf_ReceiveMaximum :: nat

definition publishQueueSize :: nat where
  "publishQueueSize = 256"

definition maxWildcardTracked :: nat where
  "maxWildcardTracked = 65536"

definition defaultWildcardMinInterval :: int where
  "defaultWildcardMinInterval = 10000000000"

definition publishStallThreshold :: int where
  "publishStallThreshold = 30000000000"

definition publishRetryMin :: int where
  "publishRetryMin = 100000000"

definition publishRetryMax :: int where
  "publishRetryMax = 5000000000"

record pendingPublish =
  pp_data :: string
  pp_topic :: string
  pp_value :: f64
  pp_hasValue :: bool
  pp_timestamp :: int
  pp_packet :: nat

record lkvState =
  lk_value :: f64
  lk_lastEmit :: int

text \<open>What the connector does: acknowledge a packet, publish to JetStream (a received or a repeated value), publish to the broker.\<close>

datatype mqtt_effect = Ack nat | Publish string | Republish string | BrokerPublish string byte string

record MqttConnector =
  mc_topics :: topicIndex
  mc_connected :: bool
  mc_dedup :: CommandDedup
  mc_lkv :: "lkvState gomap"
  mc_received :: int
  mc_published :: int
  mc_publishErrors :: int
  mc_wildLast :: "int gomap"
  mc_wildThrottled :: int
  mc_failingSince :: int
  mc_queue :: "pendingPublish list"
  mc_effects :: "mqtt_effect list"

text \<open>\<open>New\<close>, and the first steps of \<open>Run\<close>.\<close>

definition NewConnector :: "MqttConfig \<Rightarrow> MqttConnector" where
  "NewConnector cfg = \<lparr>mc_topics = newTopicIndex (mcf_Points cfg) (mcf_Subscriptions cfg) [], mc_connected = False,
     mc_dedup = NewCommandDedup 1000, mc_lkv = [], mc_received = 0, mc_published = 0, mc_publishErrors = 0, mc_wildLast = [],
     mc_wildThrottled = 0, mc_failingSince = 0, mc_queue = [], mc_effects = []\<rparr>"

definition publishStalled :: "int \<Rightarrow> MqttConnector \<Rightarrow> int" where
  "publishStalled now c = (if mc_failingSince c = 0 then 0 else now - mc_failingSince c)"

definition Healthy :: "int \<Rightarrow> MqttConnector \<Rightarrow> bool" where
  "Healthy now c = (mc_connected c \<and> publishStalled now c < publishStallThreshold)"

record Metric =
  me_Name :: string
  me_Help :: string
  me_Type :: string
  me_Value :: int

definition Metrics :: "int \<Rightarrow> MqttConnector \<Rightarrow> Metric list" where
  "Metrics now c =
     [\<lparr>me_Name = ''mqtt_received_total'', me_Help = ''MQTT messages received from the broker, before topic filtering.'',
       me_Type = ''counter'', me_Value = mc_received c\<rparr>,
      \<lparr>me_Name = ''mqtt_published_total'', me_Help = ''Common Events published to JetStream from received broker messages.'',
       me_Type = ''counter'', me_Value = mc_published c\<rparr>,
      \<lparr>me_Name = ''mqtt_publish_error_total'', me_Help = ''JetStream publish failures; each failed frame is retried with backoff until it lands.'',
       me_Type = ''counter'', me_Value = mc_publishErrors c\<rparr>,
      \<lparr>me_Name = ''mqtt_wildcard_throttled_total'', me_Help = ''Messages dropped because their topic matched only a wildcard Point and repeated within the minimum interval.'',
       me_Type = ''counter'', me_Value = mc_wildThrottled c\<rparr>,
      \<lparr>me_Name = ''mqtt_publish_stalled_seconds'', me_Help = ''Seconds JetStream publishes have been failing continuously; 0 while publishing succeeds.'',
       me_Type = ''gauge'', me_Value = publishStalled now c div 1000000000\<rparr>]"

text \<open>\<open>MetricsHandler\<close>: the body of \<open>/metrics\<close>; \<open>dec\<close> writes an integer in decimal.\<close>

definition MetricsHandler :: "(int \<Rightarrow> string) \<Rightarrow> Metric list option \<Rightarrow> string" where
  "MetricsHandler dec collect = (case collect of None \<Rightarrow> [] | Some ms \<Rightarrow> concat (map (\<lambda>m.
     ''# HELP '' @ me_Name m @ '' '' @ me_Help m @ [CHR 0x0A] @
     ''# TYPE '' @ me_Name m @ '' '' @ me_Type m @ [CHR 0x0A] @
     me_Name m @ '' '' @ dec (me_Value m) @ [CHR 0x0A]) ms))"

section \<open>Receiving\<close>

definition wildcardMinInterval :: "MqttConfig \<Rightarrow> int" where
  "wildcardMinInterval cfg =
     (let d = mcf_WildcardMinInterval cfg in if d = 0 then defaultWildcardMinInterval else if d < 0 then 0 else d)"

definition maxPayloadBytes :: "MqttConfig \<Rightarrow> nat" where
  "maxPayloadBytes cfg = (if mcf_MaxPayloadBytes cfg = 0 then 1024 else mcf_MaxPayloadBytes cfg)"

definition receiveMaximum :: "MqttConfig \<Rightarrow> nat" where
  "receiveMaximum cfg = (if mcf_ReceiveMaximum cfg = 0 then 1024 else mcf_ReceiveMaximum cfg)"

definition allowWildcard :: "MqttConfig \<Rightarrow> string \<Rightarrow> int \<Rightarrow> MqttConnector \<Rightarrow> bool \<times> MqttConnector" where
  "allowWildcard cfg topic now c =
     (let minGap = wildcardMinInterval cfg in
      if minGap = 0 then (True, c)
      else if (case map_of (mc_wildLast c) topic of Some seen \<Rightarrow> now - seen < minGap | None \<Rightarrow> False) then (False, c)
      else
        let w1 = (if length (mc_wildLast c) \<ge> maxWildcardTracked
                  then let w = filter (\<lambda>(t, seen). \<not> now - seen \<ge> minGap) (mc_wildLast c)
                       in if length w \<ge> maxWildcardTracked then [] else w
                  else mc_wildLast c)
        in (True, c\<lparr>mc_wildLast := AList.update topic now w1\<rparr>))"

definition encode_Event :: "json_lib \<Rightarrow> Event \<Rightarrow> json option" where
  "encode_Event jl e =
     (case Value_MarshalJSON jl (evt_Value e) of
        None \<Rightarrow> None
      | Some v \<Rightarrow> Some (JObj ([(''protocol'', JStr (evt_Protocol e)), (''connector_id'', JStr (evt_ConnectorID e)),
          (''local_id'', JStr (evt_LocalID e)), (''device_ref'', JStr (evt_DeviceRef e)), (''value'', v), (''unit'', JStr (evt_Unit e)),
          (''quality'', JStr (evt_Quality e)), (''timestamp'', JStr (evt_Timestamp e))]
          @ (if evt_Attributes e = [] then [] else [(''attributes'', JObj (map (\<lambda>(k, s). (k, JStr s)) (evt_Attributes e)))]))))"

definition mqtt_event :: "time_lib \<Rightarrow> MqttConfig \<Rightarrow> string \<Rightarrow> PointConfig \<Rightarrow> Value \<Rightarrow> int \<Rightarrow> Event" where
  "mqtt_event clk cfg topic p v t =
     \<lparr>evt_Protocol = ''mqtt'', evt_ConnectorID = mcf_ConnectorID cfg, evt_LocalID = topic, evt_DeviceRef = pt_DeviceRef p,
      evt_Value = v, evt_Unit = pt_Unit p, evt_Quality = ''Good'', evt_Timestamp = format_rfc3339 clk t, evt_Attributes = []\<rparr>"

record mqtt_packet =
  pk_id :: nat
  pk_Topic :: string
  pk_Payload :: string

text \<open>The environment of the decoder, and the receive callback up to the hand-off: the state, and the message to hand over if there is one.\<close>

record codecs =
  c_json :: json_lib
  c_first :: "string \<Rightarrow> json option"
  c_number :: "string \<Rightarrow> bool"
  c_time :: time_lib

definition ack :: "nat \<Rightarrow> MqttConnector \<Rightarrow> MqttConnector" where
  "ack k c = c\<lparr>mc_effects := mc_effects c @ [Ack k]\<rparr>"

definition onPublishReceived :: "codecs \<Rightarrow> MqttConfig \<Rightarrow> mqtt_packet \<Rightarrow> int \<Rightarrow> MqttConnector \<Rightarrow> MqttConnector \<times> pendingPublish option" where
  "onPublishReceived cd cfg pk now c0 =
     (let c = c0\<lparr>mc_received := mc_received c0 + 1\<rparr> in
      if pk_Topic pk \<in> set (mcf_IgnoreTopics cfg) then (ack (pk_id pk) c, None)
      else case resolve (mc_topics c) (pk_Topic pk) of
        None \<Rightarrow> (ack (pk_id pk) c, None)
      | Some (p, explicit) \<Rightarrow>
        (case (if explicit then (True, c) else allowWildcard cfg (pk_Topic pk) now c) of
           (False, c1) \<Rightarrow> (ack (pk_id pk) (c1\<lparr>mc_wildThrottled := mc_wildThrottled c1 + 1\<rparr>), None)
         | (True, c1) \<Rightarrow>
           if length (pk_Payload pk) > maxPayloadBytes cfg then (ack (pk_id pk) c1, None)
           else (case decodePayload (c_json cd) (c_first cd) (c_number cd) (c_time cd) (pk_Payload pk) now of
              (Some d, payloadTelemetry) \<Rightarrow>
                (case encode_Event (c_json cd) (mqtt_event (c_time cd) cfg (pk_Topic pk) p (dp_Value d) (dp_Timestamp d)) of
                   None \<Rightarrow> (ack (pk_id pk) c1, None)
                 | Some j \<Rightarrow> (c1, Some \<lparr>pp_data = json_write (c_json cd) j, pp_topic = pk_Topic pk,
                     pp_value = (if val_kind (dp_Value d) = ValueNumber then val_number (dp_Value d) else 0),
                     pp_hasValue = (val_kind (dp_Value d) = ValueNumber), pp_timestamp = dp_Timestamp d, pp_packet = pk_id pk\<rparr>))
            | _ \<Rightarrow> (ack (pk_id pk) c1, None))))"

section \<open>Publishing\<close>

text \<open>
  One attempt to publish: it lands, it fails at a time and the wait before the next attempt is cut short
  or not by cancellation, or it fails because the context is dead.
\<close>

datatype attempt = Lands | Fails int bool | Dead

definition recordValue :: "string \<Rightarrow> f64 \<Rightarrow> int \<Rightarrow> MqttConnector \<Rightarrow> MqttConnector" where
  "recordValue topic v t c = c\<lparr>mc_lkv := AList.update topic \<lparr>lk_value = v, lk_lastEmit = t\<rparr> (mc_lkv c)\<rparr>"

text \<open>The result, the waits between attempts and the state; \<^const>\<open>None\<close> while the attempts so far have neither landed nor been cancelled.\<close>

fun publishPending :: "pendingPublish \<Rightarrow> int \<Rightarrow> attempt list \<Rightarrow> MqttConnector \<Rightarrow> (bool \<times> int list \<times> MqttConnector) option" where
  "publishPending p backoff [] c = None"
| "publishPending p backoff (Lands # as) c =
     (let c1 = c\<lparr>mc_failingSince := 0, mc_published := mc_published c + 1, mc_effects := mc_effects c @ [Publish (pp_data p)]\<rparr>;
          c2 = (if pp_hasValue p then recordValue (pp_topic p) (pp_value p) (pp_timestamp p) c1 else c1)
      in Some (True, [], ack (pp_packet p) c2))"
| "publishPending p backoff (Dead # as) c = Some (False, [], c)"
| "publishPending p backoff (Fails now cancelled # as) c =
     (let c1 = c\<lparr>mc_publishErrors := mc_publishErrors c + 1,
                 mc_failingSince := (if mc_failingSince c = 0 then now else mc_failingSince c)\<rparr> in
      if cancelled then Some (False, [backoff], c1)
      else case publishPending p (min (backoff * 2) publishRetryMax) as c1 of
        None \<Rightarrow> None | Some (r, ws, c2) \<Rightarrow> Some (r, backoff # ws, c2))"

text \<open>The flush at shutdown: the frames in order, each with its attempts, until one does not land in time; those left are dropped.\<close>

fun drainQueue :: "(pendingPublish \<times> attempt list) list \<Rightarrow> MqttConnector \<Rightarrow> MqttConnector option" where
  "drainQueue [] c = Some c"
| "drainQueue ((p, as) # ps) c =
     (case publishPending p publishRetryMin as c of
        None \<Rightarrow> None
      | Some (True, ws, c1) \<Rightarrow> drainQueue ps c1
      | Some (False, ws, c1) \<Rightarrow> Some c1)"

definition publishDirect :: "pendingPublish \<Rightarrow> attempt list \<Rightarrow> MqttConnector \<Rightarrow> MqttConnector option" where
  "publishDirect p as c = (case publishPending p publishRetryMin as c of None \<Rightarrow> None | Some (r, ws, c1) \<Rightarrow> Some c1)"

text \<open>
  The pipeline while it runs: a packet arrives (and is handed over if the queue has room: otherwise the callback
  waits, so the step is not possible yet), the publisher takes the oldest message off the queue, or its attempts to
  publish the message taken have landed. A step also gives the message it handed over, if any.
\<close>

datatype pipe_event = Arrives mqtt_packet int | Takes | Lands_after "attempt list"

fun pipe_step :: "codecs \<Rightarrow> MqttConfig \<Rightarrow> pipe_event \<Rightarrow> MqttConnector \<times> pendingPublish option
    \<Rightarrow> ((MqttConnector \<times> pendingPublish option) \<times> pendingPublish list) option" where
  "pipe_step cd cfg (Arrives pk now) (c, taken) =
     (case onPublishReceived cd cfg pk now c of
        (c1, None) \<Rightarrow> Some ((c1, taken), [])
      | (c1, Some p) \<Rightarrow>
          if length (mc_queue c1) < publishQueueSize then Some ((c1\<lparr>mc_queue := mc_queue c1 @ [p]\<rparr>, taken), [p]) else None)"
| "pipe_step cd cfg Takes (c, taken) =
     (case (taken, mc_queue c) of
        (None, p # ps) \<Rightarrow> Some ((c\<lparr>mc_queue := ps\<rparr>, Some p), [])
      | _ \<Rightarrow> None)"
| "pipe_step cd cfg (Lands_after as) (c, taken) =
     (case taken of
        None \<Rightarrow> None
      | Some p \<Rightarrow>
        (case publishPending p publishRetryMin as c of
           Some (True, ws, c1) \<Rightarrow> Some ((c1, None), [])
         | _ \<Rightarrow> None))"

text \<open>Stopping: the message taken, if its publish was cut short, is flushed ahead of the queue; \<open>tries\<close> gives the attempts of each frame.\<close>

definition runPublisher_stop :: "(pendingPublish \<Rightarrow> attempt list) \<Rightarrow> MqttConnector \<times> pendingPublish option \<Rightarrow> MqttConnector option" where
  "runPublisher_stop tries st =
     (let carried = (case snd st of None \<Rightarrow> [] | Some p \<Rightarrow> [p]) in
      drainQueue (map (\<lambda>p. (p, tries p)) (carried @ mc_queue (fst st))) (fst st))"

section \<open>The freshness floor\<close>

definition dueForRepublish :: "(string list \<Rightarrow> string list) \<Rightarrow> MqttConfig \<Rightarrow> int \<Rightarrow> MqttConnector \<Rightarrow> string list" where
  "dueForRepublish ord cfg now c =
     (if mcf_FreshnessInterval cfg \<le> 0 then []
      else filter (\<lambda>t. case map_of (mc_lkv c) t of Some s \<Rightarrow> now - lk_lastEmit s \<ge> mcf_FreshnessInterval cfg | None \<Rightarrow> False)
             (ord (map fst (mc_lkv c))))"

text \<open>\<open>ok\<close> says whether the publish succeeds; its error is ignored.\<close>

definition republish :: "codecs \<Rightarrow> MqttConfig \<Rightarrow> int \<Rightarrow> (string \<Rightarrow> bool) \<Rightarrow> string \<Rightarrow> MqttConnector \<Rightarrow> MqttConnector" where
  "republish cd cfg now ok topic c =
     (case resolve (mc_topics c) topic of
        None \<Rightarrow> c\<lparr>mc_lkv := AList.delete topic (mc_lkv c)\<rparr>
      | Some (point, explicit) \<Rightarrow>
        (case map_of (mc_lkv c) topic of
           None \<Rightarrow> c
         | Some s \<Rightarrow>
           if now - lk_lastEmit s < mcf_FreshnessInterval cfg then c
           else let c1 = c\<lparr>mc_lkv := AList.update topic (s\<lparr>lk_lastEmit := now\<rparr>) (mc_lkv c)\<rparr> in
             (case encode_Event (c_json cd) (mqtt_event (c_time cd) cfg topic point (NumberValue (lk_value s)) now) of
                None \<Rightarrow> c1
              | Some j \<Rightarrow> if ok topic then c1\<lparr>mc_effects := mc_effects c1 @ [Republish (json_write (c_json cd) j)]\<rparr> else c1)))"

definition freshness_tick :: "(string list \<Rightarrow> string list) \<Rightarrow> codecs \<Rightarrow> MqttConfig \<Rightarrow> int \<Rightarrow> (string \<Rightarrow> bool) \<Rightarrow> MqttConnector \<Rightarrow> MqttConnector" where
  "freshness_tick ord cd cfg now ok c = fold (republish cd cfg now ok) (dueForRepublish ord cfg now c) c"

section \<open>Writing\<close>

fun contains_bad_verb :: "string \<Rightarrow> bool" where
  "contains_bad_verb (a # b # s) = (a = CHR ''%'' \<and> b = CHR ''!'' \<or> contains_bad_verb (b # s))"
| "contains_bad_verb _ = False"

text \<open>\<open>format_g\<close> is \<open>strconv.FormatFloat(v, 'g', -1, 64)\<close> and \<open>sprintf\<close> is \<open>fmt.Sprintf\<close> with one number.\<close>

definition formatPayload :: "(f64 \<Rightarrow> string) \<Rightarrow> (string \<Rightarrow> f64 \<Rightarrow> string) \<Rightarrow> string \<Rightarrow> f64 \<Rightarrow> string" where
  "formatPayload format_g sprintf tmpl v =
     (if tmpl = [] then format_g v
      else if contains_bad_verb (sprintf tmpl v) then format_g v else sprintf tmpl v)"

definition write_reply :: "bool \<Rightarrow> string \<Rightarrow> WriteReply" where
  "write_reply b s = \<lparr>wr_Success = b, wr_Response = s\<rparr>"

text \<open>
  The request decoded, whether the connection manager is there, and the error of the broker publish, if any.
  A reservation that would panic has no reply.
\<close>

definition handleWrite :: "(f64 \<Rightarrow> string) \<Rightarrow> (string \<Rightarrow> f64 \<Rightarrow> string) \<Rightarrow> WriteRequest option \<Rightarrow> bool \<Rightarrow> string option \<Rightarrow> MqttConnector
    \<Rightarrow> WriteReply option \<times> MqttConnector" where
  "handleWrite format_g sprintf oreq cm perr c =
     (case oreq of
        None \<Rightarrow> (Some (write_reply False ''bad_request''), c)
      | Some req \<Rightarrow>
        if wq_Release req then (Some (write_reply False ''bad_request''), c)
        else if \<not> cm then (Some (write_reply False ''not_connected''), c)
        else case TryReserve (wq_ControlID req) (mc_dedup c) of
          (IndexOutOfRange, d) \<Rightarrow> (None, c)
        | (InFlight, d) \<Rightarrow> (Some (write_reply False ''in_flight''), c\<lparr>mc_dedup := d\<rparr>)
        | (Cached r, d) \<Rightarrow> (Some r, c\<lparr>mc_dedup := d\<rparr>)
        | (Proceed, d) \<Rightarrow>
          (case map_of (ti_points (mc_topics c)) (wq_LocalID req) of
             Some p \<Rightarrow>
               if \<not> pt_Writable p \<or> pt_CommandTopic p = []
               then (Some (write_reply False ''not_writable''),
                     c\<lparr>mc_dedup := Complete (wq_ControlID req) (write_reply False ''not_writable'') d\<rparr>)
               else
                 let reply = (case perr of Some e \<Rightarrow> write_reply False (''device_error: '' @ e) | None \<Rightarrow> write_reply True ''ok'')
                 in (Some reply, c\<lparr>mc_dedup := Complete (wq_ControlID req) reply d,
                      mc_effects := mc_effects c @ [BrokerPublish (pt_CommandTopic p) (point_commandQoS p)
                        (formatPayload format_g sprintf (pt_PayloadTemplate p) (wq_Value req))]\<rparr>)
           | None \<Rightarrow> (Some (write_reply False ''not_writable''),
                     c\<lparr>mc_dedup := Complete (wq_ControlID req) (write_reply False ''not_writable'') d\<rparr>)))"

end
