(* ===== verification/Uplink_Facts.thy ===== *)
theory Uplink_Facts
  imports Uplink
begin

text \<open>
  What the uplink guarantees. The sink is an interface (\<open>frame_sink\<close>): it has frames pending on
  the current stream and frames a checkpoint has acknowledged. Inside it the session invariant is
  proved for every interleaving with the pump and every failure: the persisted cursor never passes a
  stored frame that no acknowledged checkpoint covered. A recording wrapper around an arbitrary sink
  provides the interface.
\<close>

section \<open>What the pump does to the rows\<close>

fun pump_op :: "buf_op \<Rightarrow> bool" where
  "pump_op (BWrite ok f) = True"
| "pump_op BWriteError = True"
| "pump_op BDuplicate = True"
| "pump_op op = False"

definition pump_world :: "world \<Rightarrow> bool" where
  "pump_world w \<longleftrightarrow> (\<forall>n. list_all pump_op (w_pump w n))"

text \<open>Rows only leave or arrive above every number used so far; the cursor and the uplink's counters stay.\<close>

definition pump_moves :: "Buffer \<Rightarrow> Buffer \<Rightarrow> bool" where
  "pump_moves b b' \<longleftrightarrow>
     (buffer_inv b \<longrightarrow> buffer_inv b'
        \<and> set (frames (buf_db b')) \<subseteq> set (frames (buf_db b)) \<union> {r. last_seq (buf_db b) < row_seq r}
        \<and> last_seq (buf_db b) \<le> last_seq (buf_db b'))
     \<and> cursor_row (buf_db b') = cursor_row (buf_db b)
     \<and> sent b' = sent b \<and> accepted b' = accepted b \<and> driftTotal b' = driftTotal b \<and> drifts b' = drifts b
     \<and> checkpoints b' = checkpoints b \<and> sendErrors b' = sendErrors b"

lemma pump_moves_refl: "pump_moves b b"
  by (auto simp: pump_moves_def)

lemma pump_moves_trans: "pump_moves a b \<Longrightarrow> pump_moves b c \<Longrightarrow> pump_moves a c"
  unfolding pump_moves_def by (intro conjI impI; simp; fastforce)

lemma Write_moves: "pump_moves b (snd (Write cd ok f b))"
proof (cases "Write cd ok f b")
  case (Pair r b')
  show ?thesis
  proof (cases r)
    case (Some e)
    with Pair have "b' = b" by (auto dest: Write_errD)
    with Pair show ?thesis by (simp add: pump_moves_refl)
  next
    case None
    with Pair obtain wire d1 es lu where ins: "sql_insert (frame_row cd f wire) (buf_db b) = Some d1"
      and b': "b' = b\<lparr>buf_db := sql_drop_oldest (capacity b) d1, written := written b + 1,
            evictedSent := evictedSent b + (if es > 0 then es else 0),
            lostUnsent := lostUnsent b + (if lu > 0 then lu else 0), notify := True\<rparr>"
      by (auto elim: Write_okE)
    have "set (frames (sql_drop_oldest (capacity b) d1)) \<subseteq> set (frames d1)"
      by (auto simp: sql_drop_oldest_def Let_def)
    moreover have "last_seq (sql_drop_oldest (capacity b) d1) = last_seq d1"
      "cursor_row (sql_drop_oldest (capacity b) d1) = cursor_row d1"
      by (simp_all add: sql_drop_oldest_def Let_def)
    ultimately show ?thesis
      using Write_inv [of b cd ok f] Pair None b' sql_insert_SomeD [OF ins]
      by (auto simp: pump_moves_def)
  qed
qed

lemma pump_op_moves: "pump_op op \<Longrightarrow> pump_moves b (buf_step cd op b)"
  using buf_step_inv [of b cd op]
  by (cases op) (simp_all add: Write_moves, simp_all add: pump_moves_def buf_record_defs)

lemma pump_run_moves: "list_all pump_op ops \<Longrightarrow> pump_moves b (buf_run cd ops b)"
  unfolding buf_run_def
proof (induction ops arbitrary: b)
  case (Cons op ops)
  then show ?case using pump_moves_trans [OF pump_op_moves [of op b cd]] by simp
qed (simp add: pump_moves_refl)

lemma access_moves: "pump_world w \<Longrightarrow> pump_moves (fs_buf s) (fs_buf (access cd w s))"
  by (simp add: access_def pump_world_def pump_run_moves)

lemma access_simps [simp]:
  "fs_sink (access cd w s) = fs_sink s" "fs_cursor (access cd w s) = fs_cursor s"
  "fs_batch (access cd w s) = fs_batch s" "fs_time (access cd w s) = Suc (fs_time s)"
  "fs_connected (access cd w s) = fs_connected s"
  by (simp_all add: access_def)

lemma record_db [simp]:
  "buf_db (RecordSent n b) = buf_db b" "buf_db (RecordAccepted n b) = buf_db b"
  "buf_db (RecordCheckpoint t b) = buf_db b" "buf_db (RecordSendError b) = buf_db b"
  "buf_db (RecordDrift p n b) = buf_db b"
  "capacity (RecordSent n b) = capacity b" "capacity (RecordAccepted n b) = capacity b"
  "capacity (RecordCheckpoint t b) = capacity b" "capacity (RecordSendError b) = capacity b"
  "capacity (RecordDrift p n b) = capacity b"
  by (simp_all add: buf_record_defs)

lemma record_drifts_db [simp]: "buf_db (record_drifts ds b) = buf_db b" "capacity (record_drifts ds b) = capacity b"
  unfolding record_drifts_def by (induction ds arbitrary: b) auto

section \<open>Induction on a drain that returns\<close>

lemma drain_run_induct [consumes 1, case_names idle fail more]:
  assumes "drain cd sk w cfg s = Some (r, s')"
    and "\<And>s. r = None \<Longrightarrow> s' = access cd w s
      \<Longrightarrow> (\<forall>sfs. ReadBatch cd (w_ok w (fs_time s)) (fs_cursor s) 32 (fs_buf (access cd w s)) = Inr sfs \<longrightarrow> sfs = [])
      \<Longrightarrow> P s"
    and "\<And>sfs s. ReadBatch cd (w_ok w (fs_time s)) (fs_cursor s) 32 (fs_buf (access cd w s)) = Inr sfs
      \<Longrightarrow> send_frames cd sk w cfg sfs (access cd w s) = (r, s') \<Longrightarrow> r \<noteq> None \<Longrightarrow> P s"
    and "\<And>sfs s s2. ReadBatch cd (w_ok w (fs_time s)) (fs_cursor s) 32 (fs_buf (access cd w s)) = Inr sfs
      \<Longrightarrow> sfs \<noteq> [] \<Longrightarrow> send_frames cd sk w cfg sfs (access cd w s) = (None, s2) \<Longrightarrow> P s2 \<Longrightarrow> P s"
  shows "P s"
proof -
  have "(cd' = cd \<and> sk' = sk \<and> w' = w \<and> cfg' = cfg \<and> y = (r, s')) \<longrightarrow> P s0"
    if "drain cd' sk' w' cfg' s0 = Some y" for cd' sk' w' cfg' s0 y
    using that
  proof (induction rule: drain.raw_induct [rotated, consumes 1, case_names step])
    case (step dr cd' sk' w' cfg' s0 y)
    show ?case
    proof (intro impI, elim conjE)
      assume eqs: "cd' = cd" "sk' = sk" "w' = w" "cfg' = cfg" "y = (r, s')"
      let ?rb = "ReadBatch cd (w_ok w (fs_time s0)) (fs_cursor s0) 32 (fs_buf (access cd w s0))"
      show "P s0"
      proof (cases "\<exists>sfs. ?rb = Inr sfs \<and> sfs \<noteq> []")
        case False
        with step.hyps eqs show ?thesis by (intro assms(2)) (auto split: sum.splits)
      next
        case True
        then obtain sfs where rb: "?rb = Inr sfs" "sfs \<noteq> []" by blast
        show ?thesis
        proof (cases "send_frames cd sk w cfg sfs (access cd w s0)")
          case (Pair r1 s1)
          then show ?thesis
            using step rb eqs assms(3) [OF rb(1)] assms(4) [OF rb] by (cases r1) auto
        qed
      qed
    qed
  qed
  with assms(1) show ?thesis by blast
qed

text \<open>How the composite runs return.\<close>

lemma DrainOnce_SomeE:
  assumes "DrainOnce cd sk w cfg s = Some (r, s')"
  obtains (failed) e where "drain cd sk w cfg (newSession cd w s) = Some (Some e, s')" "r = Some e"
  | (flushed) s1 where "drain cd sk w cfg (newSession cd w s) = Some (None, s1)" "checkpoint cd sk w s1 = (r, s')"
  using assms unfolding DrainOnce_def by (auto split: option.splits)

lemma Ingress_Run_SomeE:
  assumes "Ingress_Run cd sk fresh w cfg conns s = Some (ds, r, s')"
  obtains bo s1 where "Ingress_sessions cd sk fresh w cfg conns Ingress_backoff s = Some (ds, bo, s1)"
    "DrainOnce cd sk w (NewForwarder cfg) (s1\<lparr>fs_sink := fresh (fs_sink s1)\<rparr>) = Some (r, s')"
  using assms unfolding Ingress_Run_def by (auto split: option.splits)

lemma Ingress_sessions_ConsE:
  assumes "Ingress_sessions cd sk fresh w cfg ((evs, rnd, cancelled) # rest) bo s = Some (ds, bo', s')"
  obtains r s1 where "Run cd sk w cfg evs (s\<lparr>fs_sink := fresh (fs_sink s)\<rparr>) = Some (r, s1)"
    "r = None \<or> cancelled \<Longrightarrow> ds = [] \<and> bo' = Backoff_Reset bo \<and> s' = s1"
    "\<not> (r = None \<or> cancelled) \<Longrightarrow> \<exists>ds'. ds = fst (Backoff_Next rnd bo) # ds'
       \<and> Ingress_sessions cd sk fresh w cfg rest (snd (Backoff_Next rnd bo)) s1 = Some (ds', bo', s')"
  using assms by (auto split: option.splits prod.splits if_splits)

section \<open>The sink interface and the session invariant\<close>

definition row_frame_of :: "codec \<Rightarrow> row \<Rightarrow> TelemetryFrame option" where
  "row_frame_of cd r = map_option Frame (decode_row cd r)"

text \<open>A row is covered by a list of frames if it was at or below the starting cursor or its frame is in the list.\<close>

definition covered :: "codec \<Rightarrow> int \<Rightarrow> TelemetryFrame list \<Rightarrow> row \<Rightarrow> bool" where
  "covered cd c0 fs r \<longleftrightarrow> row_seq r \<le> c0 \<or> (\<exists>f \<in> set fs. row_frame_of cd r = Some f)"

text \<open>Every stored row up to \<open>c\<close> is covered, and \<open>c\<close> is a number already used.\<close>

definition covers_to :: "codec \<Rightarrow> int \<Rightarrow> TelemetryFrame list \<Rightarrow> int \<Rightarrow> Buffer \<Rightarrow> bool" where
  "covers_to cd c0 fs c b \<longleftrightarrow> c \<le> last_seq (buf_db b)
     \<and> (\<forall>r \<in> set (frames (buf_db b)). row_seq r \<le> c \<longrightarrow> covered cd c0 fs r)"

definition safe :: "codec \<Rightarrow> int \<Rightarrow> TelemetryFrame list \<Rightarrow> Buffer \<Rightarrow> bool" where
  "safe cd c0 fs b \<longleftrightarrow> buffer_inv b \<and> covers_to cd c0 fs (cursor_or_0 (buf_db b)) b"

lemma covered_mono: "covered cd c0 fs r \<Longrightarrow> set fs \<subseteq> set gs \<Longrightarrow> covered cd c0 gs r"
  by (auto simp: covered_def)

lemma covers_to_mono: "covers_to cd c0 fs c b \<Longrightarrow> set fs \<subseteq> set gs \<Longrightarrow> covers_to cd c0 gs c b"
  by (auto simp: covers_to_def intro: covered_mono)

lemma covers_to_moves:
  assumes "covers_to cd c0 fs c b" "pump_moves b b'" "buffer_inv b"
  shows "covers_to cd c0 fs c b'"
  using assms unfolding covers_to_def pump_moves_def by fastforce

lemma safe_moves:
  assumes "safe cd c0 fs b" "pump_moves b b'"
  shows "safe cd c0 fs b'"
  using assms covers_to_moves [OF _ assms(2)] unfolding safe_def pump_moves_def cursor_or_0_def by metis

lemma safe_same_db: "safe cd c0 fs b \<Longrightarrow> buf_db b' = buf_db b \<Longrightarrow> capacity b' = capacity b \<Longrightarrow> safe cd c0 fs b'"
  by (simp add: safe_def buffer_inv_def covers_to_def)

lemma covers_to_same_db: "covers_to cd c0 fs c b \<Longrightarrow> buf_db b' = buf_db b \<Longrightarrow> covers_to cd c0 fs c b'"
  by (simp add: covers_to_def)

lemma safe_mono: "safe cd c0 fs b \<Longrightarrow> set fs \<subseteq> set gs \<Longrightarrow> safe cd c0 gs b"
  unfolding safe_def by (auto intro: covers_to_mono)

lemma safe_advance:
  assumes "buffer_inv b" "covers_to cd c0 fs c b"
  shows "safe cd c0 fs (b\<lparr>buf_db := (buf_db b)\<lparr>cursor_row := Some c\<rparr>\<rparr>)"
  using assms by (simp add: safe_def buffer_inv_def db_inv_def covers_to_def)

text \<open>
  The rows a batch was read from: they are ahead of the session cursor, in order, already numbered,
  and nothing stored between the cursor and the last of them is missing.
\<close>

definition todo :: "row list \<Rightarrow> int \<Rightarrow> Buffer \<Rightarrow> bool" where
  "todo rs c b \<longleftrightarrow> increasing_on row_seq rs
     \<and> (\<forall>r \<in> set rs. c < row_seq r \<and> row_seq r \<le> last_seq (buf_db b))
     \<and> (\<forall>r \<in> set (frames (buf_db b)). c < row_seq r \<longrightarrow>
          r \<in> set rs \<or> (\<forall>q \<in> set rs. row_seq q < row_seq r))"

lemma todo_moves: "todo rs c b \<Longrightarrow> pump_moves b b' \<Longrightarrow> buffer_inv b \<Longrightarrow> todo rs c b'"
  unfolding todo_def pump_moves_def by fastforce

lemma todo_same_db: "todo rs c b \<Longrightarrow> buf_db b' = (buf_db b)\<lparr>cursor_row := x\<rparr> \<Longrightarrow> todo rs c b'"
  by (simp add: todo_def)

lemma todo_Cons: "todo (r # rs) c b \<Longrightarrow> todo rs (row_seq r) b"
  unfolding todo_def by fastforce

lemma todo_covers:
  assumes "todo (r # rs) c b" "covers_to cd c0 fs c b" "row_frame_of cd r = Some f"
  shows "covers_to cd c0 (fs @ [f]) (row_seq r) b"
  using assms unfolding covers_to_def todo_def covered_def by fastforce

lemma ReadBatch_todo:
  assumes "buffer_inv b" "ReadBatch cd ok c 32 b = Inr sfs"
  obtains rs where "todo rs c b" "map (decode_row cd) rs = map Some sfs" "set rs \<subseteq> set (frames (buf_db b))"
    "rs = take 32 (filter (\<lambda>r. c < row_seq r) (frames (buf_db b)))"
proof -
  let ?all = "filter (\<lambda>r. c < row_seq r) (frames (buf_db b))"
  let ?rs = "take 32 ?all"
  have inc: "increasing_on row_seq ?all" using assms(1) by (simp add: buffer_inv_def db_inv_def)
  have sel: "sql_select_after c 32 (buf_db b) = ?rs"
    using inc by (simp add: sql_select_after_def)
  have dec: "map (decode_row cd) rs = map Some sfs" if "decode_rows cd rs = Some sfs" for rs sfs
    using that by (induction rs arbitrary: sfs) (auto split: option.splits)
  have inc2: "increasing_on row_seq (?rs @ drop 32 ?all)" using inc by (simp only: append_take_drop_id)
  have "todo ?rs c b"
    unfolding todo_def
  proof (intro conjI ballI impI)
    show "increasing_on row_seq ?rs" using inc by (simp add: sorted_wrt_take)
  next
    fix r assume "r \<in> set ?rs"
    then have "r \<in> set ?all" by (rule in_set_takeD)
    then show "c < row_seq r" "row_seq r \<le> last_seq (buf_db b)"
      using assms(1) by (auto simp: buffer_inv_def db_inv_def)
  next
    fix r assume "r \<in> set (frames (buf_db b))" "c < row_seq r"
    then have "r \<in> set (?rs @ drop 32 ?all)" unfolding append_take_drop_id by simp
    then consider "r \<in> set ?rs" | "r \<in> set (drop 32 ?all)" by (auto simp only: set_append)
    then show "r \<in> set ?rs \<or> (\<forall>q \<in> set ?rs. row_seq q < row_seq r)"
      using inc2 unfolding sorted_wrt_append by cases blast+
  qed
  moreover have "set ?rs \<subseteq> set (frames (buf_db b))" by (auto dest: in_set_takeD)
  ultimately show thesis
    using that dec assms(2) sel by (auto simp: ReadBatch_def split: if_splits option.splits)
qed

lemma ApplyAck_cursor: "batch \<noteq> [] \<Longrightarrow> fst (ApplyAck batch acc) = SentSeq (last batch)"
  by (simp add: ApplyAck_def Let_def)

text \<open>
  The interface of a sink: what is pending on the open stream, what has been acknowledged, and that a
  fresh sink forgets nothing that was acknowledged.
\<close>

locale frame_sink =
  fixes sk :: "'k FrameSink"
    and pending :: "'k \<Rightarrow> TelemetryFrame list"
    and acked :: "'k \<Rightarrow> TelemetryFrame list"
    and fresh :: "'k \<Rightarrow> 'k"
  assumes send_ok: "sink_Send sk f k = (True, k') \<Longrightarrow> pending k' = pending k @ [f] \<and> acked k' = acked k"
    and send_err: "sink_Send sk f k = (False, k') \<Longrightarrow> acked k' = acked k"
    and checkpoint_ok: "sink_Checkpoint sk k = (Some n, k') \<Longrightarrow> acked k' = acked k @ pending k \<and> pending k' = []"
    and checkpoint_err: "sink_Checkpoint sk k = (None, k') \<Longrightarrow> acked k' = acked k"
    and acked_fresh: "acked (fresh k) = acked k"
    and pending_fresh: "pending (fresh k) = []"
begin

definition secure :: "codec \<Rightarrow> int \<Rightarrow> 'k forwardSession \<Rightarrow> bool" where
  "secure cd c0 s \<longleftrightarrow> safe cd c0 (acked (fs_sink s)) (fs_buf s)"

definition in_session :: "codec \<Rightarrow> int \<Rightarrow> 'k forwardSession \<Rightarrow> bool" where
  "in_session cd c0 s \<longleftrightarrow> secure cd c0 s
     \<and> covers_to cd c0 (acked (fs_sink s) @ pending (fs_sink s)) (fs_cursor s) (fs_buf s)
     \<and> (fs_batch s \<noteq> [] \<longrightarrow> fs_cursor s = SentSeq (last (fs_batch s)))"

lemma in_session_secure: "in_session cd c0 s \<Longrightarrow> secure cd c0 s"
  by (simp add: in_session_def)

lemma secure_buffer: "secure cd c0 s \<Longrightarrow> buffer_inv (fs_buf s)"
  by (simp add: secure_def safe_def)

lemma secure_access: "pump_world w \<Longrightarrow> secure cd c0 s \<Longrightarrow> secure cd c0 (access cd w s)"
  using safe_moves [OF _ access_moves] by (simp add: secure_def)

lemma in_session_access: "pump_world w \<Longrightarrow> in_session cd c0 s \<Longrightarrow> in_session cd c0 (access cd w s)"
  using covers_to_moves access_moves secure_access secure_buffer in_session_secure
  unfolding in_session_def access_simps by blast

lemma newSession_in_session:
  assumes "pump_world w" "secure cd c0 s"
  shows "in_session cd c0 (newSession cd w s)"
proof -
  let ?b = "fs_buf (access cd w s)"
  have sec: "secure cd c0 (access cd w s)" using assms by (rule secure_access)
  then have inv: "buffer_inv ?b" and cov: "covers_to cd c0 (acked (fs_sink s)) (cursor_or_0 (buf_db ?b)) ?b"
    by (simp_all add: secure_def safe_def)
  have "covers_to cd c0 fs 0 ?b" for fs
    using inv by (auto simp: covers_to_def buffer_inv_def db_inv_def)
  with cov have "covers_to cd c0 (acked (fs_sink s) @ pending (fs_sink s)) (Cursor ok ?b) ?b" for ok
    by (auto simp: Cursor_def intro: covers_to_mono)
  with sec show ?thesis by (simp add: newSession_def Let_def in_session_def secure_def)
qed

lemma checkpoint_session:
  assumes w: "pump_world w" and s: "in_session cd c0 s" and r: "checkpoint cd sk w s = (r, s')"
  shows "secure cd c0 s' \<and> (r = None \<longrightarrow> in_session cd c0 s' \<and> fs_cursor s' = fs_cursor s)
     \<and> (\<forall>rs. r = None \<longrightarrow> todo rs (fs_cursor s) (fs_buf s) \<longrightarrow> todo rs (fs_cursor s') (fs_buf s'))"
proof (cases "fs_batch s = []")
  case True
  with s r show ?thesis by (auto simp: checkpoint_def in_session_def)
next
  case False
  obtain res k where cp: "sink_Checkpoint sk (fs_sink s) = (res, k)" by fastforce
  show ?thesis
  proof (cases res)
    case None
    have "safe cd c0 (acked k) (RecordSendError (fs_buf s))"
      using s checkpoint_err [of "fs_sink s" k] cp None
      by (auto simp: in_session_def secure_def intro: safe_same_db)
    with r False cp None show ?thesis by (auto simp: checkpoint_def secure_def)
  next
    case (Some acc)
    let ?c = "fst (ApplyAck (fs_batch s) acc)"
    let ?b2 = "record_drifts (snd (ApplyAck (fs_batch s) acc)) (RecordCheckpoint (w_now w (fs_time s))
        (RecordAccepted acc (RecordSent (int (length (fs_batch s))) (fs_buf (access cd w s)))))"
    have c: "?c = fs_cursor s" using False s by (simp add: ApplyAck_cursor in_session_def)
    have k: "acked k = acked (fs_sink s) @ pending (fs_sink s)" "pending k = []"
      using checkpoint_ok cp Some by blast+
    have sa: "in_session cd c0 (access cd w s)" using in_session_access w s by blast
    have inv: "buffer_inv ?b2" using secure_buffer [OF in_session_secure [OF sa]] by (simp add: buffer_inv_def)
    have cov: "covers_to cd c0 (acked k) (fs_cursor s) ?b2"
      by (rule covers_to_same_db [of _ _ _ _ "fs_buf (access cd w s)"]) (use sa k in \<open>simp_all add: in_session_def\<close>)
    have safe2: "safe cd c0 (acked k) ?b2"
      by (rule safe_same_db [of _ _ _ "fs_buf (access cd w s)"])
         (use in_session_secure [OF sa] k in \<open>auto simp: secure_def intro: safe_mono\<close>)
    have todo2: "todo rs (fs_cursor s) (?b2\<lparr>buf_db := (buf_db ?b2)\<lparr>cursor_row := Some (fs_cursor s)\<rparr>\<rparr>)"
      if "todo rs (fs_cursor s) (fs_buf s)" for rs
    proof -
      have "todo rs (fs_cursor s) (fs_buf (access cd w s))"
        using that access_moves [OF w] secure_buffer [OF in_session_secure [OF s]] by (rule todo_moves)
      then show ?thesis by (rule todo_same_db) simp
    qed
    have st: "(r, s') = (case Advance_cursor (w_ok w (fs_time s)) (fs_cursor s) ?b2 of
        (Some e, b3) \<Rightarrow> (Some AdvanceFailed,
           (access cd w s)\<lparr>fs_sink := k, fs_cursor := fs_cursor s, fs_connected := True, fs_buf := b3\<rparr>)
      | (None, b3) \<Rightarrow> (None,
           (access cd w s)\<lparr>fs_sink := k, fs_cursor := fs_cursor s, fs_connected := True, fs_buf := b3, fs_batch := []\<rparr>))"
      using r False cp Some by (simp add: checkpoint_def Let_def c)
    show ?thesis
    proof (cases "w_ok w (fs_time s) Advance")
      case True
      have "safe cd c0 (acked k) (?b2\<lparr>buf_db := (buf_db ?b2)\<lparr>cursor_row := Some (fs_cursor s)\<rparr>\<rparr>)"
        by (rule safe_advance [OF inv cov])
      moreover have "covers_to cd c0 (acked k) (fs_cursor s) (?b2\<lparr>buf_db := (buf_db ?b2)\<lparr>cursor_row := Some (fs_cursor s)\<rparr>\<rparr>)"
        using cov by (simp add: covers_to_def)
      ultimately show ?thesis
        using st True k(2) todo2 by (simp add: Advance_cursor_def in_session_def secure_def)
    next
      case False
      then show ?thesis using st safe2 by (simp add: Advance_cursor_def secure_def)
    qed
  qed
qed

lemma send_frames_session:
  assumes w: "pump_world w" and "in_session cd c0 s" "todo rs (fs_cursor s) (fs_buf s)"
    and "map (decode_row cd) rs = map Some sfs"
    and "send_frames cd sk w cfg sfs s = (r, s')"
  shows "secure cd c0 s' \<and> (r = None \<longrightarrow> in_session cd c0 s')"
  using assms(2-)
proof (induction sfs arbitrary: rs s)
  case Nil
  then show ?case by (auto simp: in_session_def)
next
  case (Cons sf sfs)
  then obtain r0 rs' where rs: "rs = r0 # rs'" and r0: "decode_row cd r0 = Some sf"
    and rs': "map (decode_row cd) rs' = map Some sfs" by auto
  have f: "row_frame_of cd r0 = Some (Frame sf)" and sq: "Seq sf = row_seq r0"
    using r0 decode_row_Seq by (simp_all add: row_frame_of_def)
  obtain ok k where send: "sink_Send sk (Frame sf) (fs_sink s) = (ok, k)" by fastforce
  show ?case
  proof (cases ok)
    case False
    have "safe cd c0 (acked k) (RecordSendError (fs_buf s))"
      using Cons.prems(1) send_err [of "Frame sf" "fs_sink s" k] send False
      by (auto simp: in_session_def secure_def intro: safe_same_db)
    with Cons.prems(4) send False show ?thesis by (auto simp: secure_def)
  next
    case True
    let ?s1 = "s\<lparr>fs_sink := k,
        fs_batch := fs_batch s @ [\<lparr>SentSeq = Seq sf, SentPointID = PointId (Frame sf)\<rparr>], fs_cursor := Seq sf\<rparr>"
    have k: "pending k = pending (fs_sink s) @ [Frame sf]" "acked k = acked (fs_sink s)"
      using send_ok [of "Frame sf" "fs_sink s" k] send True by simp_all
    have "covers_to cd c0 ((acked (fs_sink s) @ pending (fs_sink s)) @ [Frame sf]) (row_seq r0) (fs_buf s)"
      using Cons.prems(1,2) f unfolding rs by (intro todo_covers [where c = "fs_cursor s"]) (auto simp: in_session_def)
    then have s1: "in_session cd c0 ?s1"
      using Cons.prems(1) k sq by (simp add: in_session_def secure_def)
    have todo1: "todo rs' (fs_cursor ?s1) (fs_buf ?s1)"
      using Cons.prems(2) todo_Cons unfolding rs by (simp add: sq)
    show ?thesis
    proof (cases "int (length (fs_batch ?s1)) \<ge> CheckpointSize cfg")
      case False
      then show ?thesis using Cons.IH [OF s1 todo1 rs'] Cons.prems(4) send True by (simp add: Let_def)
    next
      case big: True
      obtain e s2 where cp: "checkpoint cd sk w ?s1 = (e, s2)" by fastforce
      note ck = checkpoint_session [OF w s1 cp]
      show ?thesis
      proof (cases e)
        case None
        then show ?thesis
          using Cons.IH [of s2 rs'] ck todo1 rs' Cons.prems(4) send True big cp by (auto simp: Let_def)
      next
        case (Some x)
        then show ?thesis using ck Cons.prems(4) send True big cp by (auto simp: Let_def)
      qed
    qed
  qed
qed

lemma drain_session:
  assumes "pump_world w" "in_session cd c0 s" "drain cd sk w cfg s = Some (r, s')"
  shows "secure cd c0 s' \<and> (r = None \<longrightarrow> in_session cd c0 s')"
  using assms(3,2)
proof (induction rule: drain_run_induct)
  case (idle s)
  then show ?case using in_session_access [OF assms(1)] by (auto simp: in_session_def)
next
  case (fail sfs s)
  have a: "in_session cd c0 (access cd w s)" using fail.prems by (rule in_session_access [OF assms(1)])
  from ReadBatch_todo [OF secure_buffer [OF in_session_secure [OF a]] fail.hyps(1)]
  show ?case using send_frames_session [OF assms(1) a _ _ fail.hyps(2)] by (metis access_simps(2))
next
  case (more sfs s s2)
  have a: "in_session cd c0 (access cd w s)" using more.prems by (rule in_session_access [OF assms(1)])
  from ReadBatch_todo [OF secure_buffer [OF in_session_secure [OF a]] more.hyps(1)]
  show ?case using send_frames_session [OF assms(1) a _ _ more.hyps(3)] more.IH by (metis access_simps(2))
qed

lemma Run_loop_secure:
  assumes "pump_world w" "in_session cd c0 s" "Run_loop cd sk w cfg evs s = Some (r, s')"
  shows "secure cd c0 s'"
  using assms(2,3)
proof (induction evs arbitrary: s)
  case (Cons ev evs)
  have quiet: "in_session cd c0 (s\<lparr>fs_buf := (fs_buf s)\<lparr>notify := False\<rparr>\<rparr>)"
    using Cons.prems(1) by (simp add: in_session_def secure_def safe_def covers_to_def buffer_inv_def)
  from Cons.prems(2) obtain r1 s1 where step: "(case ev of
              CheckpointTick \<Rightarrow> Some (checkpoint cd sk w s)
            | WriteNotify \<Rightarrow> drain cd sk w cfg (s\<lparr>fs_buf := (fs_buf s)\<lparr>notify := False\<rparr>\<rparr>)
            | Backstop \<Rightarrow> drain cd sk w cfg s) = Some (r1, s1)"
    and rest: "case r1 of Some e \<Rightarrow> s' = s1 | None \<Rightarrow> Run_loop cd sk w cfg evs s1 = Some (r, s')"
    by (auto split: option.splits prod.splits)
  have "secure cd c0 s1 \<and> (r1 = None \<longrightarrow> in_session cd c0 s1)"
    using step checkpoint_session [OF assms(1) Cons.prems(1)] drain_session [OF assms(1) Cons.prems(1)]
      drain_session [OF assms(1) quiet]
    by (cases ev) auto
  with rest Cons.IH [of s1] show ?case by (cases r1) auto
qed (simp add: in_session_def)

lemma Run_secure:
  assumes "pump_world w" "secure cd c0 s" "Run cd sk w cfg evs s = Some (r, s')"
  shows "secure cd c0 s'"
  using Run_loop_secure [OF assms(1) newSession_in_session [OF assms(1,2)]] assms(3) by (simp add: Run_def)

lemma DrainOnce_secure:
  assumes "pump_world w" "secure cd c0 s" "DrainOnce cd sk w cfg s = Some (r, s')"
  shows "secure cd c0 s'"
  using assms(3)
proof (cases rule: DrainOnce_SomeE)
  case (failed e)
  then show ?thesis using drain_session [OF assms(1) newSession_in_session [OF assms(1,2)]] by blast
next
  case (flushed s1)
  then show ?thesis
    using drain_session [OF assms(1) newSession_in_session [OF assms(1,2)] flushed(1)]
      checkpoint_session [OF assms(1) _ flushed(2)] by blast
qed

lemma secure_fresh: "secure cd c0 s \<Longrightarrow> secure cd c0 (s\<lparr>fs_sink := fresh (fs_sink s)\<rparr>)"
  by (simp add: secure_def acked_fresh)

lemma Ingress_sessions_secure:
  assumes "pump_world w" "secure cd c0 s" "Ingress_sessions cd sk fresh w cfg conns bo s = Some (ds, bo', s')"
  shows "secure cd c0 s'"
  using assms(2,3)
proof (induction conns arbitrary: bo s ds)
  case (Cons conn conns)
  obtain evs rnd cancelled where conn: "conn = (evs, rnd, cancelled)" by (cases conn) auto
  obtain r s1 where run: "Run cd sk w cfg evs (s\<lparr>fs_sink := fresh (fs_sink s)\<rparr>) = Some (r, s1)"
    "r = None \<or> cancelled \<Longrightarrow> s' = s1"
    "\<not> (r = None \<or> cancelled) \<Longrightarrow> \<exists>ds'. Ingress_sessions cd sk fresh w cfg conns (snd (Backoff_Next rnd bo)) s1
       = Some (ds', bo', s')"
    using Ingress_sessions_ConsE [OF Cons.prems(2) [unfolded conn]] by metis
  then show ?case
    using Cons.IH Run_secure [OF assms(1) secure_fresh [OF Cons.prems(1)] run(1)] by metis
qed simp

lemma Ingress_Run_secure:
  assumes "pump_world w" "secure cd c0 s" "Ingress_Run cd sk fresh w cfg conns s = Some (ds, r, s')"
  shows "secure cd c0 s'"
  using Ingress_Run_SomeE [OF assms(3)] Ingress_sessions_secure [OF assms(1,2)] DrainOnce_secure [OF assms(1) secure_fresh]
  by metis

end

section \<open>The accounting of a session\<close>

text \<open>The drift one acknowledgement adds, as a function of the batch length and the count.\<close>

definition ack_drift :: "nat \<Rightarrow> int \<Rightarrow> int" where
  "ack_drift l n = (if int64 (int l - n) \<le> 0 then 0 else int (l - nat n))"

lemma ApplyAck_drift_sum:
  "batch \<noteq> [] \<Longrightarrow> sum_list (map snd (snd (ApplyAck batch acc))) = ack_drift (length batch) acc"
  by (auto simp: ApplyAck_def Let_def ack_drift_def count_drifts_sum)

lemma record_drifts_counters:
  "sent (record_drifts ds b) = sent b" "accepted (record_drifts ds b) = accepted b"
  "checkpoints (record_drifts ds b) = checkpoints b"
  "driftTotal (record_drifts ds b) = driftTotal b + sum_list (map snd ds)"
  unfolding record_drifts_def by (induction ds arbitrary: b) (auto simp: RecordDrift_def)

definition tally :: "Buffer \<Rightarrow> int \<times> int \<times> int \<times> int" where
  "tally b = (sent b, accepted b, driftTotal b, checkpoints b)"

fun tally_acks :: "(nat \<times> int) list \<Rightarrow> int \<times> int \<times> int \<times> int \<Rightarrow> int \<times> int \<times> int \<times> int" where
  "tally_acks [] t = t"
| "tally_acks ((l, n) # as) (a, b, c, d) = tally_acks as (a + int l, b + n, c + ack_drift l n, d + 1)"

lemma tally_acks_append: "tally_acks (as @ bs) t = tally_acks bs (tally_acks as t)"
  by (induction as t rule: tally_acks.induct) auto

lemma tally_moves: "pump_moves b b' \<Longrightarrow> tally b' = tally b"
  by (simp add: pump_moves_def tally_def)

locale audited_sink = frame_sink sk pending acked fresh
  for sk :: "'k FrameSink" and pending acked fresh +
  fixes acks :: "'k \<Rightarrow> (nat \<times> int) list"
  assumes acks_send: "sink_Send sk f k = (r, k') \<Longrightarrow> acks k' = acks k"
    and acks_ok: "sink_Checkpoint sk k = (Some n, k') \<Longrightarrow> acks k' = acks k @ [(length (pending k), n)]"
    and acks_err: "sink_Checkpoint sk k = (None, k') \<Longrightarrow> acks k' = acks k"
    and acks_fresh: "acks (fresh k) = acks k"
begin

definition audited :: "int \<times> int \<times> int \<times> int \<Rightarrow> 'k forwardSession \<Rightarrow> bool" where
  "audited t s \<longleftrightarrow> tally (fs_buf s) = tally_acks (acks (fs_sink s)) t"

definition matched :: "'k forwardSession \<Rightarrow> bool" where
  "matched s \<longleftrightarrow> length (fs_batch s) = length (pending (fs_sink s))"

lemma audited_access: "pump_world w \<Longrightarrow> audited t s \<Longrightarrow> audited t (access cd w s)"
  by (simp add: audited_def tally_moves [OF access_moves])

lemma checkpoint_audited:
  assumes "pump_world w" "audited t s" "matched s" "checkpoint cd sk w s = (r, s')"
  shows "audited t s' \<and> (r = None \<longrightarrow> matched s')"
proof (cases "fs_batch s = []")
  case True
  with assms show ?thesis by (auto simp: checkpoint_def)
next
  case False
  obtain res k where cp: "sink_Checkpoint sk (fs_sink s) = (res, k)" by fastforce
  have ta: "tally (fs_buf (access cd w s)) = tally_acks (acks (fs_sink s)) t"
    using audited_access [OF assms(1,2)] by (simp add: audited_def)
  show ?thesis
  proof (cases res)
    case None
    then show ?thesis
      using assms(2,4) False cp acks_err [of "fs_sink s" k]
      by (auto simp: checkpoint_def audited_def tally_def RecordSendError_def)
  next
    case (Some acc)
    note k = acks_ok [of "fs_sink s" acc k] checkpoint_ok [of "fs_sink s" acc k]
    from ta have "tally_acks (acks k) t
      = (sent (fs_buf (access cd w s)) + int (length (fs_batch s)), accepted (fs_buf (access cd w s)) + acc,
         driftTotal (fs_buf (access cd w s)) + ack_drift (length (fs_batch s)) acc,
         checkpoints (fs_buf (access cd w s)) + 1)"
      using k cp Some assms(3) by (simp add: tally_acks_append matched_def tally_def flip: ta)
    then show ?thesis
      using assms(4) False cp Some k ApplyAck_drift_sum [OF False, of acc]
      by (auto simp: checkpoint_def Let_def Advance_cursor_def audited_def tally_def record_drifts_counters
          matched_def RecordCheckpoint_def RecordAccepted_def RecordSent_def split: if_splits)
  qed
qed

lemma send_frames_audited:
  assumes "pump_world w" "audited t s" "matched s" "send_frames cd sk w cfg sfs s = (r, s')"
  shows "audited t s' \<and> (r = None \<longrightarrow> matched s')"
  using assms(2-)
proof (induction sfs arbitrary: s)
  case (Cons sf sfs)
  obtain ok k where send: "sink_Send sk (Frame sf) (fs_sink s) = (ok, k)" by fastforce
  let ?s1 = "s\<lparr>fs_sink := k,
      fs_batch := fs_batch s @ [\<lparr>SentSeq = Seq sf, SentPointID = PointId (Frame sf)\<rparr>], fs_cursor := Seq sf\<rparr>"
  have ak: "acks k = acks (fs_sink s)" using acks_send send by blast
  show ?case
  proof (cases ok)
    case False
    with Cons.prems send ak show ?thesis by (auto simp: audited_def tally_def RecordSendError_def)
  next
    case True
    have s1: "audited t ?s1" "matched ?s1"
      using Cons.prems(1,2) ak send_ok [of "Frame sf" "fs_sink s" k] send True
      by (simp_all add: audited_def matched_def)
    obtain e s2 where cp: "checkpoint cd sk w ?s1 = (e, s2)" by fastforce
    show ?thesis
      using checkpoint_audited [OF assms(1) s1 cp] Cons.IH [OF s1] Cons.IH [of s2] Cons.prems(3) send True cp
      by (auto simp: Let_def split: if_splits option.splits)
  qed
qed auto

lemma drain_audited:
  assumes "pump_world w" "audited t s" "matched s" "drain cd sk w cfg s = Some (r, s')"
  shows "audited t s' \<and> (r = None \<longrightarrow> matched s')"
  using assms(4,2,3)
proof (induction rule: drain_run_induct)
  case (idle s)
  then show ?case using audited_access [OF assms(1)] by (simp add: matched_def)
next
  case (fail sfs s)
  then show ?case
    using send_frames_audited [OF assms(1) audited_access [OF assms(1)], of t s] by (simp add: matched_def)
next
  case (more sfs s s2)
  then show ?case
    using send_frames_audited [OF assms(1) audited_access [OF assms(1)], of t s] by (auto simp: matched_def)
qed

lemma newSession_audited:
  assumes "pump_world w" "audited t s"
  shows "audited t (newSession cd w (s\<lparr>fs_sink := fresh (fs_sink s)\<rparr>))"
    "matched (newSession cd w (s\<lparr>fs_sink := fresh (fs_sink s)\<rparr>))"
proof -
  have "audited t (s\<lparr>fs_sink := fresh (fs_sink s)\<rparr>)"
    using assms(2) by (simp add: audited_def acks_fresh)
  from audited_access [OF assms(1) this, of cd]
  show "audited t (newSession cd w (s\<lparr>fs_sink := fresh (fs_sink s)\<rparr>))"
    by (simp add: newSession_def Let_def audited_def)
  show "matched (newSession cd w (s\<lparr>fs_sink := fresh (fs_sink s)\<rparr>))"
    by (simp add: newSession_def Let_def matched_def pending_fresh)
qed

lemma Run_loop_audited:
  assumes "pump_world w" "audited t s" "matched s" "Run_loop cd sk w cfg evs s = Some (r, s')"
  shows "audited t s'"
  using assms(2-)
proof (induction evs arbitrary: s)
  case (Cons ev evs)
  let ?q = "s\<lparr>fs_buf := (fs_buf s)\<lparr>notify := False\<rparr>\<rparr>"
  have quiet: "audited t ?q" "matched ?q" using Cons.prems(1,2) by (simp_all add: audited_def matched_def tally_def)
  from Cons.prems(3) obtain r1 s1 where step: "(case ev of
              CheckpointTick \<Rightarrow> Some (checkpoint cd sk w s)
            | WriteNotify \<Rightarrow> drain cd sk w cfg ?q
            | Backstop \<Rightarrow> drain cd sk w cfg s) = Some (r1, s1)"
    and rest: "case r1 of Some e \<Rightarrow> s' = s1 | None \<Rightarrow> Run_loop cd sk w cfg evs s1 = Some (r, s')"
    by (auto split: option.splits prod.splits)
  have "audited t s1 \<and> (r1 = None \<longrightarrow> matched s1)"
    using step checkpoint_audited [OF assms(1) Cons.prems(1,2)] drain_audited [OF assms(1) Cons.prems(1,2)]
      drain_audited [OF assms(1) quiet]
    by (cases ev) auto
  with rest Cons.IH [of s1] show ?case by (cases r1) auto
qed simp

lemma Ingress_sessions_audited:
  assumes "pump_world w" "audited t s" "Ingress_sessions cd sk fresh w cfg conns bo s = Some (ds, bo', s')"
  shows "audited t s'"
  using assms(2,3)
proof (induction conns arbitrary: bo s ds)
  case (Cons conn conns)
  obtain evs rnd cancelled where conn: "conn = (evs, rnd, cancelled)" by (cases conn) auto
  obtain r s1 where run: "Run cd sk w cfg evs (s\<lparr>fs_sink := fresh (fs_sink s)\<rparr>) = Some (r, s1)"
    "r = None \<or> cancelled \<Longrightarrow> s' = s1"
    "\<not> (r = None \<or> cancelled) \<Longrightarrow> \<exists>ds'. Ingress_sessions cd sk fresh w cfg conns (snd (Backoff_Next rnd bo)) s1
       = Some (ds', bo', s')"
    using Ingress_sessions_ConsE [OF Cons.prems(2) [unfolded conn]] by metis
  then show ?case
    using Cons.IH Run_loop_audited [OF assms(1) newSession_audited [OF assms(1) Cons.prems(1)] run(1) [unfolded Run_def]]
    by metis
qed simp

lemma DrainOnce_audited:
  assumes "pump_world w" "audited t s"
    and "DrainOnce cd sk w cfg (s\<lparr>fs_sink := fresh (fs_sink s)\<rparr>) = Some (r, s')"
  shows "audited t s'"
  using assms(3)
proof (cases rule: DrainOnce_SomeE)
  case (failed e)
  then show ?thesis using drain_audited [OF assms(1) newSession_audited [OF assms(1,2)]] by blast
next
  case (flushed s1)
  then show ?thesis
    using drain_audited [OF assms(1) newSession_audited [OF assms(1,2)] flushed(1)]
      checkpoint_audited [OF assms(1) _ _ flushed(2)] by blast
qed

lemma Ingress_Run_audited:
  assumes "pump_world w" "audited t s" "Ingress_Run cd sk fresh w cfg conns s = Some (ds, r, s')"
  shows "audited t s'"
  using Ingress_Run_SomeE [OF assms(3)] Ingress_sessions_audited [OF assms(1,2)] DrainOnce_audited [OF assms(1)]
  by metis

end

end
