(* ===== verification/Uplink_Delivery.thy ===== *)
theory Uplink_Delivery
  imports Uplink_Facts
begin

text \<open>
  The uplink's guarantees as theorems on the model: a recording wrapper makes every sink an audited
  one, the gRPC sink provides the interface from the documented behaviour of a client stream (which
  the mock Building OS has), drains return once the pump pauses, and over a healthy link a flush
  delivers the whole backlog in order.
\<close>

section \<open>A recording wrapper around any sink\<close>

text \<open>State: the sink's own, the frames pending, the frames acknowledged, and the acknowledgements.\<close>

type_synonym 'k recorder = "'k \<times> TelemetryFrame list \<times> TelemetryFrame list \<times> (nat \<times> int) list"

definition recording :: "'k FrameSink \<Rightarrow> 'k recorder FrameSink" where
  "recording sk =
     \<lparr>sink_Send = (\<lambda>f (k, p, a, l). case sink_Send sk f k of
         (ok, k') \<Rightarrow> (ok, (k', if ok then p @ [f] else p, a, l))),
      sink_Checkpoint = (\<lambda>(k, p, a, l). case sink_Checkpoint sk k of
         (None, k') \<Rightarrow> (None, (k', p, a, l))
       | (Some n, k') \<Rightarrow> (Some n, (k', [], a @ p, l @ [(length p, n)])))\<rparr>"

definition rec_pending :: "'k recorder \<Rightarrow> TelemetryFrame list" where
  "rec_pending k = fst (snd k)"

definition rec_acked :: "'k recorder \<Rightarrow> TelemetryFrame list" where
  "rec_acked k = fst (snd (snd k))"

definition rec_acks :: "'k recorder \<Rightarrow> (nat \<times> int) list" where
  "rec_acks k = snd (snd (snd k))"

definition rec_fresh :: "('k \<Rightarrow> 'k) \<Rightarrow> 'k recorder \<Rightarrow> 'k recorder" where
  "rec_fresh fr k = (fr (fst k), [], rec_acked k, rec_acks k)"

lemmas recorder_defs = recording_def rec_pending_def rec_acked_def rec_acks_def rec_fresh_def

interpretation rec_sink: audited_sink "recording sk" rec_pending rec_acked "rec_fresh fr" rec_acks
  for sk :: "'k FrameSink" and fr
  by unfold_locales (auto simp: recorder_defs split: prod.splits option.splits if_splits)

section \<open>The gRPC sink\<close>

text \<open>
  What the code relies on of a client stream: a new stream is empty, a send that succeeds is in
  flight on it, and a close that is answered commits what was in flight; a call that fails commits
  nothing.
\<close>

locale telemetry_rpc =
  fixes cl :: "'c ingress_client"
    and inflight :: "'c \<Rightarrow> TelemetryFrame list"
    and committed :: "'c \<Rightarrow> TelemetryFrame list"
  assumes open_stream: "StreamTelemetry cl c = (ok, c') \<Longrightarrow> committed c' = committed c \<and> (ok \<longrightarrow> inflight c' = [])"
    and send_stream: "stream_Send cl f c = (ok, c') \<Longrightarrow>
      committed c' = committed c \<and> (ok \<longrightarrow> inflight c' = inflight c @ [f])"
    and close_stream: "CloseAndRecv cl c = (res, c') \<Longrightarrow>
      committed c' = (case res of None \<Rightarrow> committed c | Some n \<Rightarrow> committed c @ inflight c)"
begin

definition sink_pending :: "bool \<times> 'c \<Rightarrow> TelemetryFrame list" where
  "sink_pending g = (if fst g then inflight (snd g) else [])"

lemma grpc_send:
  assumes "grpcSink_Send cl f g = (ok, g')"
  shows "committed (snd g') = committed (snd g) \<and> (ok \<longrightarrow> sink_pending g' = sink_pending g @ [f])"
proof (cases g)
  case (Pair op c)
  obtain opened c1 where o: "StreamTelemetry cl c = (opened, c1)" by fastforce
  note law = open_stream [OF o] send_stream [of f c1] send_stream [of f c]
  show ?thesis
    using assms law Pair o
    by (cases op; cases opened) (auto simp: grpcSink_Send_def sink_pending_def split: prod.splits)
qed

lemma grpc_checkpoint:
  assumes "grpcSink_Checkpoint cl g = (res, g')"
  shows "committed (snd g') = (case res of None \<Rightarrow> committed (snd g) | Some n \<Rightarrow> committed (snd g) @ sink_pending g)
     \<and> (res \<noteq> None \<longrightarrow> sink_pending g' = [])"
  using assms close_stream [of "snd g"]
  by (cases g) (auto simp: grpcSink_Checkpoint_def sink_pending_def split: prod.splits if_splits option.splits)

end

sublocale telemetry_rpc \<subseteq> grpc_sink: frame_sink "grpcSink cl" sink_pending "\<lambda>g. committed (snd g)" "\<lambda>g. (False, snd g)"
  using grpc_send grpc_checkpoint
  by unfold_locales (fastforce simp: grpcSink_def sink_pending_def)+

text \<open>
  The mock Building OS behind a connection that does not fail: its counter, the frames of the open
  stream, and everything it has acknowledged.
\<close>

type_synonym mock_conn = "int \<times> TelemetryFrame list \<times> TelemetryFrame list"

definition mockbos_client :: "mock_conn ingress_client" where
  "mockbos_client =
     \<lparr>StreamTelemetry = (\<lambda>(n, fs, done). (True, (n, [], done))),
      stream_Send = (\<lambda>f (n, fs, done). (True, (n, fs @ [f], done))),
      CloseAndRecv = (\<lambda>(n, fs, done). case mockbos_StreamTelemetry fs n of
         (ack, n') \<Rightarrow> (Some ack, (n', [], done @ fs)))\<rparr>"

interpretation mockbos: telemetry_rpc mockbos_client "\<lambda>c. fst (snd c)" "\<lambda>c. snd (snd c)"
  by unfold_locales (auto simp: mockbos_client_def split: prod.splits)

section \<open>Drains return\<close>

lemma checkpoint_cases:
  assumes "checkpoint cd sk w s = (r, s')"
  obtains (empty) "fs_batch s = []" "s' = s" "r = None"
  | (refused) "fs_time s' = fs_time s" "fs_cursor s' = fs_cursor s" "buf_db (fs_buf s') = buf_db (fs_buf s)"
      "capacity (fs_buf s') = capacity (fs_buf s)"
  | (acked) x where "fs_batch s \<noteq> []" "fs_time s' = Suc (fs_time s)" "fs_cursor s' = SentSeq (last (fs_batch s))"
      "buf_db (fs_buf s') = (buf_db (fs_buf (access cd w s)))\<lparr>cursor_row := x\<rparr>"
      "capacity (fs_buf s') = capacity (fs_buf (access cd w s))"
proof (cases "fs_batch s = []")
  case True
  with assms have "s' = s" "r = None" by (simp_all add: checkpoint_def)
  then show thesis by (rule that(1) [OF True])
next
  case False
  show thesis
  proof (cases "sink_Checkpoint sk (fs_sink s)")
    case (Pair res k)
    show thesis
    proof (cases res)
      case None
      have "s' = s\<lparr>fs_sink := k, fs_buf := RecordSendError (fs_buf s), fs_connected := False\<rparr>"
        using assms False Pair None by (simp add: checkpoint_def)
      then show thesis by (intro that(2)) simp_all
    next
      case (Some acc)
      define b2 where "b2 = record_drifts (snd (ApplyAck (fs_batch s) acc)) (RecordCheckpoint (w_now w (fs_time s))
        (RecordAccepted acc (RecordSent (int (length (fs_batch s))) (fs_buf (access cd w s)))))"
      have b2: "buf_db b2 = buf_db (fs_buf (access cd w s))" "capacity b2 = capacity (fs_buf (access cd w s))"
        by (simp_all add: b2_def)
      let ?c = "SentSeq (last (fs_batch s))"
      show thesis
      proof (cases "w_ok w (fs_time s) Advance")
        case True
        have "s' = (access cd w s)\<lparr>fs_sink := k, fs_cursor := ?c, fs_connected := True,
            fs_buf := b2\<lparr>buf_db := (buf_db b2)\<lparr>cursor_row := Some ?c\<rparr>\<rparr>, fs_batch := []\<rparr>"
          using assms False Pair Some True by (simp add: checkpoint_def Let_def ApplyAck_cursor Advance_cursor_def b2_def)
        then show thesis by (intro that(3) [of "Some ?c"]) (simp_all add: False b2)
      next
        case no: False
        have "s' = (access cd w s)\<lparr>fs_sink := k, fs_cursor := ?c, fs_connected := True, fs_buf := b2\<rparr>"
          using assms False Pair Some no by (simp add: checkpoint_def Let_def ApplyAck_cursor Advance_cursor_def b2_def)
        then show thesis
          by (intro that(3) [of "cursor_row (buf_db b2)"]) (simp_all add: False b2)
      qed
    qed
  qed
qed

lemma access_inv: "buffer_inv (fs_buf s) \<Longrightarrow> buffer_inv (fs_buf (access cd w s))"
  using buf_run_inv_ledger by (simp add: access_def)

lemma access_quiet: "w_pump w (fs_time s) = [] \<Longrightarrow> fs_buf (access cd w s) = fs_buf s"
  by (simp add: access_def buf_run_def)

text \<open>What every part of a session does to the buffer and the access count.\<close>

definition progress :: "world \<Rightarrow> 'k forwardSession \<Rightarrow> 'k forwardSession \<Rightarrow> bool" where
  "progress w s s' \<longleftrightarrow> fs_time s \<le> fs_time s' \<and> (buffer_inv (fs_buf s) \<longrightarrow> buffer_inv (fs_buf s'))
     \<and> ((\<forall>n \<ge> fs_time s. w_pump w n = []) \<longrightarrow> frames (buf_db (fs_buf s')) = frames (buf_db (fs_buf s)))"

lemma progress_trans: "progress w a b \<Longrightarrow> progress w b c \<Longrightarrow> progress w a c"
  unfolding progress_def by (metis le_trans)

lemma progress_same_db:
  "fs_time s' = fs_time s \<Longrightarrow> buf_db (fs_buf s') = buf_db (fs_buf s) \<Longrightarrow> capacity (fs_buf s') = capacity (fs_buf s)
   \<Longrightarrow> progress w s s'"
  by (simp add: progress_def buffer_inv_def)

lemma progress_access: "progress w s (access cd w s)"
  using access_inv [of s cd w] access_quiet [of w s cd] by (simp add: progress_def)

lemma checkpoint_progress:
  assumes "checkpoint cd sk w s = (r, s')"
  shows "progress w s s'"
  using assms
proof (cases rule: checkpoint_cases)
  case (acked x)
  have "buffer_inv (fs_buf s')" if "buffer_inv (fs_buf (access cd w s))"
    using that acked(4,5) by (simp add: buffer_inv_def db_inv_def)
  then have "progress w (access cd w s) s'"
    using acked(2,4) by (simp add: progress_def)
  with progress_access show ?thesis by (rule progress_trans)
qed (auto intro: progress_same_db)

lemma checkpoint_cursor:
  assumes "checkpoint cd sk w s = (r, s')" "fs_batch s \<noteq> []" "SentSeq (last (fs_batch s)) = fs_cursor s"
  shows "fs_cursor s' = fs_cursor s"
  using assms(1) by (cases rule: checkpoint_cases) (simp_all add: assms)

text \<open>One round of the send loop.\<close>

lemma send_frames_ConsE:
  fixes sf s k
  defines "s1 \<equiv> s\<lparr>fs_sink := k,
     fs_batch := fs_batch s @ [\<lparr>SentSeq = Seq sf, SentPointID = PointId (Frame sf)\<rparr>], fs_cursor := Seq sf\<rparr>"
  assumes "send_frames cd sk w cfg (sf # sfs) s = (r, s')" "sink_Send sk (Frame sf) (fs_sink s) = (ok, k)"
  obtains (refused) "\<not> ok" "r = Some SendFailed"
      "s' = s\<lparr>fs_sink := k, fs_buf := RecordSendError (fs_buf s), fs_connected := False\<rparr>"
  | (stopped) e where "ok" "CheckpointSize cfg \<le> int (length (fs_batch s1))" "checkpoint cd sk w s1 = (Some e, s')" "r = Some e"
  | (rest) s2 where "ok" "send_frames cd sk w cfg sfs s2 = (r, s')"
      "s2 = s1 \<and> int (length (fs_batch s1)) < CheckpointSize cfg
       \<or> checkpoint cd sk w s1 = (None, s2) \<and> CheckpointSize cfg \<le> int (length (fs_batch s1))"
proof (cases ok)
  case False
  with assms(2,3) that(1) show thesis by simp
next
  case True
  show thesis
  proof (cases "int (length (fs_batch s1)) \<ge> CheckpointSize cfg")
    case False
    then show thesis using that(3) [of s1] assms(2,3) True by (simp add: s1_def Let_def)
  next
    case big: True
    obtain e s2 where "checkpoint cd sk w s1 = (e, s2)" by fastforce
    then show thesis
      using that(2) that(3) [of s2] assms(2,3) True big by (cases e) (simp_all add: s1_def Let_def)
  qed
qed

lemma send_frames_progress:
  assumes "send_frames cd sk w cfg sfs s = (r, s')"
  shows "progress w s s' \<and> (r = None \<longrightarrow> sfs \<noteq> [] \<longrightarrow> fs_cursor s' = Seq (last sfs))"
  using assms
proof (induction sfs arbitrary: s)
  case (Cons sf sfs)
  obtain ok k where send: "sink_Send sk (Frame sf) (fs_sink s) = (ok, k)" by fastforce
  define s1 where "s1 = s\<lparr>fs_sink := k,
     fs_batch := fs_batch s @ [\<lparr>SentSeq = Seq sf, SentPointID = PointId (Frame sf)\<rparr>], fs_cursor := Seq sf\<rparr>"
  have p1: "progress w s s1" by (rule progress_same_db) (simp_all add: s1_def)
  show ?case
    using Cons.prems send
  proof (cases rule: send_frames_ConsE)
    case refused
    then show ?thesis by (auto intro: progress_same_db)
  next
    case (stopped e)
    with checkpoint_progress [of cd sk w s1] p1 show ?thesis by (auto simp: s1_def intro: progress_trans)
  next
    case (rest s2)
    have "progress w s s2" and c: "fs_cursor s2 = Seq sf"
      using rest(3) p1 checkpoint_progress [of cd sk w s1 None s2] checkpoint_cursor [of cd sk w s1 None s2]
      by (auto simp: s1_def intro: progress_trans)
    with Cons.IH [OF rest(2)] have "progress w s s'" by (auto intro: progress_trans)
    with Cons.IH [OF rest(2)] rest(2) c show ?thesis by (cases sfs) auto
  qed
qed (simp add: progress_same_db)

text \<open>Sending what a read returned moves the cursor beyond at least one stored row.\<close>

definition ahead :: "'k forwardSession \<Rightarrow> row list" where
  "ahead s = filter (\<lambda>r. fs_cursor s < row_seq r) (frames (buf_db (fs_buf s)))"

lemma read_last_ahead:
  assumes "buffer_inv b" "ReadBatch cd ok c 32 b = Inr sfs" "sfs \<noteq> []"
  shows "filter (\<lambda>r. Seq (last sfs) < row_seq r) (frames (buf_db b))
    = drop 32 (filter (\<lambda>r. c < row_seq r) (frames (buf_db b)))"
    and "length sfs = min 32 (length (filter (\<lambda>r. c < row_seq r) (frames (buf_db b))))"
proof -
  let ?all = "filter (\<lambda>r. c < row_seq r) (frames (buf_db b))"
  obtain rs where dec: "map (decode_row cd) rs = map Some sfs" and rs: "rs = take 32 ?all"
    using ReadBatch_todo [OF assms(1,2)] by metis
  have ne: "rs \<noteq> []" using dec assms(3) by auto
  have "decode_row cd (last rs) = Some (last sfs)"
    using dec ne assms(3) by (metis last_map)
  then have seq: "Seq (last sfs) = row_seq (last rs)" by (rule decode_row_Seq)
  have inc: "increasing_on row_seq (rs @ drop 32 ?all)"
    using assms(1) unfolding rs append_take_drop_id by (simp add: buffer_inv_def db_inv_def)
  have last: "\<forall>r \<in> set rs. \<not> row_seq (last rs) < row_seq r"
    using inc increasing_on_le_last [of row_seq rs] by (auto simp: sorted_wrt_append not_less)
  have beyond: "\<forall>r \<in> set (drop 32 ?all). row_seq (last rs) < row_seq r"
    using inc last_in_set [OF ne] by (simp only: sorted_wrt_append) blast
  have c: "c < row_seq (last rs)"
    using last_in_set [OF ne] unfolding rs by (auto dest: in_set_takeD)
  have "filter (\<lambda>r. row_seq (last rs) < row_seq r) (frames (buf_db b))
      = filter (\<lambda>r. row_seq (last rs) < row_seq r) ?all"
    using c by (auto intro!: filter_cong)
  also have "\<dots> = filter (\<lambda>r. row_seq (last rs) < row_seq r) (rs @ drop 32 ?all)"
    unfolding rs append_take_drop_id ..
  also have "\<dots> = drop 32 ?all"
    using last beyond by (simp only: filter_append) (simp add: filter_empty_conv)
  finally show "filter (\<lambda>r. Seq (last sfs) < row_seq r) (frames (buf_db b)) = drop 32 ?all"
    by (simp only: seq)
  show "length sfs = min 32 (length ?all)"
    using arg_cong [OF dec, of length] unfolding rs by simp
qed

lemma drain_some:
  assumes "buffer_inv (fs_buf s)" "\<forall>n \<ge> N. w_pump w n = []"
  shows "\<exists>r s'. drain cd sk w cfg s = Some (r, s') \<and> buffer_inv (fs_buf s') \<and> fs_time s \<le> fs_time s'"
  using assms(1)
proof (induction s rule: wf_induct_rule
    [OF wf_inv_image [OF wf_lex_prod [OF wf_less_than wf_less_than], where f = "\<lambda>s. (N - fs_time s, length (ahead s))"]])
  case (1 s)
  let ?a = "access cd w s"
  have a: "buffer_inv (fs_buf ?a)" using 1(2) by (rule access_inv)
  show ?case
  proof (cases "ReadBatch cd (w_ok w (fs_time s)) (fs_cursor s) 32 (fs_buf ?a)")
    case (Inl e)
    then show ?thesis using a by (simp add: drain.simps [of cd sk w cfg s])
  next
    case (Inr sfs)
    show ?thesis
    proof (cases "sfs = []")
      case True
      with Inr a show ?thesis by (simp add: drain.simps [of cd sk w cfg s])
    next
      case False
      obtain r s2 where sf: "send_frames cd sk w cfg sfs ?a = (r, s2)" by fastforce
      have pr: "Suc (fs_time s) \<le> fs_time s2" "r = None \<longrightarrow> fs_cursor s2 = Seq (last sfs)" "buffer_inv (fs_buf s2)"
        "(\<forall>n \<ge> Suc (fs_time s). w_pump w n = []) \<longrightarrow> frames (buf_db (fs_buf s2)) = frames (buf_db (fs_buf ?a))"
        using send_frames_progress [OF sf] a False by (simp_all add: progress_def)
      show ?thesis
      proof (cases r)
        case (Some e)
        with Inr False sf pr(1,3) show ?thesis by (simp add: drain.simps [of cd sk w cfg s])
      next
        case None
        have "N - fs_time s2 < N - fs_time s \<or> N - fs_time s2 = N - fs_time s \<and> length (ahead s2) < length (ahead s)"
        proof (cases "fs_time s < N")
          case True
          with pr(1) show ?thesis by auto
        next
          case quiet: False
          then have q: "fs_buf ?a = fs_buf s" using assms(2) by (intro access_quiet) simp
          have "frames (buf_db (fs_buf s2)) = frames (buf_db (fs_buf s))"
            using pr(4) assms(2) quiet q by simp
          then have "ahead s2 = drop 32 (ahead s)" and "length sfs = min 32 (length (ahead s))"
            using read_last_ahead [OF a Inr False] pr(2) None q by (simp_all add: ahead_def)
          moreover have "0 < length sfs" using False by simp
          ultimately have "length (ahead s2) < length (ahead s)" by (simp only: length_drop)
          with quiet pr(1) show ?thesis by simp
        qed
        then obtain r' s' where "drain cd sk w cfg s2 = Some (r', s')" "buffer_inv (fs_buf s')" "fs_time s2 \<le> fs_time s'"
          using 1(1) [of s2] pr(3) by auto
        with Inr False sf None pr(1) show ?thesis by (simp add: drain.simps [of cd sk w cfg s])
      qed
    qed
  qed
qed

lemma Run_loop_some:
  assumes "buffer_inv (fs_buf s)" "\<forall>n \<ge> N. w_pump w n = []"
  shows "\<exists>r s'. Run_loop cd sk w cfg evs s = Some (r, s') \<and> buffer_inv (fs_buf s')"
  using assms(1)
proof (induction evs arbitrary: s)
  case (Cons ev evs)
  have "buffer_inv (fs_buf (s\<lparr>fs_buf := (fs_buf s)\<lparr>notify := False\<rparr>\<rparr>))"
    using Cons.prems by (simp add: buffer_inv_def)
  from drain_some [OF this assms(2), of cd sk cfg] drain_some [OF Cons.prems assms(2), of cd sk cfg]
  obtain r s1 where "(case ev of CheckpointTick \<Rightarrow> Some (checkpoint cd sk w s)
      | WriteNotify \<Rightarrow> drain cd sk w cfg (s\<lparr>fs_buf := (fs_buf s)\<lparr>notify := False\<rparr>\<rparr>)
      | Backstop \<Rightarrow> drain cd sk w cfg s) = Some (r, s1)" "buffer_inv (fs_buf s1)"
    using checkpoint_progress [of cd sk w s] Cons.prems
    by (cases ev; cases "checkpoint cd sk w s") (auto simp: progress_def)
  with Cons.IH [of s1] show ?case by (cases r) auto
qed simp

lemma newSession_inv: "buffer_inv (fs_buf s) \<Longrightarrow> buffer_inv (fs_buf (newSession cd w s))"
  using access_inv [of s cd w] by (simp add: newSession_def Let_def)

lemma Ingress_sessions_some:
  assumes "buffer_inv (fs_buf s)" "\<forall>n \<ge> N. w_pump w n = []"
  shows "\<exists>ds bo' s'. Ingress_sessions cd sk fresh w cfg conns bo s = Some (ds, bo', s') \<and> buffer_inv (fs_buf s')"
  using assms(1)
proof (induction conns arbitrary: bo s)
  case (Cons conn conns)
  obtain evs rnd cancelled where conn: "conn = (evs, rnd, cancelled)" by (cases conn) auto
  have "buffer_inv (fs_buf (newSession cd w (s\<lparr>fs_sink := fresh (fs_sink s)\<rparr>)))"
    using Cons.prems by (intro newSession_inv) simp
  from Run_loop_some [OF this assms(2), of cd sk "NewForwarder cfg" evs]
  obtain r s1 where run: "Run cd sk w cfg evs (s\<lparr>fs_sink := fresh (fs_sink s)\<rparr>) = Some (r, s1)" "buffer_inv (fs_buf s1)"
    unfolding Run_def by blast
  from Cons.IH [OF run(2), of "snd (Backoff_Next rnd bo)"] run show ?case
    by (cases "Backoff_Next rnd bo") (auto simp: conn)
qed simp

lemma DrainOnce_some:
  assumes "buffer_inv (fs_buf s)" "\<forall>n \<ge> N. w_pump w n = []"
  shows "\<exists>r s'. DrainOnce cd sk w cfg s = Some (r, s')"
  using drain_some [where cd = cd and sk = sk and cfg = cfg, OF newSession_inv [OF assms(1), of cd w] assms(2)]
  by (auto simp: DrainOnce_def split: option.splits)

section \<open>Delivery over a healthy link\<close>

definition healthy :: "world \<Rightarrow> bool" where
  "healthy w \<longleftrightarrow> (\<forall>n st. w_ok w n st) \<and> (\<forall>n. w_pump w n = [])"

definition reliable :: "'k FrameSink \<Rightarrow> bool" where
  "reliable sk \<longleftrightarrow> (\<forall>f k. fst (sink_Send sk f k)) \<and> (\<forall>k. fst (sink_Checkpoint sk k) \<noteq> None)"

lemma healthy_quiet: "healthy w \<Longrightarrow> \<forall>n \<ge> N. w_pump w n = []"
  by (simp add: healthy_def)

lemma decoded_frames:
  "map (decode_row cd) rs = map Some sfs \<Longrightarrow> map (\<lambda>x. the (row_frame_of cd x)) rs = map Frame sfs"
proof (induction rs arbitrary: sfs)
  case (Cons x rs)
  then show ?case by (cases sfs) (auto simp: row_frame_of_def)
qed simp

context frame_sink
begin

definition outbox :: "'k forwardSession \<Rightarrow> TelemetryFrame list" where
  "outbox s = acked (fs_sink s) @ pending (fs_sink s)"

definition synced :: "'k forwardSession \<Rightarrow> bool" where
  "synced s \<longleftrightarrow> (if fs_batch s = [] then pending (fs_sink s) = [] \<and> cursor_or_0 (buf_db (fs_buf s)) = fs_cursor s
     else SentSeq (last (fs_batch s)) = fs_cursor s)"

lemma checkpoint_delivers:
  assumes "healthy w" "reliable sk" "synced s" "checkpoint cd sk w s = (r, s')"
  shows "r = None \<and> fs_batch s' = [] \<and> synced s' \<and> outbox s' = outbox s"
proof (cases "fs_batch s = []")
  case True
  with assms show ?thesis by (auto simp: checkpoint_def)
next
  case False
  obtain acc k where cp: "sink_Checkpoint sk (fs_sink s) = (Some acc, k)"
    using assms(2) unfolding reliable_def by (metis not_Some_eq prod.collapse)
  have "w_ok w (fs_time s) Advance" using assms(1) by (simp add: healthy_def)
  with assms(3,4) cp False checkpoint_ok [OF cp] show ?thesis
    by (simp add: checkpoint_def Let_def Advance_cursor_def ApplyAck_cursor synced_def outbox_def)
       (auto simp: synced_def outbox_def)
qed

lemma send_frames_delivers:
  assumes "healthy w" "reliable sk" "synced s" "send_frames cd sk w cfg sfs s = (r, s')"
  shows "r = None \<and> synced s' \<and> outbox s' = outbox s @ map Frame sfs"
  using assms(3,4)
proof (induction sfs arbitrary: s)
  case (Cons sf sfs)
  obtain ok k where send: "sink_Send sk (Frame sf) (fs_sink s) = (ok, k)" by fastforce
  define s1 where "s1 = s\<lparr>fs_sink := k,
     fs_batch := fs_batch s @ [\<lparr>SentSeq = Seq sf, SentPointID = PointId (Frame sf)\<rparr>], fs_cursor := Seq sf\<rparr>"
  have ok: "ok" using assms(2) send unfolding reliable_def by (metis fst_conv)
  have s1: "synced s1" "outbox s1 = outbox s @ [Frame sf]"
    using send_ok [of "Frame sf" "fs_sink s" k] send ok by (simp_all add: s1_def synced_def outbox_def)
  show ?case
    using Cons.prems(2) send
  proof (cases rule: send_frames_ConsE)
    case (stopped e)
    with checkpoint_delivers [OF assms(1,2) s1(1)] show ?thesis by (auto simp: s1_def)
  next
    case (rest s2)
    then have "synced s2 \<and> outbox s2 = outbox s1"
      using s1 checkpoint_delivers [OF assms(1,2) s1(1)] by (auto simp: s1_def)
    with Cons.IH [OF _ rest(2)] s1 show ?thesis by auto
  qed (use ok in auto)
qed simp

lemma drain_delivers:
  assumes "healthy w" "reliable sk" "drain cd sk w cfg s = Some (r, s')"
    and "synced s" "buffer_inv (fs_buf s)" "\<forall>x \<in> set (frames (buf_db (fs_buf s))). decode_row cd x \<noteq> None"
  shows "r = None \<and> synced s' \<and> outbox s' = outbox s @ map (\<lambda>x. the (row_frame_of cd x)) (ahead s)
     \<and> ahead s' = [] \<and> frames (buf_db (fs_buf s')) = frames (buf_db (fs_buf s))"
  using assms(3-)
proof (induction rule: drain_run_induct)
  case (idle s)
  have a: "fs_buf (access cd w s) = fs_buf s" using assms(1) by (intro access_quiet) (simp add: healthy_def)
  have dec: "decode_rows cd rs \<noteq> None" if "\<forall>x \<in> set rs. decode_row cd x \<noteq> None" for rs
    using that by (induction rs) (auto split: option.splits)
  have inc: "increasing_on row_seq (ahead s)" using idle.prems by (simp add: ahead_def buffer_inv_def db_inv_def)
  then have sel: "sql_select_after (fs_cursor s) 32 (buf_db (fs_buf s)) = take 32 (ahead s)"
    by (simp add: sql_select_after_def ahead_def)
  have dec32: "decode_rows cd (take 32 (ahead s)) \<noteq> None"
    using idle.prems by (intro dec) (auto simp: ahead_def dest!: in_set_takeD)
  then obtain sfs where sfs: "decode_rows cd (take 32 (ahead s)) = Some sfs" by blast
  then have "sfs = []" using idle.hyps(3) assms(1) by (simp add: a ReadBatch_def sel healthy_def)
  with sfs have "ahead s = []" by (cases "ahead s") (auto split: option.splits)
  moreover have "ahead (access cd w s) = ahead s" "outbox (access cd w s) = outbox s" "synced (access cd w s) = synced s"
    by (simp_all add: ahead_def outbox_def synced_def a)
  ultimately show ?case using idle a by simp
next
  case (fail sfs s)
  have "fs_buf (access cd w s) = fs_buf s" using assms(1) by (intro access_quiet) (simp add: healthy_def)
  then have "synced (access cd w s)" using fail.prems by (simp add: synced_def)
  from send_frames_delivers [OF assms(1,2) this fail.hyps(2)] fail.hyps(3) show ?case by simp
next
  case (more sfs s s2)
  have a: "fs_buf (access cd w s) = fs_buf s" using assms(1) by (intro access_quiet) (simp add: healthy_def)
  then have syn: "synced (access cd w s)" using more.prems by (simp add: synced_def)
  note sf = send_frames_delivers [OF assms(1,2) syn more.hyps(3)]
  have pr: "fs_cursor s2 = Seq (last sfs)" "buffer_inv (fs_buf s2)"
    "frames (buf_db (fs_buf s2)) = frames (buf_db (fs_buf s))"
    using send_frames_progress [OF more.hyps(3)] more.hyps(2) more.prems(2) a healthy_quiet [OF assms(1)]
    by (auto simp: progress_def)
  have rd: "ahead s2 = drop 32 (ahead s)"
    using read_last_ahead(1) [OF _ more.hyps(1,2)] more.prems(2) pr a by (simp add: ahead_def)
  obtain rs where rs: "map (decode_row cd) rs = map Some sfs" "rs = take 32 (ahead s)"
    using ReadBatch_todo [OF _ more.hyps(1)] more.prems(2) a by (metis ahead_def)
  have "map (\<lambda>x. the (row_frame_of cd x)) rs = map Frame sfs"
    using rs(1) by (rule decoded_frames)
  moreover have "outbox s2 = outbox s @ map Frame sfs" using sf by (simp add: outbox_def)
  ultimately have "outbox s2 = outbox s @ map (\<lambda>x. the (row_frame_of cd x)) (take 32 (ahead s))" using rs(2) by simp
  then have "outbox s2 @ map (\<lambda>x. the (row_frame_of cd x)) (ahead s2)
      = outbox s @ map (\<lambda>x. the (row_frame_of cd x)) (take 32 (ahead s) @ drop 32 (ahead s))"
    by (simp only: rd map_append append_assoc)
  then have "outbox s2 @ map (\<lambda>x. the (row_frame_of cd x)) (ahead s2)
      = outbox s @ map (\<lambda>x. the (row_frame_of cd x)) (ahead s)"
    by (simp only: append_take_drop_id)
  moreover have "r = None \<and> synced s' \<and> outbox s' = outbox s2 @ map (\<lambda>x. the (row_frame_of cd x)) (ahead s2)
      \<and> ahead s' = [] \<and> frames (buf_db (fs_buf s')) = frames (buf_db (fs_buf s2))"
    by (rule more.IH) (use sf pr more.prems in simp_all)
  ultimately show ?case using pr(3) by simp
qed

end

section \<open>Samples\<close>

text \<open>A link that does not fail, a buffer holding one frame, and the mock Building OS.\<close>

definition quiet_world :: world where
  "quiet_world = \<lparr>w_ok = (\<lambda>_ _. True), w_now = (\<lambda>_. 1700000000), w_pump = (\<lambda>_. [])\<rparr>"

definition sample_session :: "(bool \<times> mock_conn) recorder forwardSession" where
  "sample_session = \<lparr>fs_buf = snd (Write sample_codec (\<lambda>_. True) (sample_frame ''p1'') sample_buffer),
     fs_sink = ((False, (0, [], [])), [], [], []), fs_time = 0, fs_cursor = 0, fs_batch = [], fs_connected = False\<rparr>"

definition sample_row :: row where
  "sample_row = (frame_row sample_codec (sample_frame ''p1'') ''wp1'')\<lparr>row_seq := 1\<rparr>"

definition sample_run :: "(int list \<times> fwd_error option \<times> (bool \<times> mock_conn) recorder forwardSession) option" where
  "sample_run = Ingress_Run sample_codec (recording (grpcSink mockbos_client)) (rec_fresh (\<lambda>g. (False, snd g)))
     quiet_world DefaultConfig [([Backstop, CheckpointTick], 0, True)] sample_session"

lemma sample_session_inv: "buffer_inv (fs_buf sample_session)"
  using Write_inv [OF sample_buffer_inv] by (simp add: sample_session_def)

lemma sample_session_cursor: "cursor_inv (buf_db (fs_buf sample_session))"
  by (simp add: sample_session_def cursor_inv_def) code_simp

lemma quiet_worlds: "pump_world quiet_world" "healthy quiet_world" "\<forall>n \<ge> N. w_pump quiet_world n = []"
  by (simp_all add: quiet_world_def pump_world_def healthy_def)

lemma mockbos_reliable: "reliable (grpcSink mockbos_client)"
  by (auto simp: reliable_def grpcSink_def grpcSink_Send_def grpcSink_Checkpoint_def mockbos_client_def
      split: prod.splits)

lemma sample_run_end:
  "case sample_run of
     Some (ds, r, s') \<Rightarrow> sample_row \<in> set (frames (buf_db (fs_buf s'))) \<and> cursor_or_0 (buf_db (fs_buf s')) = 1
       \<and> rec_acks (fs_sink s') = [(1, 1)] \<and> row_seq sample_row = 1 \<and> cursor_or_0 (buf_db (fs_buf sample_session)) = 0
   | None \<Rightarrow> False"
  by code_simp

section \<open>Properties\<close>

lemma safe_start: "buffer_inv b \<Longrightarrow> cursor_inv (buf_db b) \<Longrightarrow> safe cd (cursor_or_0 (buf_db b)) fs b"
  by (simp add: safe_def covers_to_def covered_def cursor_inv_def)





text \<open>C16: The uplink stops. If the pump falls silent after some number of buffer accesses, the drain
  loops come to an end whatever the sink and the database do, so the whole run with its final flush
  returns.\<close>

theorem Ingress_Run_returns:
  assumes "buffer_inv (fs_buf s)" "\<forall>n \<ge> N. w_pump w n = []"
  shows "\<exists>ds r s'. Ingress_Run cd sk fresh w cfg conns s = Some (ds, r, s')"
proof -
  obtain ds bo s1 where s1: "Ingress_sessions cd sk fresh w cfg conns Ingress_backoff s = Some (ds, bo, s1)"
    "buffer_inv (fs_buf s1)"
    using Ingress_sessions_some [OF assms, of cd sk fresh cfg conns Ingress_backoff] by blast
  have "buffer_inv (fs_buf (s1\<lparr>fs_sink := fresh (fs_sink s1)\<rparr>))" using s1(2) by simp
  from DrainOnce_some [OF this assms(2), of cd sk "NewForwarder cfg"] s1(1) show ?thesis
    by (auto simp: Ingress_Run_def)
qed

theorem Ingress_Run_returns_witness: "\<exists>y. sample_run = Some y"
  using Ingress_Run_returns [OF sample_session_inv quiet_worlds(3)] unfolding sample_run_def by blast

text \<open>C10: Over a healthy link the shutdown flush delivers everything: \<open>DrainOnce\<close> returns without an
  error, the sink has acknowledged exactly the frames stored beyond the cursor, in order and once
  each, nothing is left to forward, and no row is lost.\<close>

theorem DrainOnce_delivers:
  assumes "buffer_inv (fs_buf s)" "\<forall>x \<in> set (frames (buf_db (fs_buf s))). decode_row cd x \<noteq> None"
    and "healthy w" "reliable sk" "rec_pending (fs_sink s) = []"
  shows "\<exists>s'. DrainOnce cd (recording sk) w cfg s = Some (None, s')
     \<and> rec_acked (fs_sink s') = rec_acked (fs_sink s) @ map (\<lambda>x. the (row_frame_of cd x))
         (filter (\<lambda>x. cursor_or_0 (buf_db (fs_buf s)) < row_seq x) (frames (buf_db (fs_buf s))))
     \<and> Depth (\<lambda>_. True) (fs_buf s') = 0 \<and> frames (buf_db (fs_buf s')) = frames (buf_db (fs_buf s))"
proof -
  let ?n = "newSession cd w s"
  have a: "fs_buf (access cd w s) = fs_buf s" using assms(3) by (intro access_quiet) (simp add: healthy_def)
  have n: "fs_buf ?n = fs_buf s" "fs_sink ?n = fs_sink s" "fs_batch ?n = []" "fs_cursor ?n = cursor_or_0 (buf_db (fs_buf s))"
    using assms(3) by (simp_all add: newSession_def Let_def a Cursor_def healthy_def)
  have rel: "reliable (recording sk)"
    using assms(4) by (auto simp: reliable_def recording_def split: prod.splits option.splits) (metis fst_conv option.distinct(1))+
  obtain r s1 where dr: "drain cd (recording sk) w cfg ?n = Some (r, s1)"
    using drain_some [OF _ healthy_quiet [OF assms(3)], of ?n] assms(1) n(1) by metis
  have syn: "rec_sink.synced ?n" using n assms(5) by (simp add: rec_sink.synced_def)
  from rec_sink.drain_delivers [OF assms(3) rel dr syn] assms(1,2) n(1)
  have d: "r = None" "rec_sink.synced s1" "ahead s1 = []" "frames (buf_db (fs_buf s1)) = frames (buf_db (fs_buf s))"
    "rec_sink.outbox s1 = rec_sink.outbox ?n @ map (\<lambda>x. the (row_frame_of cd x)) (ahead ?n)" by auto
  obtain r2 s2 where ck: "checkpoint cd (recording sk) w s1 = (r2, s2)" by fastforce
  from rec_sink.checkpoint_delivers [OF assms(3) rel d(2) ck]
  have c: "r2 = None" "fs_batch s2 = []" "rec_sink.synced s2" "rec_sink.outbox s2 = rec_sink.outbox s1" by auto
  have fr: "frames (buf_db (fs_buf s2)) = frames (buf_db (fs_buf s))"
    using checkpoint_progress [OF ck] healthy_quiet [OF assms(3)] d(4) by (simp add: progress_def)
  have cur: "fs_cursor s2 = fs_cursor s1"
    using ck d(2) c by (cases rule: checkpoint_cases) (auto simp: rec_sink.synced_def)
  have "rec_acked (fs_sink s2) = rec_acked (fs_sink s) @ map (\<lambda>x. the (row_frame_of cd x)) (ahead ?n)"
    using c(2,3,4) d(5) n assms(5) by (simp add: rec_sink.synced_def rec_sink.outbox_def)
  moreover have "Depth (\<lambda>_. True) (fs_buf s2) = 0"
    using c(2,3) d(3,4) fr cur by (simp add: Depth_def rec_sink.synced_def ahead_def)
  ultimately show ?thesis
    using dr d(1) ck c(1) fr by (intro exI [of _ s2]) (simp add: DrainOnce_def ahead_def n)
qed

theorem DrainOnce_delivers_witness:
  "\<exists>s'. DrainOnce sample_codec (recording (grpcSink mockbos_client)) quiet_world DefaultConfig sample_session = Some (None, s')
     \<and> rec_acked (fs_sink s') = [sample_frame ''p1''] \<and> Depth (\<lambda>_. True) (fs_buf s') = 0"
proof -
  have fr: "frames (buf_db (fs_buf sample_session)) = [sample_row]" by code_simp
  have dec: "decode_row sample_codec sample_row = Some \<lparr>Seq = 1, Frame = sample_frame ''p1''\<rparr>" by code_simp
  have cur: "cursor_or_0 (buf_db (fs_buf sample_session)) = 0" "row_seq sample_row = 1" by code_simp+
  have "rec_pending (fs_sink sample_session) = []" "rec_acked (fs_sink sample_session) = []"
    by (simp_all add: sample_session_def rec_pending_def rec_acked_def)
  with DrainOnce_delivers [OF sample_session_inv _ quiet_worlds(2) mockbos_reliable, of sample_codec DefaultConfig]
  show ?thesis by (auto simp: fr dec cur row_frame_of_def)
qed

end
