(* ===== verification/Uplink_Retry.thy ===== *)
theory Uplink_Retry
  imports Uplink_Delivery
begin

text \<open>
  The reconnect schedule of the uplink: the waits of a \<open>Backoff\<close> double up to its maximum and stay
  within a fifth of that schedule, and the waits of \<open>Ingress.Run\<close> are that schedule for its whole life.
  The mock Building OS's acknowledgement counts more than the stream it closes.
\<close>

section \<open>The schedule\<close>

fun Backoff_waits :: "rat list \<Rightarrow> Backoff \<Rightarrow> int list" where
  "Backoff_waits [] bo = []"
| "Backoff_waits (r # rs) bo = fst (Backoff_Next r bo) # Backoff_waits rs (snd (Backoff_Next r bo))"

definition Backoff_base :: "Backoff \<Rightarrow> int" where
  "Backoff_base bo = (if bo_cur bo = 0 then bo_Min bo else bo_cur bo)"

lemma length_Backoff_waits [simp]: "length (Backoff_waits rs bo) = length rs"
  by (induction rs arbitrary: bo) auto

lemma truncate_rat_of_int [simp]: "truncate_rat (of_int x) = x"
  by (simp add: truncate_rat_def)

lemma truncate_rat_bound: "\<bar>q\<bar> \<le> of_int b \<Longrightarrow> \<bar>truncate_rat q\<bar> \<le> b"
  by (auto simp: truncate_rat_def abs_le_iff floor_le_iff ceiling_le_iff le_floor_iff le_ceiling_iff) linarith+

text \<open>The jitter is at most a fifth of the base.\<close>

lemma jitter_bound:
  assumes "0 \<le> base" "0 \<le> rnd" "rnd < 1"
  shows "5 * \<bar>truncate_rat (of_int base * (2 / 10) * (rnd * 2 - 1))\<bar> \<le> base"
proof -
  let ?q = "of_int base * (2 / 10) * (rnd * 2 - 1) :: rat"
  have "\<bar>rnd * 2 - 1\<bar> \<le> 1" using assms(2,3) by (simp add: abs_le_iff)
  then have "\<bar>?q\<bar> \<le> of_int base * (2 / 10) * 1"
    unfolding abs_mult using assms(1) by (intro mult_mono) auto
  then have q: "\<bar>?q\<bar> \<le> of_int base / 5" by simp
  have "\<bar>of_int (truncate_rat ?q) :: rat\<bar> \<le> \<bar>?q\<bar>"
  proof (cases "?q < 0")
    case True
    then have "of_int \<lceil>?q\<rceil> \<le> (0 :: rat)" by (simp add: ceiling_le_iff)
    then show ?thesis using True le_of_int_ceiling [of ?q] by (simp add: truncate_rat_def)
  next
    case False
    then have "0 \<le> \<lfloor>?q\<rfloor>" by simp
    then show ?thesis using False of_int_floor_le [of ?q] by (simp add: truncate_rat_def)
  qed
  then have "5 * \<bar>of_int (truncate_rat ?q) :: rat\<bar> \<le> of_int base" using q by simp
  then have "of_int (5 * \<bar>truncate_rat ?q\<bar>) \<le> (of_int base :: rat)" by simp
  then show ?thesis by (simp only: of_int_le_iff)
qed

lemma Backoff_Next_bounds:
  assumes "0 < bo_Min bo" "bo_Min bo \<le> Backoff_base bo" "Backoff_base bo \<le> bo_Max bo" "0 \<le> rnd" "rnd < 1"
  shows "bo_Min bo \<le> fst (Backoff_Next rnd bo)" "fst (Backoff_Next rnd bo) \<le> bo_Max bo"
    "5 * \<bar>fst (Backoff_Next rnd bo) - Backoff_base bo\<bar> \<le> Backoff_base bo"
proof -
  have "5 * \<bar>truncate_rat (of_int (Backoff_base bo) * (2 / 10) * (rnd * 2 - 1))\<bar> \<le> Backoff_base bo"
    using assms by (intro jitter_bound) auto
  with assms show "bo_Min bo \<le> fst (Backoff_Next rnd bo)" "fst (Backoff_Next rnd bo) \<le> bo_Max bo"
    "5 * \<bar>fst (Backoff_Next rnd bo) - Backoff_base bo\<bar> \<le> Backoff_base bo"
    by (auto simp: Backoff_Next_def Let_def simp flip: Backoff_base_def)
qed

lemma Backoff_Next_doubles:
  assumes "bo_Factor bo = 2" "0 < bo_Min bo" "bo_Min bo \<le> Backoff_base bo" "Backoff_base bo \<le> bo_Max bo"
  shows "Backoff_base (snd (Backoff_Next rnd bo)) = min (bo_Max bo) (2 * Backoff_base bo)"
    "bo_Min (snd (Backoff_Next rnd bo)) = bo_Min bo" "bo_Max (snd (Backoff_Next rnd bo)) = bo_Max bo"
    "bo_Factor (snd (Backoff_Next rnd bo)) = bo_Factor bo"
proof -
  have "truncate_rat (of_int (Backoff_base bo) * bo_Factor bo) = 2 * Backoff_base bo"
    using truncate_rat_of_int [of "Backoff_base bo * 2"] assms(1) by simp
  with assms show "Backoff_base (snd (Backoff_Next rnd bo)) = min (bo_Max bo) (2 * Backoff_base bo)"
    by (auto simp: Backoff_Next_def Let_def Backoff_base_def [of "_\<lparr>bo_cur := _\<rparr>"] simp flip: Backoff_base_def)
qed (simp_all add: Backoff_Next_def Let_def)

lemma Backoff_waits_schedule:
  assumes "bo_Factor bo = 2" "0 < bo_Min bo" "bo_Min bo \<le> Backoff_base bo" "Backoff_base bo \<le> bo_Max bo"
    and "\<forall>r \<in> set rs. 0 \<le> r \<and> r < 1" "n < length rs"
  shows "bo_Min bo \<le> Backoff_waits rs bo ! n \<and> Backoff_waits rs bo ! n \<le> bo_Max bo
     \<and> 5 * \<bar>Backoff_waits rs bo ! n - min (bo_Max bo) (Backoff_base bo * 2 ^ n)\<bar>
         \<le> min (bo_Max bo) (Backoff_base bo * 2 ^ n)"
  using assms
proof (induction rs arbitrary: bo n)
  case (Cons r rs)
  let ?bo = "snd (Backoff_Next r bo)"
  note nx = Backoff_Next_doubles [OF Cons.prems(1-4), of r]
  show ?case
  proof (cases n)
    case 0
    then show ?thesis using Backoff_Next_bounds [OF Cons.prems(2-4), of r] Cons.prems(4,5) by (auto simp: min_def)
  next
    case (Suc m)
    have e: "min (bo_Max bo) (min (bo_Max bo) (2 * Backoff_base bo) * 2 ^ m) = min (bo_Max bo) (Backoff_base bo * 2 ^ Suc m)"
    proof (cases "bo_Max bo \<le> 2 * Backoff_base bo")
      case True
      have a: "bo_Max bo \<le> bo_Max bo * 2 ^ m"
        using mult_left_mono [of 1 "2 ^ m" "bo_Max bo"] Cons.prems(2-4) by simp
      have "2 * Backoff_base bo * 2 ^ m = Backoff_base bo * 2 ^ Suc m" by simp
      with a mult_right_mono [OF True, of "2 ^ m"] zero_le_power [of "2 :: int" m] have "bo_Max bo \<le> Backoff_base bo * 2 ^ Suc m" by linarith
      with a True show ?thesis by (simp only: min.absorb1)
    qed (simp add: ac_simps)
    from Cons.IH [of ?bo m] Cons.prems nx Suc show ?thesis by (simp add: e)
  qed
qed simp

text \<open>The waits of the connection loop are one schedule.\<close>

lemma Ingress_sessions_waits:
  assumes "Ingress_sessions cd sk fresh w cfg conns bo s = Some (ds, bo', s')"
  shows "ds = Backoff_waits (take (length ds) (map (\<lambda>c. fst (snd c)) conns)) bo \<and> length ds \<le> length conns"
  using assms
proof (induction conns arbitrary: bo s ds)
  case (Cons conn conns)
  obtain evs rnd cancelled where conn: "conn = (evs, rnd, cancelled)" by (cases conn) auto
  obtain r :: "fwd_error option" and s1 where run: "r = None \<or> cancelled \<Longrightarrow> ds = []"
    "\<not> (r = None \<or> cancelled) \<Longrightarrow> \<exists>ds'. ds = fst (Backoff_Next rnd bo) # ds'
       \<and> Ingress_sessions cd sk fresh w cfg conns (snd (Backoff_Next rnd bo)) s1 = Some (ds', bo', s')"
    using Ingress_sessions_ConsE [OF Cons.prems [unfolded conn]] by metis
  show ?case
  proof (cases "r = None \<or> cancelled")
    case False
    with run(2) obtain ds' where ds': "ds = fst (Backoff_Next rnd bo) # ds'"
      "Ingress_sessions cd sk fresh w cfg conns (snd (Backoff_Next rnd bo)) s1 = Some (ds', bo', s')" by blast
    from Cons.IH [OF ds'(2)] ds'(1) show ?thesis by (simp add: conn)
  qed (use run(1) in simp)
qed simp

section \<open>Properties\<close>

text \<open>The retry schedule. With factor 2, whatever the random numbers, the n-th wait lies between
  the minimum and the maximum, and within a fifth of the minimum times two to the n, cut off at the
  maximum.\<close>

theorem Backoff_schedule:
  assumes "bo_Factor bo = 2" "bo_cur bo = 0" "0 < bo_Min bo" "bo_Min bo \<le> bo_Max bo"
    and "\<forall>r \<in> set rs. 0 \<le> r \<and> r < 1" "n < length rs"
  shows "bo_Min bo \<le> Backoff_waits rs bo ! n \<and> Backoff_waits rs bo ! n \<le> bo_Max bo
     \<and> 5 * \<bar>Backoff_waits rs bo ! n - min (bo_Max bo) (bo_Min bo * 2 ^ n)\<bar> \<le> min (bo_Max bo) (bo_Min bo * 2 ^ n)"
  using Backoff_waits_schedule [of bo rs n] assms by (simp add: Backoff_base_def)

theorem Backoff_schedule_witness:
  "1000000000 \<le> Backoff_waits [0, 1 / 2, 1 / 4] Ingress_backoff ! 2
   \<and> Backoff_waits [0, 1 / 2, 1 / 4] Ingress_backoff ! 2 \<le> 60000000000"
  using Backoff_schedule [of Ingress_backoff "[0, 1 / 2, 1 / 4]" 2]
  by (simp add: Ingress_backoff_def)

text \<open>The reconnect delay is never reset while the gateway runs. The waits of the connection loop
  are one unbroken backoff schedule: the n-th reconnect waits within a fifth of the smaller of one
  minute and two to the n seconds, whatever the connections before it delivered, because \<open>Run\<close> returns
  without an error only on cancellation.\<close>

theorem Ingress_backoff_never_resets:
  assumes "Ingress_sessions cd sk fresh w cfg conns Ingress_backoff s = Some (ds, bo', s')"
    and "\<forall>c \<in> set conns. 0 \<le> fst (snd c) \<and> fst (snd c) < 1" "n < length ds"
  shows "5 * \<bar>ds ! n - min 60000000000 (1000000000 * 2 ^ n)\<bar> \<le> min 60000000000 (1000000000 * 2 ^ n)"
proof -
  let ?rs = "take (length ds) (map (\<lambda>c. fst (snd c)) conns)"
  have "\<forall>r \<in> set ?rs. 0 \<le> r \<and> r < 1" using assms(2) by (auto dest!: in_set_takeD)
  from Backoff_waits_schedule [OF _ _ _ _ this, of Ingress_backoff n] Ingress_sessions_waits [OF assms(1)] assms(3)
  show ?thesis by (simp add: Ingress_backoff_def Backoff_base_def)
qed

text \<open>A sink whose server is down, and two connection attempts.\<close>

definition down_sink :: "unit FrameSink" where
  "down_sink = \<lparr>sink_Send = (\<lambda>f k. (False, k)), sink_Checkpoint = (\<lambda>k. (None, k))\<rparr>"

definition down_session :: "unit forwardSession" where
  "down_session = \<lparr>fs_buf = fs_buf sample_session, fs_sink = (), fs_time = 0, fs_cursor = 0, fs_batch = [],
     fs_connected = False\<rparr>"

theorem Ingress_backoff_never_resets_witness:
  "case Ingress_sessions sample_codec down_sink id quiet_world DefaultConfig
      [([Backstop], 1 / 2, False), ([Backstop], 1 / 4, False)] Ingress_backoff down_session of
     Some (ds, bo', s') \<Rightarrow> 5 * \<bar>ds ! 1 - 2000000000\<bar> \<le> 2000000000
   | None \<Rightarrow> False"
proof -
  let ?conns = "[([Backstop], 1 / 2, False), ([Backstop], 1 / 4, False)] :: (run_event list \<times> rat \<times> bool) list"
  have "case Ingress_sessions sample_codec down_sink id quiet_world DefaultConfig ?conns Ingress_backoff down_session of
     Some (ds, bo', s') \<Rightarrow> length ds = 2 | None \<Rightarrow> False" by code_simp
  then obtain ds bo' s' where run: "Ingress_sessions sample_codec down_sink id quiet_world DefaultConfig ?conns
      Ingress_backoff down_session = Some (ds, bo', s')" and "length ds = 2"
    by (auto split: option.splits)
  then have "5 * \<bar>ds ! 1 - min 60000000000 (1000000000 * 2 ^ 1)\<bar> \<le> min 60000000000 (1000000000 * 2 ^ 1)"
    by (intro Ingress_backoff_never_resets [OF run]) simp_all
  with run show ?thesis by simp
qed

text \<open>The mock Building OS acknowledges its lifetime total. Once it has counted anything, the
  acknowledgement of a stream exceeds the frames sent on it, so the gateway records no drift for that
  batch whatever was rejected and its accepted counter overtakes its sent counter.\<close>

theorem mockbos_ack_exceeds_stream:
  assumes "0 < n"
  shows "fst (CloseAndRecv mockbos_client (n, fs, done)) = Some (n + int (length fs))
     \<and> int (length fs) < n + int (length fs)
     \<and> (length batch = length fs \<longrightarrow> n + int (length fs) < 2 ^ 63 \<longrightarrow> snd (ApplyAck batch (n + int (length fs))) = [])"
proof -
  have "fold mockbos_recv fs a = a + int (length fs)" for a
    by (induction fs arbitrary: a) (auto simp: mockbos_recv_def)
  moreover have "int64 (- n) = - n" if "n + int (length fs) < 2 ^ 63"
    using that assms by (intro int64_id) simp_all
  ultimately show ?thesis
    using assms by (auto simp: mockbos_client_def mockbos_StreamTelemetry_def Let_def ApplyAck_def)
qed

theorem mockbos_ack_exceeds_stream_witness:
  "fst (CloseAndRecv mockbos_client (3, [sample_frame ''p''], [])) = Some 4"
  using mockbos_ack_exceeds_stream [of 3 "[sample_frame ''p'']" "[]" "[]"] by simp

end
