(* ===== verification/Control_Facts.thy ===== *)
theory Control_Facts
  imports Control Uplink_Retry
begin

text \<open>
  What the control path promises: a command is written at most once per control id, over any number of
  reconnects, and only to a writable point of the Point List; the results go up in the order of the
  commands; the connector's memory of commands forgets only after as many others as it holds.
\<close>

section \<open>Executing a sequence of commands\<close>

fun run_commands :: "'x executor \<Rightarrow> (bool option \<times> ControlCommand) list \<Rightarrow> 'x \<Rightarrow> ControlResult list \<times> 'x" where
  "run_commands exec [] x = ([], x)"
| "run_commands exec ((a, c) # cs) x =
     (case exec a c x of (r, x1) \<Rightarrow> (case run_commands exec cs x1 of (rs, x2) \<Rightarrow> (r # rs, x2)))"

lemma run_commands_append:
  "run_commands exec (cs @ ds) x =
     (case run_commands exec cs x of (rs, x1) \<Rightarrow> (case run_commands exec ds x1 of (ss, x2) \<Rightarrow> (rs @ ss, x2)))"
  by (induction exec cs x rule: run_commands.induct) (auto split: prod.splits)

lemma run_commands_snoc:
  "snd (run_commands exec (cs @ [(a, c)]) x) = snd (exec a c (snd (run_commands exec cs x)))"
  "fst (run_commands exec (cs @ [(a, c)]) x) = fst (run_commands exec cs x) @ [fst (exec a c (snd (run_commands exec cs x)))]"
  by (auto simp: run_commands_append split: prod.splits)

lemma length_run_commands [simp]: "length (fst (run_commands exec cs x)) = length cs"
  by (induction exec cs x rule: run_commands.induct) (auto split: prod.splits)

text \<open>An event whose command, if it brings one, the admission gate lets in.\<close>

definition gate_open :: "stream_event \<Rightarrow> bool" where
  "gate_open ev = (case ev of Recv down a ok \<Rightarrow> a \<noteq> Some False | _ \<Rightarrow> True)"

text \<open>An executor that remembers its answers.\<close>

locale remembering_executor =
  fixes exec :: "'x executor" and answer :: "'x \<Rightarrow> string \<Rightarrow> ControlResult option"
  assumes repeated: "answer x (cc_ControlId c) = Some r \<Longrightarrow> exec a c x = (r, x)"
    and remembered: "a \<noteq> Some False \<Longrightarrow> answer (snd (exec a c x)) (cc_ControlId c) = Some (fst (exec a c x))"
    and kept: "answer x i = Some r \<Longrightarrow> answer (snd (exec a c x)) i = Some r"
    and added: "answer (snd (exec a c x)) i = Some r \<Longrightarrow> answer x i = Some r \<or> r = fst (exec a c x) \<and> i = cc_ControlId c"
    and named: "answer x (cc_ControlId c) = None \<Longrightarrow> cr_ControlId (fst (exec a c x)) = cc_ControlId c"
begin

lemma answer_run: "answer x i = Some r \<Longrightarrow> answer (snd (run_commands exec cs x)) i = Some r"
proof (induction cs rule: rev_induct)
  case (snoc ac cs)
  obtain a c where ac: "ac = (a, c)" by (cases ac)
  from kept snoc show ?case by (simp add: ac run_commands_snoc)
qed simp

lemma answered_alike:
  assumes "answer x i = Some r" "n < length cs" "cc_ControlId (snd (cs ! n)) = i"
  shows "fst (run_commands exec cs x) ! n = r"
  using assms
proof (induction cs arbitrary: x n)
  case (Cons ac cs)
  obtain a c where ac: "ac = (a, c)" by (cases ac)
  show ?case
  proof (cases n)
    case 0
    with Cons.prems repeated [of x c r a] show ?thesis by (auto simp: ac split: prod.splits)
  next
    case (Suc m)
    with Cons.IH [of "snd (exec a c x)" m] Cons.prems kept [OF Cons.prems(1), of a c]
    show ?thesis by (auto simp: ac split: prod.splits)
  qed
qed simp

lemma same_answer:
  assumes "m \<le> n" "n < length cs" "cc_ControlId (snd (cs ! m)) = cc_ControlId (snd (cs ! n))" "fst (cs ! m) \<noteq> Some False"
  shows "fst (run_commands exec cs x) ! n = fst (run_commands exec cs x) ! m"
  using assms
proof (induction cs arbitrary: x m n)
  case (Cons ac cs)
  obtain a c where ac: "ac = (a, c)" by (cases ac)
  show ?case
  proof (cases m)
    case 0
    show ?thesis
    proof (cases n)
      case (Suc n')
      with 0 Cons.prems answered_alike [OF remembered [of a c x], of n' cs] show ?thesis
        by (auto simp: ac split: prod.splits)
    qed (use 0 in simp)
  next
    case (Suc m')
    with Cons.prems Cons.IH [of m' "n - 1" "snd (exec a c x)"] show ?thesis
      by (cases n) (auto simp: ac split: prod.splits)
  qed
qed simp

text \<open>What a stream has sent up is what the executor would answer again.\<close>

definition answers_named :: "'x \<Rightarrow> bool" where
  "answers_named x \<longleftrightarrow> (\<forall>i r. answer x i = Some r \<longrightarrow> cr_ControlId r = i)"

definition ups_answered :: "'x egress_state \<Rightarrow> bool" where
  "ups_answered st \<longleftrightarrow> answers_named (eg_exec st)
     \<and> (\<forall>r. UpResult r \<in> set (eg_ups st) \<longrightarrow> answer (eg_exec st) (cr_ControlId r) = Some r)"

lemma exec_named: "answers_named x \<Longrightarrow> cr_ControlId (fst (exec a c x)) = cc_ControlId c"
  using named [of x c a] repeated [of x c _ a] by (cases "answer x (cc_ControlId c)") (auto simp: answers_named_def)

lemma exec_answers_named: "answers_named x \<Longrightarrow> answers_named (snd (exec a c x))"
  using exec_named [of x a c] added [of a c x] by (fastforce simp: answers_named_def)

lemma recv_ups_answered:
  assumes "ups_answered st" "a \<noteq> Some False"
  shows "ups_answered (egress_recv exec down a ok st)"
proof (cases "\<exists>c. down = DownCommand (Some c)")
  case True
  then obtain c where c: "down = DownCommand (Some c)" by blast
  obtain r x where e: "exec a c (eg_exec st) = (r, x)" by (cases "exec a c (eg_exec st)")
  have nm: "answers_named x" "cr_ControlId r = cc_ControlId c"
    using assms(1) e exec_answers_named [of "eg_exec st" a c] exec_named [of "eg_exec st" a c] by (auto simp: ups_answered_def)
  have new: "answer x (cc_ControlId c) = Some r" using remembered [OF assms(2), of c "eg_exec st"] e by simp
  have old: "answer (eg_exec st) i = Some r' \<Longrightarrow> answer x i = Some r'" for i r'
    using kept [of "eg_exec st" i r' a c] e by simp
  from assms(1) nm new old show ?thesis by (auto simp: ups_answered_def egress_recv_def c e)
qed (use assms(1) in \<open>auto simp: egress_recv_def ups_answered_def split: EgressDown.splits option.splits\<close>)

lemma loop_ups_answered:
  assumes "ups_answered st" "\<forall>ev \<in> set evs. gate_open ev"
  shows "ups_answered (runStream_loop exec evs st)"
  using assms
proof (induction evs arbitrary: st)
  case (Cons ev evs)
  have step: "ups_answered (case ev of Recv down a ok \<Rightarrow> egress_recv exec down a ok st
     | Report r ok \<Rightarrow> egress_report r ok st | RevalidateTaken \<Rightarrow> st\<lparr>eg_revalidate := map_option (\<lambda>_. False) (eg_revalidate st)\<rparr>)"
  proof (cases ev)
    case (Recv down a ok)
    with Cons.prems recv_ups_answered [of st a down ok] show ?thesis by (simp add: gate_open_def)
  qed (use Cons.prems(1) in \<open>auto simp: ups_answered_def egress_report_def\<close>)
  from Cons.IH [OF step] Cons.prems show ?case by simp
qed simp

lemma streams_ups_answered:
  assumes "ups_answered st" "\<forall>sc \<in> set scs. \<forall>ev \<in> set (ss_events sc). gate_open ev"
  shows "ups_answered (snd (snd (Egress_streams exec gw reporter scs bo st)))"
  using assms
proof (induction scs arbitrary: bo st)
  case (Cons sc scs)
  let ?st = "runStream exec gw (ss_connected sc) (ss_greeted sc) reporter (ss_events sc) st"
  have "ups_answered (st\<lparr>eg_ups := eg_ups st @ [UpHello gw], eg_reporting := reporter, eg_closed := False\<rparr>)"
    using Cons.prems(1) by (auto simp: ups_answered_def)
  then have "ups_answered ?st" using Cons.prems loop_ups_answered by (auto simp: runStream_def)
  with Cons show ?case by (auto simp: Let_def split: prod.splits) (metis snd_conv)
qed simp

end

section \<open>The dispatcher\<close>

text \<open>NATS with a record of the requests made.\<close>

definition logged :: "'n nats_request \<Rightarrow> ((string \<times> WriteRequest) list \<times> 'n) nats_request" where
  "logged rq subject req lg = (case rq subject req (snd lg) of (r, n1) \<Rightarrow> (r, (fst lg @ [(subject, req)], n1)))"

lemma execute_id: "execute jl errtext rq res cmd n = (r, n1) \<Longrightarrow> cr_ControlId r = cc_ControlId cmd"
  by (auto simp: execute_def control_request_def failed_def Let_def
      split: sum.splits prod.splits nats_result.splits option.splits if_splits)

interpretation dispatcher: remembering_executor "Execute jl errtext rq res" "\<lambda>d. map_of (ds_dedup d)"
  for jl errtext rq res
  using execute_id by unfold_locales (auto simp: Execute_def failed_def update_conv' split: option.splits prod.splits if_splits)

lemma control_request_id: "control_request res cmd = Inr (subject, req) \<Longrightarrow> wq_ControlID req = cc_ControlId cmd"
  by (auto simp: control_request_def Let_def split: prod.splits if_splits)

lemma execute_logged:
  "fst (snd (execute jl errtext (logged rq) res cmd lg)) =
     fst lg @ (case control_request res cmd of Inl _ \<Rightarrow> [] | Inr sq \<Rightarrow> [sq])"
  by (auto simp: execute_def logged_def split: sum.splits prod.splits nats_result.splits option.splits)

text \<open>The ids of the requests made are distinct, and remembered.\<close>

definition log_of :: "((string \<times> WriteRequest) list \<times> 'n) Dispatcher \<Rightarrow> (string \<times> WriteRequest) list" where
  "log_of d = fst (ds_nats d)"

definition written_ids :: "((string \<times> WriteRequest) list \<times> 'n) Dispatcher \<Rightarrow> string list" where
  "written_ids d = map (\<lambda>(subject, req). wq_ControlID req) (log_of d)"

definition log_remembered :: "((string \<times> WriteRequest) list \<times> 'n) Dispatcher \<Rightarrow> bool" where
  "log_remembered d \<longleftrightarrow> distinct (written_ids d) \<and> set (written_ids d) \<subseteq> fst ` set (ds_dedup d)"

lemma Execute_log:
  "log_of (snd (Execute jl errtext (logged rq) res a c d)) =
     log_of d @ (if map_of (ds_dedup d) (cc_ControlId c) \<noteq> None \<or> a = Some False then []
                 else case control_request res c of Inl _ \<Rightarrow> [] | Inr sq \<Rightarrow> [sq])"
  using execute_logged [of jl errtext rq res c "ds_nats d"]
  by (auto simp: Execute_def log_of_def split: option.splits prod.splits)

lemma Execute_dedup_keys:
  "fst ` set (ds_dedup (snd (Execute jl errtext rq res a c d))) =
     fst ` set (ds_dedup d) \<union> (if a = Some False then {} else {cc_ControlId c})"
  by (auto simp: Execute_def dom_update map_of_eq_None_iff [symmetric] split: option.splits prod.splits
      simp flip: dom_map_of_conv_image_fst simp: update_conv')

lemma Execute_log_remembered:
  assumes "log_remembered d"
  shows "log_remembered (snd (Execute jl errtext (logged rq) res a c d))"
proof (cases "map_of (ds_dedup d) (cc_ControlId c) \<noteq> None \<or> a = Some False \<or> (\<exists>r. control_request res c = Inl r)")
  case True
  then have "log_of (snd (Execute jl errtext (logged rq) res a c d)) = log_of d"
    by (auto simp: Execute_log)
  with assms show ?thesis by (auto simp: log_remembered_def written_ids_def Execute_dedup_keys)
next
  case False
  then obtain subject req where q: "control_request res c = Inr (subject, req)" by (cases "control_request res c") auto
  have new: "cc_ControlId c \<notin> fst ` set (ds_dedup d)" using False by (simp add: map_of_eq_None_iff)
  have "written_ids (snd (Execute jl errtext (logged rq) res a c d)) = written_ids d @ [cc_ControlId c]"
    using False q control_request_id [OF q] by (simp add: written_ids_def Execute_log)
  with assms new False show ?thesis by (auto simp: log_remembered_def Execute_dedup_keys)
qed

lemma run_log_remembered:
  "log_remembered d \<Longrightarrow> log_remembered (snd (run_commands (Execute jl errtext (logged rq) res) cs d))"
proof (induction cs rule: rev_induct)
  case (snoc ac cs)
  obtain a c where ac: "ac = (a, c)" by (cases ac)
  from Execute_log_remembered snoc show ?case by (simp add: ac run_commands_snoc)
qed simp

lemma log_remembered_New: "log_remembered (dispatch_New ([], n))"
  by (simp add: log_remembered_def dispatch_New_def written_ids_def log_of_def)

section \<open>Where a command goes\<close>

text \<open>The point a command may be written to, given the entries of the Point List.\<close>

definition write_target :: "Entry list \<Rightarrow> ControlCommand \<Rightarrow> Entry \<Rightarrow> bool" where
  "write_target es cmd t \<longleftrightarrow> t \<in> set es \<and> Writable t \<and>
     (PointID t = cc_PointId cmd \<and> ReleaseOf t = [] \<or>
      (\<exists>e \<in> set es. PointID e = cc_PointId cmd \<and> Writable e \<and> ReleaseOf e = PointID t \<and> PointID t \<noteq> []
         \<and> ReleaseOf t = [] \<and> Protocol t = ''bacnet'' \<and> ConnectorID t \<noteq> [] \<and> LocalID t \<noteq> []
         \<and> cc_PresentValue cmd = f64_one \<and> 0 \<le> cc_Priority cmd \<and> cc_Priority cmd \<le> 16))"

definition request_to :: "ControlCommand \<Rightarrow> Entry \<Rightarrow> bool \<Rightarrow> string \<times> WriteRequest" where
  "request_to cmd t release = (''cmd.'' @ Protocol t @ ''.'' @ ConnectorID t,
     \<lparr>wq_Release = release, wq_ControlID = cc_ControlId cmd, wq_LocalID = LocalID t,
      wq_DeviceRef = DeviceRef t, wq_Value = cc_PresentValue cmd, wq_Priority = cc_Priority cmd\<rparr>)"

lemma reverse_member:
  "map_of (idx_reverse (Synced_Update es r)) p = Some e \<Longrightarrow> e \<in> set es \<and> PointID e = p"
  by (auto simp: Synced_Update_def index_reverse_lookup dest: last_such_SomeD split: option.splits)

lemma control_request_target:
  assumes "control_request (ResolveControl (Synced_Update es r)) cmd = Inr sq"
  shows "\<exists>t. sq = request_to cmd t (PointID t \<noteq> cc_PointId cmd) \<and> write_target es cmd t"
proof -
  let ?m = "map_of (idx_reverse (Synced_Update es r))"
  obtain e where e: "?m (cc_PointId cmd) = Some e" and w: "Writable e"
    using assms by (auto simp: control_request_def ResolveControl_def Let_def split: option.splits if_splits)
  show ?thesis
  proof (cases "ReleaseOf e = []")
    case True
    with assms e w reverse_member [OF e] have "sq = request_to cmd e (PointID e \<noteq> cc_PointId cmd)"
      by (auto simp: control_request_def ResolveControl_def request_to_def Let_def split: if_splits)
    with True w reverse_member [OF e] show ?thesis by (intro exI [of _ e]) (simp add: write_target_def)
  next
    case False
    then obtain t where t: "?m (ReleaseOf e) = Some t"
      using assms e by (auto simp: control_request_def ResolveControl_def Let_def zero_Entry_def split: option.splits if_splits)
    with assms e False have c: "sq = request_to cmd t True" "PointID t \<noteq> []" "ReleaseOf t = []" "Writable t" "Protocol t = ''bacnet''"
      "ConnectorID t \<noteq> []" "LocalID t \<noteq> []" "cc_PresentValue cmd = f64_one" "0 \<le> cc_Priority cmd" "cc_Priority cmd \<le> 16"
      by (auto simp: control_request_def ResolveControl_def request_to_def Let_def not_less split: if_splits)
    have "PointID t \<noteq> cc_PointId cmd" using reverse_member [OF t] t e False c(3) by auto
    with c w reverse_member [OF t] reverse_member [OF e] show ?thesis by (intro exI [of _ t]) (auto simp: write_target_def)
  qed
qed

lemma run_log_member:
  "sq \<in> set (log_of (snd (run_commands (Execute jl errtext (logged rq) res) cs d))) \<Longrightarrow>
     sq \<in> set (log_of d) \<or> (\<exists>c \<in> snd ` set cs. control_request res c = Inr sq)"
proof (induction cs rule: rev_induct)
  case (snoc ac cs)
  obtain a c where ac: "ac = (a, c)" by (cases ac)
  from snoc show ?case by (auto simp: ac run_commands_snoc Execute_log split: if_splits sum.splits)
qed simp

section \<open>The stream in order\<close>

text \<open>The commands a stream executes: all up to the first whose result cannot be sent, and whether there is one.\<close>

fun stream_executed :: "stream_event list \<Rightarrow> (bool option \<times> ControlCommand) list \<times> bool" where
  "stream_executed [] = ([], False)"
| "stream_executed (Recv (DownCommand (Some c)) a ok # evs) =
     (if ok then (case stream_executed evs of (cs, lost) \<Rightarrow> ((a, c) # cs, lost)) else ([(a, c)], True))"
| "stream_executed (_ # evs) = stream_executed evs"

fun results_of :: "EgressUp list \<Rightarrow> ControlResult list" where
  "results_of [] = []"
| "results_of (UpResult r # us) = r # results_of us"
| "results_of (_ # us) = results_of us"

lemma results_of_append [simp]: "results_of (us @ vs) = results_of us @ results_of vs"
  by (induction us rule: results_of.induct) auto

lemma runStream_loop_closed [simp]: "eg_closed st \<Longrightarrow> runStream_loop exec evs st = st"
  by (cases evs) auto

lemma runStream_loop_executes:
  assumes "\<not> eg_closed st"
  shows "eg_exec (runStream_loop exec evs st) = snd (run_commands exec (fst (stream_executed evs)) (eg_exec st))
    \<and> results_of (eg_ups (runStream_loop exec evs st)) = results_of (eg_ups st) @
        (let rs = fst (run_commands exec (fst (stream_executed evs)) (eg_exec st))
         in if snd (stream_executed evs) then butlast rs else rs)
    \<and> eg_closed (runStream_loop exec evs st) = snd (stream_executed evs)"
  using assms
proof (induction evs arbitrary: st rule: stream_executed.induct)
  case (2 c a ok evs)
  obtain r x where e: "exec a c (eg_exec st) = (r, x)" by (cases "exec a c (eg_exec st)")
  show ?case
  proof (cases ok)
    case True
    have ne: "snd (stream_executed evs) \<Longrightarrow> fst (stream_executed evs) \<noteq> []"
      by (induction evs rule: stream_executed.induct) (auto split: prod.splits)
    have ne': "snd (stream_executed evs) \<Longrightarrow> fst (run_commands exec (fst (stream_executed evs)) x) \<noteq> []"
      using ne length_run_commands [of exec "fst (stream_executed evs)" x] by fastforce
    from 2(1) [OF True, of "st\<lparr>eg_exec := x, eg_ups := eg_ups st @ [UpResult r]\<rparr>"] 2(2) True e ne'
    show ?thesis by (auto simp: egress_recv_def Let_def split: prod.splits if_splits)
  qed (use 2 e in \<open>simp add: egress_recv_def\<close>)
qed (auto simp: egress_recv_def egress_report_def Let_def)

lemma streams_keep:
  assumes "\<And>a c x. P x \<Longrightarrow> P (snd (exec a c x))" "P (eg_exec st)"
  shows "P (eg_exec (snd (snd (Egress_streams exec gw reporter scs bo st))))"
  using assms(2)
proof (induction scs arbitrary: bo st)
  case (Cons sc scs)
  have cmds: "P x \<Longrightarrow> P (snd (run_commands exec cs x))" for cs x
  proof (induction cs rule: rev_induct)
    case (snoc ac cs)
    obtain a c where ac: "ac = (a, c)" by (cases ac)
    from assms(1) snoc show ?case by (simp add: ac run_commands_snoc)
  qed simp
  have "P (eg_exec (runStream exec gw (ss_connected sc) (ss_greeted sc) reporter (ss_events sc) st))"
    using Cons.prems cmds by (simp add: runStream_def runStream_loop_executes)
  with Cons.IH show ?case by (auto simp: Let_def split: prod.splits) (metis snd_conv)
qed simp

text \<open>The delays between streams are one schedule of doubling waits: no stream, however long it lived, resets it.\<close>

lemma Egress_waits:
  "fst (Egress_Run exec gw reporter scs st) =
     Backoff_waits (map ss_random (takeWhile (\<lambda>sc. \<not> ss_cancelled sc) scs)) Egress_backoff"
proof -
  have "fst (Egress_streams exec gw reporter scs bo st) =
     Backoff_waits (map ss_random (takeWhile (\<lambda>sc. \<not> ss_cancelled sc) scs)) bo" for bo
  proof (induction scs arbitrary: bo st)
    case (Cons sc scs)
    let ?st = "runStream exec gw (ss_connected sc) (ss_greeted sc) reporter (ss_events sc) st"
    from Cons [of "snd (Backoff_Next (ss_random sc) bo)" ?st] show ?case by (auto simp: Let_def split: prod.splits)
  qed simp
  then show ?thesis by (simp add: Egress_Run_def)
qed

text \<open>A request survives its JSON.\<close>

lemma WriteRequest_roundtrip:
  assumes "encode_WriteRequest jl format_int q = Some j"
    and "parse_float jl (format_float jl (wq_Value q)) = Some (wq_Value q)" "parse_int32 (format_int (wq_Priority q)) = Some (wq_Priority q)"
  shows "decode_WriteRequest jl parse_int32 j = Some q"
  using assms by (cases q) (auto simp: encode_WriteRequest_def decode_WriteRequest_def dec_struct_def WriteRequest_fields_def
      find_field_exact dec_bool_def dec_string_def dec_number_def opt_bool_def zero_WriteRequest_def split: if_splits)

section \<open>The connector's memory\<close>

datatype memory_op = Reserve string | Done string WriteReply

text \<open>The ids a sequence of calls lets through, in order, and the memory it leaves.\<close>

definition memory_step :: "memory_op \<Rightarrow> string list \<times> CommandDedup \<Rightarrow> string list \<times> CommandDedup" where
  "memory_step p s = (case p of
     Reserve i \<Rightarrow> (case TryReserve i (snd s) of (r, d) \<Rightarrow> (if r = Proceed then fst s @ [i] else fst s, d))
   | Done i reply \<Rightarrow> (fst s, Complete i reply (snd s)))"

fun memory_run :: "memory_op list \<Rightarrow> string list \<times> CommandDedup \<Rightarrow> string list \<times> CommandDedup" where
  "memory_run [] s = s"
| "memory_run (p # ps) s = memory_run ps (memory_step p s)"

text \<open>The keys are the ids let through last, as many as fit, and each of them is remembered.\<close>

definition memory_inv :: "nat \<Rightarrow> string list \<times> CommandDedup \<Rightarrow> bool" where
  "memory_inv n s \<longleftrightarrow> cd_cap (snd s) = int n \<and> cd_keys (snd s) = drop (length (fst s) - n) (fst s)
     \<and> distinct (cd_keys (snd s)) \<and> set (cd_keys (snd s)) \<subseteq> dom (map_of (cd_entries (snd s)))
     \<and> (\<forall>i j. i < j \<longrightarrow> j < length (fst s) \<longrightarrow> fst s ! i = fst s ! j \<longrightarrow> n < j - i)"

lemma dom_alist_update [simp]: "dom (map_of (AList.update k v m)) = insert k (dom (map_of m))"
  by (auto simp: update_conv')

lemma dom_alist_delete [simp]: "dom (map_of (AList.delete k m)) = dom (map_of m) - {k}"
  by (auto simp: delete_conv')

lemma window_append:
  assumes "0 < n" "ks = drop (length ps - n) ps" "i \<notin> set ks"
    and "\<forall>a b. a < b \<longrightarrow> b < length ps \<longrightarrow> ps ! a = ps ! b \<longrightarrow> n < b - a"
  shows "drop (length (ps @ [i]) - n) (ps @ [i]) = (if length ks \<ge> n then tl ks else ks) @ [i]"
    and "\<forall>a b. a < b \<longrightarrow> b < length (ps @ [i]) \<longrightarrow> (ps @ [i]) ! a = (ps @ [i]) ! b \<longrightarrow> n < b - a"
proof -
  show "drop (length (ps @ [i]) - n) (ps @ [i]) = (if length ks \<ge> n then tl ks else ks) @ [i]"
    using assms(1,2) by (auto simp: tl_drop Suc_diff_le drop_Suc [symmetric] not_le)
  have "ps ! a \<noteq> i" if "a < length ps" "length ps - a \<le> n" for a
  proof
    assume "ps ! a = i"
    with that have "drop (length ps - n) ps ! (a - (length ps - n)) = i" "a - (length ps - n) < length (drop (length ps - n) ps)"
      by auto
    with assms(2,3) show False by (metis nth_mem)
  qed
  then have far: "n < length ps - a" if "a < length ps" "ps ! a = i" for a using that by (metis not_le)
  show "\<forall>a b. a < b \<longrightarrow> b < length (ps @ [i]) \<longrightarrow> (ps @ [i]) ! a = (ps @ [i]) ! b \<longrightarrow> n < b - a"
    using assms(4) far by (auto simp: nth_append less_Suc_eq)
qed

lemma TryReserve_new:
  assumes "0 < cd_cap d" "map_of (cd_entries d) i = None"
  shows "TryReserve i d = (Proceed, d\<lparr>cd_entries := AList.update i None
           (if cd_cap d \<le> int (length (cd_keys d)) then AList.delete (hd (cd_keys d)) (cd_entries d) else cd_entries d),
         cd_keys := (if cd_cap d \<le> int (length (cd_keys d)) then tl (cd_keys d) else cd_keys d) @ [i]\<rparr>)"
  using assms by (cases "cd_keys d") (auto simp: TryReserve_def)

lemma TryReserve_old:
  "map_of (cd_entries d) i = Some v \<Longrightarrow> TryReserve i d = ((case v of None \<Rightarrow> InFlight | Some r \<Rightarrow> Cached r), d)"
  by (auto simp: TryReserve_def split: option.splits)

lemma memory_step_inv:
  assumes "0 < n" "memory_inv n s"
  shows "memory_inv n (memory_step p s)"
proof -
  obtain ps d where s: "s = (ps, d)" by (cases s)
  note inv = assms(2) [unfolded memory_inv_def s fst_conv snd_conv]
  show ?thesis
  proof (cases p)
    case (Done i r)
    with inv show ?thesis by (auto simp: memory_inv_def memory_step_def Complete_def s)
  next
    case (Reserve i)
    show ?thesis
    proof (cases "map_of (cd_entries d) i")
      case (Some v)
      with Reserve have "memory_step p s = s"
        by (simp add: memory_step_def s TryReserve_old split: option.splits)
      with assms(2) show ?thesis by simp
    next
      case None
      from inv have ks: "cd_keys d = drop (length ps - n) ps"
        "\<forall>a b. a < b \<longrightarrow> b < length ps \<longrightarrow> ps ! a = ps ! b \<longrightarrow> n < b - a"
        and k: "cd_cap d = int n" "distinct (cd_keys d)" "set (cd_keys d) \<subseteq> dom (map_of (cd_entries d))" by blast+
      have i: "i \<notin> set (cd_keys d)" using None k(3) by (meson domIff subsetD)
      note w = window_append [OF assms(1) ks(1) i ks(2)]
      let ?full = "n \<le> length (cd_keys d)"
      let ?ks = "if ?full then tl (cd_keys d) else cd_keys d" and ?d = "snd (TryReserve i d)"
      have t: "TryReserve i d = (Proceed, d\<lparr>cd_entries := AList.update i None
           (if ?full then AList.delete (hd (cd_keys d)) (cd_entries d) else cd_entries d), cd_keys := ?ks @ [i]\<rparr>)"
        using TryReserve_new [OF _ None] k(1) assms(1) by simp
      have sub: "set ?ks \<subseteq> set (cd_keys d) - (if ?full then {hd (cd_keys d)} else {})" "distinct ?ks"
        using k(2) assms(1) by (cases "cd_keys d"; simp)+
      have d: "cd_cap ?d = int n" "cd_keys ?d = ?ks @ [i]" by (simp_all only: t snd_conv) (simp_all add: k(1))
      have "set (cd_keys d) - (if ?full then {hd (cd_keys d)} else {}) \<subseteq> dom (map_of (cd_entries ?d))"
        using k(3) by (cases ?full) (simp_all add: t subset_insertI2 Diff_mono)
      with sub(1) have "set ?ks \<subseteq> dom (map_of (cd_entries ?d))" by (rule subset_trans)
      moreover have "i \<in> dom (map_of (cd_entries ?d))" by (simp add: t)
      ultimately have dm: "set (?ks @ [i]) \<subseteq> dom (map_of (cd_entries ?d))" by simp
      have "i \<notin> set ?ks" using sub(1) i by blast
      with sub(2) have di: "distinct (?ks @ [i])" by simp
      have "memory_step p s = (ps @ [i], ?d)" by (simp add: Reserve memory_step_def s t)
      then show ?thesis using d dm di w by (simp only: memory_inv_def fst_conv snd_conv simp_thms)
    qed
  qed
qed

lemma memory_run_inv: "0 < n \<Longrightarrow> memory_inv n s \<Longrightarrow> memory_inv n (memory_run ps s)"
  using memory_step_inv by (induction ps s rule: memory_run.induct) simp_all

lemma memory_inv_New: "memory_inv n ([], NewCommandDedup (int n))"
  by (simp add: memory_inv_def NewCommandDedup_def)

lemma memory_run_append [simp]: "memory_run (ps @ qs) s = memory_run qs (memory_run ps s)"
  by (induction ps s rule: memory_run.induct) auto

lemma reserve_all:
  assumes "0 < cd_cap d" "distinct is" "set is \<inter> dom (map_of (cd_entries d)) = {}"
  shows "fst (memory_run (map Reserve is) (ps, d)) = ps @ is"
  using assms
proof (induction "is" arbitrary: ps d)
  case (Cons i "is")
  let ?d = "snd (TryReserve i d)"
  have n: "map_of (cd_entries d) i = None" using Cons.prems(3) by (auto simp: domIff)
  note t = TryReserve_new [OF Cons.prems(1) n]
  have "dom (map_of (cd_entries ?d)) \<subseteq> insert i (dom (map_of (cd_entries d)))" by (auto simp: t delete_conv' update_conv')
  then have "set is \<inter> dom (map_of (cd_entries ?d)) = {}" using Cons.prems(2,3) by auto
  moreover have "cd_cap ?d = cd_cap d" by (simp add: t)
  moreover have "memory_step (Reserve i) (ps, d) = (ps @ [i], ?d)" by (simp add: memory_step_def t)
  ultimately show ?case using Cons.IH [of ?d "ps @ [i]"] Cons.prems by simp
qed simp

lemma complete_all:
  "set is \<subseteq> dom (map_of (cd_entries (snd (memory_run (map (\<lambda>i. Done i r) is) s)))) \<and>
   dom (map_of (cd_entries (snd s))) \<subseteq> dom (map_of (cd_entries (snd (memory_run (map (\<lambda>i. Done i r) is) s))))
   \<and> fst (memory_run (map (\<lambda>i. Done i r) is) s) = fst s"
proof (induction "is" arbitrary: s)
  case (Cons i "is")
  from Cons [of "memory_step (Done i r) s"] show ?case by (auto simp: memory_step_def Complete_def)
qed simp

section \<open>Properties\<close>

definition silent_nats :: "unit nats_request" where
  "silent_nats subject req n = (NatsTimeout, n)"

definition no_json :: json_lib where
  "no_json = \<lparr>json_read = (\<lambda>_. None), json_write = (\<lambda>_. []), parse_float = (\<lambda>_. None), format_float = (\<lambda>_. [])\<rparr>"

definition sample_command :: "string \<Rightarrow> string \<Rightarrow> ControlCommand" where
  "sample_command i p = \<lparr>cc_ControlId = i, cc_PointId = p, cc_PresentValue = f64_one, cc_Priority = 8\<rparr>"

definition sample_resolver :: control_resolver where
  "sample_resolver = ResolveControl (Synced_Update [(sample_entry ''c1'' ''a'' ''p1'')\<lparr>Writable := True\<rparr>] (NewSynced None))"

text \<open>C14: A command is written at most once. Whatever streams the agent goes through, however often
  Building OS redelivers commands and whatever the connectors answer, no two requests carry the same
  control id; and while the admission gate is open, all results sent up for one control id are equal.\<close>

theorem commands_written_once:
  assumes "st = snd (snd (Egress_Run (Execute jl errtext (logged rq) res) gw reporter scs
                            (egress_New rv (dispatch_New ([], n)))))"
  shows "distinct (written_ids (eg_exec st))
    \<and> ((\<forall>sc \<in> set scs. \<forall>ev \<in> set (ss_events sc). gate_open ev) \<longrightarrow>
        (\<forall>r r'. UpResult r \<in> set (eg_ups st) \<and> UpResult r' \<in> set (eg_ups st) \<and> cr_ControlId r = cr_ControlId r' \<longrightarrow> r = r'))"
proof -
  have "log_remembered (eg_exec st)" unfolding assms Egress_Run_def
    by (rule streams_keep) (simp_all add: Execute_log_remembered egress_New_def log_remembered_New)
  moreover have "dispatcher.ups_answered (egress_New rv (dispatch_New ([], n)))"
    by (simp add: dispatcher.ups_answered_def dispatcher.answers_named_def egress_New_def dispatch_New_def)
  then have "\<forall>sc \<in> set scs. \<forall>ev \<in> set (ss_events sc). gate_open ev \<Longrightarrow> dispatcher.ups_answered st"
    unfolding assms Egress_Run_def by (rule dispatcher.streams_ups_answered)
  ultimately show ?thesis by (auto simp: log_remembered_def dispatcher.ups_answered_def) (metis option.inject)
qed

theorem commands_written_once_witness:
  "\<exists>st. st = snd (snd (Egress_Run (Execute no_json id (logged silent_nats) sample_resolver) ''gw'' False
       [\<lparr>ss_connected = True, ss_greeted = True,
         ss_events = [Recv (DownCommand (Some (sample_command ''x'' ''p1''))) None False], ss_random = 0, ss_cancelled = False\<rparr>,
        \<lparr>ss_connected = True, ss_greeted = True,
         ss_events = [Recv (DownCommand (Some (sample_command ''x'' ''p1''))) None True], ss_random = 0, ss_cancelled = True\<rparr>]
       (egress_New True (dispatch_New ([], ())))))
     \<and> distinct (written_ids (eg_exec st))
     \<and> eg_ups st = [UpHello ''gw'', UpHello ''gw'', UpResult (failed (sample_command ''x'' ''p1'') ''timeout'')]
     \<and> map fst (log_of (eg_exec st)) = [''cmd.bacnet.c1'']"
  apply (rule exI, rule conjI, rule refl)
  apply (rule conjI)
   apply (rule conjunct1 [OF commands_written_once [OF refl]])
  apply (simp add: Egress_Run_def runStream_def egress_recv_def Execute_def execute_def control_request_def logged_def silent_nats_def
      sample_resolver_def ResolveControl_def Synced_Update_def NewSynced_def sample_entry_def zero_Entry_def sample_command_def
      egress_New_def dispatch_New_def failed_def log_of_def Backoff_Next_def Egress_backoff_def f64_defs Let_def)
  done

text \<open>C17: Where a command may be written. Every request the dispatcher makes over a Point List is for
  one of the commands, and goes to the subject, address and device of a writable point of that list: the
  commanded point itself, or, when that is a release point, the writable BACnet point it releases, and
  then only with value 1 and a priority from 0 to 16.\<close>

theorem commands_reach_writable_points:
  assumes "sq \<in> set (log_of (snd (run_commands (Execute jl errtext (logged rq) (ResolveControl (Synced_Update es r))) cs
                                     (dispatch_New ([], n)))))"
  shows "\<exists>cmd \<in> snd ` set cs. \<exists>t. sq = request_to cmd t (PointID t \<noteq> cc_PointId cmd) \<and> write_target es cmd t"
proof -
  from run_log_member [OF assms] obtain cmd where cmd: "cmd \<in> snd ` set cs"
    "control_request (ResolveControl (Synced_Update es r)) cmd = Inr sq"
    by (auto simp: log_of_def dispatch_New_def)
  with control_request_target show ?thesis by blast
qed

theorem commands_reach_writable_points_witness:
  "\<exists>cmd \<in> {sample_command ''x'' ''p1''}. \<exists>t. (''cmd.bacnet.c1'', \<lparr>wq_Release = False, wq_ControlID = ''x'', wq_LocalID = ''a'',
      wq_DeviceRef = [], wq_Value = f64_one, wq_Priority = 8\<rparr>) = request_to cmd t (PointID t \<noteq> cc_PointId cmd)
    \<and> write_target [(sample_entry ''c1'' ''a'' ''p1'')\<lparr>Writable := True\<rparr>] cmd t"
  using commands_reach_writable_points [of "(''cmd.bacnet.c1'', \<lparr>wq_Release = False, wq_ControlID = ''x'', wq_LocalID = ''a'',
      wq_DeviceRef = [], wq_Value = f64_one, wq_Priority = 8\<rparr>)" no_json id silent_nats
      "[(sample_entry ''c1'' ''a'' ''p1'')\<lparr>Writable := True\<rparr>]" "NewSynced None" "[(None, sample_command ''x'' ''p1'')]" "()"]
  by (simp add: Execute_def execute_def control_request_def logged_def silent_nats_def
      ResolveControl_def Synced_Update_def NewSynced_def sample_entry_def zero_Entry_def sample_command_def
      dispatch_New_def log_of_def f64_defs Let_def)

text \<open>C39: A stream executes its commands one at a time and in order. The commands executed are those received up
  to and including the first whose result cannot be sent; the results sent are their results in that order, that
  last one missing; and the stream ends with an error exactly then.\<close>

theorem runStream_in_order:
  "eg_exec (runStream exec gw True True reporter evs st) = snd (run_commands exec (fst (stream_executed evs)) (eg_exec st))
   \<and> results_of (eg_ups (runStream exec gw True True reporter evs st)) = results_of (eg_ups st) @
       (let rs = fst (run_commands exec (fst (stream_executed evs)) (eg_exec st))
        in if snd (stream_executed evs) then butlast rs else rs)
   \<and> eg_closed (runStream exec gw True True reporter evs st) = snd (stream_executed evs)"
  by (simp add: runStream_def runStream_loop_executes)



text \<open>The memory is not bounded by its capacity. When commands are let through faster than they
  complete, completing an evicted one stores it again outside the key list: any number of distinct
  commands reserved and then completed are all kept.\<close>

theorem CommandDedup_outgrows_cap:
  assumes "0 < c" "distinct is" "memory_run (map Reserve is @ map (\<lambda>i. Done i reply) is) ([], NewCommandDedup c) = (ps, d)"
  shows "ps = is \<and> length is \<le> length (cd_entries d)"
proof -
  have r: "fst (memory_run (map Reserve is) ([], NewCommandDedup c)) = is"
    using reserve_all [of "NewCommandDedup c" "is" "[]"] assms(1,2) by (simp add: NewCommandDedup_def)
  from complete_all [of "is" reply "memory_run (map Reserve is) ([], NewCommandDedup c)"]
  have "ps = is" "set is \<subseteq> dom (map_of (cd_entries d))" using assms(3) r by simp_all
  moreover from this(2) have "card (set is) \<le> card (set (map fst (cd_entries d)))"
    by (intro card_mono) (auto simp: dom_map_of_conv_image_fst)
  then have "length is \<le> length (cd_entries d)"
    using distinct_card [OF assms(2)] card_length [of "map fst (cd_entries d)"] by simp
  ultimately show ?thesis by simp
qed

theorem CommandDedup_outgrows_cap_witness:
  "length [''a'', ''b'', ''c''] \<le> length (cd_entries (snd (memory_run
     (map Reserve [''a'', ''b'', ''c''] @ map (\<lambda>i. Done i \<lparr>wr_Success = True, wr_Response = []\<rparr>) [''a'', ''b'', ''c''])
     ([], NewCommandDedup 1))))"
  by (rule conjunct2 [OF CommandDedup_outgrows_cap]) (auto simp: prod_eq_iff)

end
