(* ===== verification/Mqtt_Pipeline.thy ===== *)
theory Mqtt_Pipeline
  imports Mqtt_Connector Control_Facts
begin

text \<open>
  The MQTT connector's pipeline: messages are published in the order they arrive and acknowledged only after
  JetStream has them, a publish that fails is retried until it lands, the shutdown flush publishes what is left,
  and the limiter's table stays bounded.
\<close>

section \<open>What the steps do\<close>

fun published_pairs :: "mqtt_effect list \<Rightarrow> (string \<times> nat) list" where
  "published_pairs [] = []"
| "published_pairs (Publish d # Ack k # es) = (d, k) # published_pairs es"
| "published_pairs (_ # es) = published_pairs es"

fun settled :: "mqtt_effect list \<Rightarrow> bool" where
  "settled [] = True"
| "settled [e] = (case e of Publish d \<Rightarrow> False | _ \<Rightarrow> True)"
| "settled (e # f # es) = settled (f # es)"

lemma settled_snoc [simp]: "settled (es @ [e]) = (case e of Publish d \<Rightarrow> False | _ \<Rightarrow> True)"
  by (induction es rule: settled.induct) auto

lemma settled_tl: "settled (e # es) \<Longrightarrow> settled es"
  by (cases es) auto

lemma published_pairs_append: "settled es \<Longrightarrow> published_pairs (es @ fs) = published_pairs es @ published_pairs fs"
  by (induction es rule: published_pairs.induct) (auto dest: settled_tl split: mqtt_effect.splits)

lemma onPublishReceived_effects:
  assumes "onPublishReceived cd cfg pk now c = (c1, op)"
  shows "mc_queue c1 = mc_queue c" "mc_published c1 = mc_published c"
    "mc_effects c1 = mc_effects c @ (case op of None \<Rightarrow> [Ack (pk_id pk)] | Some p \<Rightarrow> [])"
    "op = Some p \<Longrightarrow> pp_packet p = pk_id pk"
proof -
  have w: "mc_queue (snd (allowWildcard cfg t now d)) = mc_queue d" "mc_published (snd (allowWildcard cfg t now d)) = mc_published d"
    "mc_effects (snd (allowWildcard cfg t now d)) = mc_effects d" for t d
    by (simp_all add: allowWildcard_def Let_def)
  show "mc_queue c1 = mc_queue c" "mc_published c1 = mc_published c"
    "mc_effects c1 = mc_effects c @ (case op of None \<Rightarrow> [Ack (pk_id pk)] | Some p \<Rightarrow> [])"
    "op = Some p \<Longrightarrow> pp_packet p = pk_id pk"
    using assms w [of "pk_Topic pk" "c\<lparr>mc_received := mc_received c + 1\<rparr>"]
    by (auto simp: onPublishReceived_def ack_def Let_def split: if_splits option.splits prod.splits bool.splits payloadOutcome.splits)
qed

lemma publishPending_lands:
  assumes "publishPending p b as c = Some (True, ws, c1)"
  shows "mc_queue c1 = mc_queue c" "mc_published c1 = mc_published c + 1" "mc_failingSince c1 = 0"
    "mc_effects c1 = mc_effects c @ [Publish (pp_data p), Ack (pp_packet p)]"
  using assms
  by (induction p b as c arbitrary: ws rule: publishPending.induct)
    (auto simp: ack_def recordValue_def Let_def split: if_splits option.splits)

lemma publishPending_gives_up:
  assumes "publishPending p b as c = Some (False, ws, c1)"
  shows "mc_queue c1 = mc_queue c" "mc_effects c1 = mc_effects c"
  using assms
  by (induction p b as c arbitrary: ws rule: publishPending.induct)
    (auto simp: Let_def split: if_splits option.splits)

section \<open>The pipeline\<close>

text \<open>A run, with the messages handed over in order.\<close>

fun pipe_run :: "codecs \<Rightarrow> MqttConfig \<Rightarrow> pipe_event list \<Rightarrow> MqttConnector \<times> pendingPublish option
    \<Rightarrow> ((MqttConnector \<times> pendingPublish option) \<times> pendingPublish list) option" where
  "pipe_run cd cfg [] st = Some (st, [])"
| "pipe_run cd cfg (ev # evs) st =
     (case pipe_step cd cfg ev st of None \<Rightarrow> None
      | Some (st1, hs) \<Rightarrow> (case pipe_run cd cfg evs st1 of None \<Rightarrow> None | Some (st2, hs') \<Rightarrow> Some (st2, hs @ hs')))"

definition taken_list :: "pendingPublish option \<Rightarrow> pendingPublish list" where
  "taken_list t = (case t of None \<Rightarrow> [] | Some p \<Rightarrow> [p])"

definition pair_of :: "pendingPublish \<Rightarrow> string \<times> nat" where
  "pair_of p = (pp_data p, pp_packet p)"

definition pipe_inv :: "pendingPublish list \<Rightarrow> MqttConnector \<times> pendingPublish option \<Rightarrow> bool" where
  "pipe_inv handed st \<longleftrightarrow> (\<exists>pub. handed = pub @ taken_list (snd st) @ mc_queue (fst st)
     \<and> published_pairs (mc_effects (fst st)) = map pair_of pub \<and> settled (mc_effects (fst st))
     \<and> mc_published (fst st) = int (length pub) \<and> length (mc_queue (fst st)) \<le> publishQueueSize)"

lemma pipe_step_inv:
  assumes "pipe_inv handed st" "pipe_step cd cfg ev st = Some (st1, hs)"
  shows "pipe_inv (handed @ hs) st1"
proof -
  obtain c taken where st: "st = (c, taken)" by (cases st)
  from assms(1) obtain pub where inv: "handed = pub @ taken_list taken @ mc_queue c"
    "published_pairs (mc_effects c) = map pair_of pub" "settled (mc_effects c)" "mc_published c = int (length pub)"
    "length (mc_queue c) \<le> publishQueueSize" by (auto simp: pipe_inv_def st)
  show ?thesis
  proof (cases ev)
    case (Arrives pk now)
    obtain c1 r where r: "onPublishReceived cd cfg pk now c = (c1, r)" by (cases "onPublishReceived cd cfg pk now c")
    note e = onPublishReceived_effects(1-3) [OF r]
    show ?thesis
    proof (cases r)
      case None
      with assms(2) r have s1: "st1 = (c1, taken)" "hs = []" by (simp_all add: Arrives st)
      show ?thesis unfolding pipe_inv_def s1 using inv e None by (intro exI [of _ pub]) (simp add: published_pairs_append)
    next
      case (Some p)
      with assms(2) r have s1: "st1 = (c1\<lparr>mc_queue := mc_queue c1 @ [p]\<rparr>, taken)" "hs = [p]" "length (mc_queue c1) < publishQueueSize"
        by (auto simp: Arrives st split: if_splits)
      show ?thesis unfolding pipe_inv_def s1(1,2) using inv e Some s1(3) by (intro exI [of _ pub]) simp
    qed
  next
    case Takes
    with assms(2) obtain p ps where s1: "taken = None" "mc_queue c = p # ps" "st1 = (c\<lparr>mc_queue := ps\<rparr>, Some p)" "hs = []"
      by (auto simp: st split: option.splits list.splits)
    show ?thesis unfolding pipe_inv_def s1(3,4) using inv s1(1,2) by (intro exI [of _ pub]) (simp add: taken_list_def)
  next
    case (Lands_after as)
    with assms(2) obtain p ws c1 where s1: "taken = Some p" "publishPending p publishRetryMin as c = Some (True, ws, c1)"
      "st1 = (c1, None)" "hs = []"
      by (auto simp: st split: option.splits prod.splits bool.splits)
    note e = publishPending_lands [OF s1(2)]
    have "published_pairs (mc_effects c1) = map pair_of (pub @ [p])"
      using inv(2,3) by (simp add: e(4) published_pairs_append pair_of_def)
    moreover have "settled (mc_effects c1)" using settled_snoc [of "mc_effects c @ [Publish (pp_data p)]" "Ack (pp_packet p)"] by (simp add: e(4))
    ultimately show ?thesis unfolding pipe_inv_def s1(3,4) using inv(1,4,5) s1(1) e(1,2)
      by (intro exI [of _ "pub @ [p]"]) (simp add: taken_list_def)
  qed
qed

lemma pipe_run_inv:
  "pipe_inv handed st \<Longrightarrow> pipe_run cd cfg evs st = Some (st1, hs) \<Longrightarrow> pipe_inv (handed @ hs) st1"
proof (induction evs arbitrary: handed st hs)
  case (Cons ev evs)
  from Cons.prems(2) obtain st2 hs1 hs2 where s: "pipe_step cd cfg ev st = Some (st2, hs1)"
    "pipe_run cd cfg evs st2 = Some (st1, hs2)" "hs = hs1 @ hs2" by (auto split: option.splits)
  from Cons.IH [OF pipe_step_inv [OF Cons.prems(1) s(1)] s(2)] s(3) show ?case by simp
qed simp

section \<open>Retries and the shutdown flush\<close>

fun retry_waits :: "int \<Rightarrow> nat \<Rightarrow> int list" where
  "retry_waits b 0 = []"
| "retry_waits b (Suc n) = b # retry_waits (min (b * 2) publishRetryMax) n"

lemma publishPending_retries:
  "\<exists>c1. publishPending p b (map (\<lambda>t. Fails t False) ts @ [Lands]) c = Some (True, retry_waits b (length ts), c1)
     \<and> mc_publishErrors c1 = mc_publishErrors c + int (length ts)"
proof (induction ts arbitrary: b c)
  case Nil
  show ?case by (simp add: Let_def ack_def recordValue_def)
next
  case (Cons t ts)
  let ?c = "c\<lparr>mc_publishErrors := mc_publishErrors c + 1, mc_failingSince := (if mc_failingSince c = 0 then t else mc_failingSince c)\<rparr>"
  from Cons [of "min (b * 2) publishRetryMax" ?c] show ?case by (auto simp: Let_def)
qed

lemma retry_waits_bound: "0 < b \<Longrightarrow> b \<le> publishRetryMax \<Longrightarrow> w \<in> set (retry_waits b n) \<Longrightarrow> 0 < w \<and> w \<le> publishRetryMax"
proof (induction n arbitrary: b)
  case (Suc n)
  from Suc.IH [of "min (b * 2) publishRetryMax"] Suc.prems show ?case by (auto simp: publishRetryMax_def)
qed simp

lemma retry_waits_nth:
  "0 < b \<Longrightarrow> b \<le> publishRetryMax \<Longrightarrow> i < n \<Longrightarrow> retry_waits b n ! i = min (b * 2 ^ i) publishRetryMax"
proof (induction n arbitrary: b i)
  case (Suc n)
  show ?case
  proof (cases i)
    case (Suc j)
    have m: "min (min (b * 2) publishRetryMax * 2 ^ j) publishRetryMax = min (b * 2 ^ Suc j) publishRetryMax"
    proof (cases "b * 2 \<le> publishRetryMax")
      case False
      have one: "(1 :: int) \<le> 2 ^ j" by simp
      have "publishRetryMax * 1 \<le> publishRetryMax * 2 ^ j" using one by (intro mult_left_mono) (simp_all add: publishRetryMax_def)
      moreover have "publishRetryMax * 2 ^ j \<le> b * 2 * 2 ^ j" using False by (intro mult_right_mono) simp_all
      moreover have "b * 2 * 2 ^ j = b * 2 ^ Suc j" by simp
      ultimately have "publishRetryMax \<le> publishRetryMax * 2 ^ j" "publishRetryMax \<le> b * 2 ^ Suc j" by linarith+
      then show ?thesis using False by (simp only: min.absorb2 linear min_def) simp
    qed (simp add: ac_simps)
    from Suc.IH [of "min (b * 2) publishRetryMax" j] Suc.prems Suc m show ?thesis by (simp add: publishRetryMax_def)
  qed (use Suc.prems in simp)
qed simp

lemma drainQueue_flushes:
  assumes "\<forall>p. \<exists>ts. tries p = map (\<lambda>t. Fails t False) ts @ [Lands]"
  shows "\<exists>c1. drainQueue (map (\<lambda>p. (p, tries p)) ps) c = Some c1
     \<and> mc_effects c1 = mc_effects c @ concat (map (\<lambda>p. [Publish (pp_data p), Ack (pp_packet p)]) ps)"
proof (induction ps arbitrary: c)
  case (Cons p ps)
  from assms obtain ts where "tries p = map (\<lambda>t. Fails t False) ts @ [Lands]" by blast
  with publishPending_retries [of p publishRetryMin ts c] obtain ws c1 where
    l: "publishPending p publishRetryMin (tries p) c = Some (True, ws, c1)" by auto
  from Cons [of c1] show ?case by (auto simp: l publishPending_lands(4) [OF l])
qed simp

section \<open>Properties\<close>


definition digit_codecs :: codecs where
  "digit_codecs = \<lparr>c_json = \<lparr>json_read = (\<lambda>s. Some (JNum s)), json_write = (\<lambda>j. case j of JObj ms \<Rightarrow> concat (map fst ms) | _ \<Rightarrow> []),
     parse_float = (\<lambda>s. Some f64_one), format_float = (\<lambda>x. ''1'')\<rparr>,
     c_first = (\<lambda>s. Some (JNum s)), c_number = (\<lambda>s. True), c_time = \<lparr>parse_rfc3339 = (\<lambda>s. None), format_rfc3339 = (\<lambda>t. [])\<rparr>\<rparr>"

definition one_topic :: MqttConfig where
  "one_topic = \<lparr>mcf_ConnectorID = ''c1'', mcf_MaxPayloadBytes = 0, mcf_Subscriptions = [], mcf_IgnoreTopics = [],
     mcf_Points = [\<lparr>pt_Topic = ''a/b'', pt_DeviceRef = [], pt_Unit = [], pt_Writable = False, pt_CommandTopic = [], pt_PayloadTemplate = [],
       pt_QoS = 0, pt_CommandQoS = 0\<rparr>], mcf_FreshnessInterval = 0, mcf_WildcardMinInterval = 0, mcf_ReceiveMaximum = 0\<rparr>"

definition one_run :: "pipe_event list" where
  "one_run = [Arrives \<lparr>pk_id = 1, pk_Topic = ''x'', pk_Payload = ''1''\<rparr> 0, Arrives \<lparr>pk_id = 2, pk_Topic = ''a/b'', pk_Payload = ''1''\<rparr> 0,
     Takes, Arrives \<lparr>pk_id = 3, pk_Topic = ''a/b'', pk_Payload = ''1''\<rparr> 5, Lands_after [Fails 7 False, Lands]]"


text \<open>A failing publish is retried until it lands. After any number of failures without a cancellation the frame is
  published and acknowledged; the waits double from a tenth of a second up to five seconds; the error counter
  has grown by the failures and the stall is over.\<close>

theorem mqtt_publish_retries:
  "\<exists>ws c1. publishPending p publishRetryMin (map (\<lambda>t. Fails t False) ts @ [Lands]) c = Some (True, ws, c1)
     \<and> length ws = length ts \<and> list_all (\<lambda>i. ws ! i = min (publishRetryMin * 2 ^ i) publishRetryMax) [0..<length ts]
     \<and> mc_effects c1 = mc_effects c @ [Publish (pp_data p), Ack (pp_packet p)]
     \<and> mc_publishErrors c1 = mc_publishErrors c + int (length ts) \<and> publishStalled now c1 = 0"
proof -
  from publishPending_retries [of p publishRetryMin ts c] obtain c1 where
    l: "publishPending p publishRetryMin (map (\<lambda>t. Fails t False) ts @ [Lands]) c = Some (True, retry_waits publishRetryMin (length ts), c1)"
    "mc_publishErrors c1 = mc_publishErrors c + int (length ts)" by blast
  have "length (retry_waits b n) = n" for b n by (induction n arbitrary: b) auto
  with l publishPending_lands [OF l(1)] show ?thesis
    by (auto simp: list_all_iff publishStalled_def retry_waits_nth publishRetryMin_def publishRetryMax_def)
qed

section \<open>The limiter and the freshness floor\<close>

lemma length_alist_update: "length (AList.update k v m) \<le> Suc (length m)"
  by (induction m) auto

lemma allowWildcard_bounded:
  assumes "length (mc_wildLast c) \<le> maxWildcardTracked"
  shows "length (mc_wildLast (snd (allowWildcard cfg t now c))) \<le> maxWildcardTracked"
proof -
  let ?w = "filter (\<lambda>(t, seen). \<not> now - seen \<ge> wildcardMinInterval cfg) (mc_wildLast c)"
  let ?w1 = "if length (mc_wildLast c) \<ge> maxWildcardTracked then if length ?w \<ge> maxWildcardTracked then [] else ?w else mc_wildLast c"
  have "length ?w1 < maxWildcardTracked" by (simp add: maxWildcardTracked_def)
  then have "length (AList.update t now ?w1) \<le> maxWildcardTracked" using length_alist_update [of t now ?w1] by linarith
  moreover have "mc_wildLast (snd (allowWildcard cfg t now c)) \<in> {mc_wildLast c, AList.update t now ?w1}"
    by (simp add: allowWildcard_def Let_def)
  ultimately show ?thesis using assms by (elim insertE emptyE) (simp_all only:)
qed

text \<open>Between two accepted messages of a topic lies the minimum interval, as long as the table was not cleared.\<close>

lemma allowWildcard_gap:
  assumes "map_of (mc_wildLast c) t = Some seen" "0 < wildcardMinInterval cfg" "fst (allowWildcard cfg t now c)"
  shows "wildcardMinInterval cfg \<le> now - seen"
  using assms by (auto simp: allowWildcard_def Let_def split: if_splits)

text \<open>A value is repeated only when its recorded time is old enough: a source clock that runs ahead holds the repetition back.\<close>

lemma dueForRepublish_old:
  "t \<in> set (dueForRepublish ord cfg now c) \<Longrightarrow>
     \<exists>s. map_of (mc_lkv c) t = Some s \<and> 0 < mcf_FreshnessInterval cfg \<and> mcf_FreshnessInterval cfg \<le> now - lk_lastEmit s"
  by (auto simp: dueForRepublish_def split: if_splits option.splits)

section \<open>Writes\<close>

text \<open>A write reaches the broker only for a writable point with a command topic, and only when the memory lets its id through.\<close>

lemma handleWrite_publishes:
  assumes "handleWrite format_g sprintf oreq cm perr c = (reply, c1)" "mc_effects c1 \<noteq> mc_effects c"
  shows "\<exists>req p. oreq = Some req \<and> cm \<and> \<not> wq_Release req \<and> fst (TryReserve (wq_ControlID req) (mc_dedup c)) = Proceed
     \<and> map_of (ti_points (mc_topics c)) (wq_LocalID req) = Some p \<and> pt_Writable p \<and> pt_CommandTopic p \<noteq> []
     \<and> mc_effects c1 = mc_effects c @ [BrokerPublish (pt_CommandTopic p) (point_commandQoS p)
         (formatPayload format_g sprintf (pt_PayloadTemplate p) (wq_Value req))]"
  using assms
  by (auto simp: handleWrite_def Let_def split: option.splits if_splits prod.splits reserve_result.splits)

lemma handleWrite_repeated:
  assumes "map_of (cd_entries (mc_dedup c)) (wq_ControlID req) = Some (Some r)" "\<not> wq_Release req"
  shows "handleWrite format_g sprintf (Some req) True perr c = (Some r, c)"
  using assms by (simp add: handleWrite_def TryReserve_old)

end
