(* ===== verification/Catalog.thy ===== *)
theory Catalog
  imports Go_Lib
begin

text \<open>
  The connector catalog (\<open>internal/catalog\<close>): manifests and their validation, the file client, the status
  handling of the HTTP client, and the arguments of the signature check. Reading files and URLs, running
  \<open>cosign\<close> and the JSON text are parameters.
\<close>

section \<open>Manifests\<close>

record Permissions =
  pm_Network :: "string list"
  pm_Mounts :: "string list"

record Manifest =
  mf_Name :: string
  mf_Version :: string
  mf_Image :: string
  mf_Digest :: string
  mf_MinGatewayVersion :: string
  mf_Permissions :: Permissions
  mf_SignatureRequired :: bool

datatype catalog_error = ErrNoDigest | ErrInvalidDigest string | ErrRegistryNotAllowed string | ErrVersionTooOld string string
  | ErrManifestNotFound string | CatalogIO | CatalogStatus int | CatalogDecode

definition ImageRef :: "Manifest \<Rightarrow> string" where
  "ImageRef m = mf_Image m @ ''@'' @ mf_Digest m"

text \<open>\<open>^sha256:[0-9a-f]{64}$\<close>\<close>

definition hex_digit :: "char \<Rightarrow> bool" where
  "hex_digit c = (let n = of_char c :: nat in (0x30 \<le> n \<and> n \<le> 0x39) \<or> (0x61 \<le> n \<and> n \<le> 0x66))"

definition digestPattern :: "string \<Rightarrow> bool" where
  "digestPattern s = (is_prefix ''sha256:'' s \<and> length s = 71 \<and> list_all hex_digit (drop 7 s))"

definition registryAllowed :: "string \<Rightarrow> string list \<Rightarrow> bool" where
  "registryAllowed img allowed = list_ex (\<lambda>a. is_prefix a img) allowed"

text \<open>
  \<open>fmt.Sscanf(v, "%d.%d.%d", ...)\<close>: a number may have blanks and a sign before its digits, a value out of the range of
  \<open>int\<close> and everything that does not fit the format end the scan, and the numbers not reached stay zero.
\<close>

definition digit_value :: "char \<Rightarrow> nat option" where
  "digit_value c = (let n = of_char c :: nat in if 0x30 \<le> n \<and> n \<le> 0x39 then Some (n - 0x30) else None)"

fun scan_digits :: "nat option \<Rightarrow> string \<Rightarrow> nat option \<times> string" where
  "scan_digits acc [] = (acc, [])"
| "scan_digits acc (c # s) =
     (case digit_value c of
        None \<Rightarrow> (acc, c # s)
      | Some d \<Rightarrow> scan_digits (Some ((case acc of None \<Rightarrow> 0 | Some n \<Rightarrow> n) * 10 + d)) s)"

definition scan_int :: "string \<Rightarrow> (int \<times> string) option" where
  "scan_int s0 =
     (let s = dropWhile (\<lambda>c. c \<in> {CHR '' '', CHR 0x09, CHR 0x0D}) s0;
          neg = (s \<noteq> [] \<and> hd s = CHR ''-'');
          s1 = (if s \<noteq> [] \<and> hd s \<in> {CHR ''+'', CHR ''-''} then tl s else s)
      in case scan_digits None s1 of
           (None, _) \<Rightarrow> None
         | (Some n, rest) \<Rightarrow>
             let v = (if neg then - int n else int n)
             in if - (2 ^ 63) \<le> v \<and> v < 2 ^ 63 then Some (v, rest) else None)"

definition parseSemver :: "string \<Rightarrow> int \<times> int \<times> int" where
  "parseSemver v0 =
     (case scan_int (TrimPrefix v0 ''v'') of
        None \<Rightarrow> (0, 0, 0)
      | Some (major, r1) \<Rightarrow>
        if r1 = [] \<or> hd r1 \<noteq> CHR ''.'' then (major, 0, 0)
        else case scan_int (tl r1) of
          None \<Rightarrow> (major, 0, 0)
        | Some (minor, r2) \<Rightarrow>
          if r2 = [] \<or> hd r2 \<noteq> CHR ''.'' then (major, minor, 0)
          else case scan_int (tl r2) of
            None \<Rightarrow> (major, minor, 0)
          | Some (patch, _) \<Rightarrow> (major, minor, patch))"

definition semverLess :: "string \<Rightarrow> string \<Rightarrow> bool" where
  "semverLess a b =
     (case (parseSemver a, parseSemver b) of ((a0, a1, a2), (b0, b1, b2)) \<Rightarrow>
        if a0 \<noteq> b0 then a0 < b0 else if a1 \<noteq> b1 then a1 < b1 else if a2 \<noteq> b2 then a2 < b2 else False)"

definition Validate :: "Manifest \<Rightarrow> string list \<Rightarrow> string \<Rightarrow> catalog_error option" where
  "Validate m allowed gwVersion =
     (if mf_Digest m = [] then Some ErrNoDigest
      else if \<not> digestPattern (mf_Digest m) then Some (ErrInvalidDigest (mf_Digest m))
      else if \<not> registryAllowed (mf_Image m) allowed then Some (ErrRegistryNotAllowed (mf_Image m))
      else if mf_MinGatewayVersion m \<noteq> [] \<and> semverLess gwVersion (mf_MinGatewayVersion m)
      then Some (ErrVersionTooOld gwVersion (mf_MinGatewayVersion m))
      else None)"

section \<open>Clients\<close>

definition dec_strings :: "json \<Rightarrow> string list option" where
  "dec_strings = dec_slice (\<lambda>j. case j of JStr s \<Rightarrow> Some s | JNull \<Rightarrow> Some [] | _ \<Rightarrow> None)"

definition Permissions_fields :: "(string \<times> Permissions field_decoder) list" where
  "Permissions_fields =
     [(''network'', \<lambda>j p. map_option (\<lambda>v. p\<lparr>pm_Network := v\<rparr>) (dec_strings j)),
      (''mounts'', \<lambda>j p. map_option (\<lambda>v. p\<lparr>pm_Mounts := v\<rparr>) (dec_strings j))]"

definition Manifest_fields :: "(string \<times> Manifest field_decoder) list" where
  "Manifest_fields =
     [(''name'', dec_string (\<lambda>s m. m\<lparr>mf_Name := s\<rparr>)), (''version'', dec_string (\<lambda>s m. m\<lparr>mf_Version := s\<rparr>)),
      (''image'', dec_string (\<lambda>s m. m\<lparr>mf_Image := s\<rparr>)), (''digest'', dec_string (\<lambda>s m. m\<lparr>mf_Digest := s\<rparr>)),
      (''min_gateway_version'', dec_string (\<lambda>s m. m\<lparr>mf_MinGatewayVersion := s\<rparr>)),
      (''permissions'', \<lambda>j m. map_option (\<lambda>p. m\<lparr>mf_Permissions := p\<rparr>) (dec_struct Permissions_fields j (mf_Permissions m))),
      (''signature_required'', dec_bool (\<lambda>b m. m\<lparr>mf_SignatureRequired := b\<rparr>))]"

definition zero_Manifest :: Manifest where
  "zero_Manifest = \<lparr>mf_Name = [], mf_Version = [], mf_Image = [], mf_Digest = [], mf_MinGatewayVersion = [],
     mf_Permissions = \<lparr>pm_Network = [], pm_Mounts = []\<rparr>, mf_SignatureRequired = False\<rparr>"

definition decode_Manifest :: "json \<Rightarrow> Manifest option" where
  "decode_Manifest j = dec_struct Manifest_fields j zero_Manifest"

text \<open>The file: \<^const>\<open>None\<close> if it cannot be read, otherwise its JSON value if it is one.\<close>

definition FileClient_List :: "json option option \<Rightarrow> catalog_error + Manifest list" where
  "FileClient_List data = (case data of None \<Rightarrow> Inl CatalogIO
     | Some None \<Rightarrow> Inl CatalogDecode
     | Some (Some j) \<Rightarrow> (case dec_slice decode_Manifest j of None \<Rightarrow> Inl CatalogDecode | Some ms \<Rightarrow> Inr ms))"

definition FileClient_Fetch_manifest :: "json option option \<Rightarrow> string \<Rightarrow> catalog_error + Manifest" where
  "FileClient_Fetch_manifest data name =
     (case FileClient_List data of
        Inl e \<Rightarrow> Inl e
      | Inr ms \<Rightarrow> (case find (\<lambda>m. mf_Name m = name) ms of None \<Rightarrow> Inl (ErrManifestNotFound name) | Some m \<Rightarrow> Inr m))"

text \<open>The HTTP client: \<open>get\<close> answers a URL with a status and the first JSON value of its body, or not at all.\<close>

type_synonym http_get = "string \<Rightarrow> (int \<times> json option) option"

definition HTTPClient_List :: "http_get \<Rightarrow> string \<Rightarrow> catalog_error + Manifest list" where
  "HTTPClient_List get baseURL =
     (case get (baseURL @ ''/connectors'') of
        None \<Rightarrow> Inl CatalogIO
      | Some (status, body) \<Rightarrow>
        if status \<noteq> 200 then Inl (CatalogStatus status)
        else case body of None \<Rightarrow> Inl CatalogDecode
          | Some j \<Rightarrow> (case dec_slice decode_Manifest j of None \<Rightarrow> Inl CatalogDecode | Some ms \<Rightarrow> Inr ms))"

definition HTTPClient_Fetch_manifest :: "http_get \<Rightarrow> string \<Rightarrow> string \<Rightarrow> catalog_error + Manifest" where
  "HTTPClient_Fetch_manifest get baseURL name =
     (case get (baseURL @ ''/connectors/'' @ name) of
        None \<Rightarrow> Inl CatalogIO
      | Some (status, body) \<Rightarrow>
        if status = 404 then Inl (ErrManifestNotFound name)
        else if status \<noteq> 200 then Inl (CatalogStatus status)
        else case body of None \<Rightarrow> Inl CatalogDecode
          | Some j \<Rightarrow> (case decode_Manifest j of None \<Rightarrow> Inl CatalogDecode | Some m \<Rightarrow> Inr m))"

section \<open>Signatures\<close>

record CosignVerifier =
  cv_KeyPath :: string
  cv_Identity :: string
  cv_OIDCIssuer :: string

definition cosign_args :: "CosignVerifier \<Rightarrow> string \<Rightarrow> string list" where
  "cosign_args v imageRef =
     [''verify'']
     @ (if cv_KeyPath v \<noteq> [] then [''--key'', cv_KeyPath v]
        else (if cv_Identity v \<noteq> [] then [''--certificate-identity'', cv_Identity v] else [])
           @ (if cv_OIDCIssuer v \<noteq> [] then [''--certificate-oidc-issuer'', cv_OIDCIssuer v] else []))
     @ [imageRef]"

definition CosignVerifier_Verify :: "(string list \<Rightarrow> bool) \<Rightarrow> CosignVerifier \<Rightarrow> string \<Rightarrow> bool" where
  "CosignVerifier_Verify run v imageRef = run (cosign_args v imageRef)"

definition NoopVerifier_Verify :: "string \<Rightarrow> bool" where
  "NoopVerifier_Verify imageRef = True"

section \<open>Facts\<close>

lemma semverLess_irrefl: "\<not> semverLess v v"
  by (simp add: semverLess_def split: prod.splits)

lemma semverLess_trans: "semverLess a b \<Longrightarrow> semverLess b c \<Longrightarrow> semverLess a c"
  by (auto simp: semverLess_def split: prod.splits if_splits)

lemma semverLess_total: "parseSemver a \<noteq> parseSemver b \<Longrightarrow> semverLess a b \<or> semverLess b a"
  by (auto simp: semverLess_def split: prod.splits)

text \<open>The allowlist compares prefixes: an entry admits every image name that continues it, within the same host or not.\<close>

lemma registryAllowed_continues: "registryAllowed (a @ s) [a]"
  by (simp add: registryAllowed_def is_prefix_def)

lemma Validate_NoneD:
  assumes "Validate m allowed gw = None"
  shows "digestPattern (mf_Digest m)" "registryAllowed (mf_Image m) allowed"
    "mf_MinGatewayVersion m \<noteq> [] \<Longrightarrow> \<not> semverLess gw (mf_MinGatewayVersion m)"
  using assms by (auto simp: Validate_def split: if_splits)

lemma FileClient_Fetch_named: "FileClient_Fetch_manifest d n = Inr m \<Longrightarrow> mf_Name m = n"
  by (auto simp: FileClient_Fetch_manifest_def find_Some_iff split: sum.splits option.splits)

end
