(* ===== verification/Lifecycle.thy ===== *)
theory Lifecycle
  imports Catalog
begin

text \<open>
  Connector lifecycle (\<open>internal/lifecycle\<close>): the registry, the manager's operations over the container engine,
  installing and updating from a manifest with soak and rollback, the watch and update loops, and the
  exclusive handle of clock provisioning. The engine is a parameter with a state of its own. Operations on
  one connector are serialised by its lock, so each is one step.
\<close>

section \<open>The registry\<close>

record ConnectorPermissions =
  cp_Network :: "string list"
  cp_Mounts :: "string list"

record ConnectorSpec =
  cs_ID :: string
  cs_Image :: string
  cs_PrevImage :: string
  cs_Env :: "string list"
  cs_Permissions :: ConnectorPermissions

record ConnectorStatus =
  cst_Spec :: ConnectorSpec
  cst_ContainerID :: string
  cst_Running :: bool

type_synonym Registry = "ConnectorStatus gomap"

definition Register :: "ConnectorSpec \<Rightarrow> Registry \<Rightarrow> Registry" where
  "Register spec r =
     (case map_of r (cs_ID spec) of
        Some e \<Rightarrow> AList.update (cs_ID spec) (e\<lparr>cst_Spec := spec\<rparr>) r
      | None \<Rightarrow> AList.update (cs_ID spec) \<lparr>cst_Spec = spec, cst_ContainerID = [], cst_Running = False\<rparr> r)"

definition SetRunning :: "string \<Rightarrow> string \<Rightarrow> bool \<Rightarrow> Registry \<Rightarrow> Registry" where
  "SetRunning i containerID running r =
     (case map_of r i of
        Some e \<Rightarrow> AList.update i (e\<lparr>cst_ContainerID := containerID, cst_Running := running\<rparr>) r
      | None \<Rightarrow> r)"

definition Registry_Remove :: "string \<Rightarrow> Registry \<Rightarrow> Registry" where
  "Registry_Remove i r = AList.delete i r"

definition Registry_Get :: "string \<Rightarrow> Registry \<Rightarrow> ConnectorStatus option" where
  "Registry_Get i r = map_of r i"

text \<open>In the order the map is ranged over.\<close>

definition Registry_List :: "(string list \<Rightarrow> string list) \<Rightarrow> Registry \<Rightarrow> ConnectorStatus list" where
  "Registry_List ord r = List.map_filter (map_of r) (ord (map fst r))"

section \<open>The engine and the manager\<close>

record container_config =
  cc_Image :: string
  cc_Env :: "string list"
  cc_Labels :: "string gomap"
  cc_Binds :: "string list"
  cc_Network :: "string option"
  cc_Name :: string

text \<open>What an inspection finds: the labels unless the base or the configuration is missing, and whether it runs unless the state is.\<close>

record inspect_info =
  ii_ID :: string
  ii_Labels :: "string gomap option"
  ii_Running :: "bool option"

datatype inspect_result = InspectNotFound | InspectError | Inspected inspect_info

record 'd ContainerClient =
  ContainerCreate :: "container_config \<Rightarrow> 'd \<Rightarrow> string option \<times> 'd"
  ContainerStart :: "string \<Rightarrow> 'd \<Rightarrow> bool \<times> 'd"
  ContainerStop :: "string \<Rightarrow> 'd \<Rightarrow> bool \<times> 'd"
  ContainerRemove :: "string \<Rightarrow> 'd \<Rightarrow> bool \<times> 'd"
  ContainerInspect :: "string \<Rightarrow> 'd \<Rightarrow> inspect_result \<times> 'd"
  ImagePull :: "string \<Rightarrow> 'd \<Rightarrow> bool \<times> 'd"
  ImageInspect :: "string \<Rightarrow> 'd \<Rightarrow> bool \<times> 'd"

record ManagerConfig =
  mgc_NATSURL :: string
  mgc_ConnectorNetwork :: string

record 'd Manager =
  mg_docker :: 'd
  mg_registry :: Registry
  mg_reserved :: "string list"

definition NewManager :: "'d \<Rightarrow> Registry \<Rightarrow> 'd Manager" where
  "NewManager d r = \<lparr>mg_docker = d, mg_registry = r, mg_reserved = []\<rparr>"

datatype lc_error = ErrConnectorNotFound string | ErrManaged | CreateFailed string | StartFailed string | StopFailed string
  | RemoveFailed string | PullFailed string | InvalidManifest catalog_error | VerifyFailed string | NoPreviousImage string
  | SoakInspectFailed | SoakExited | SoakCancelled | RollbackFailed lc_error lc_error | RolledBack lc_error
  | InspectFailed | Unowned | NoIdentity | Unconfirmed | NotStopped | NeedsClient

type_synonym 'd lc_op = "'d Manager \<Rightarrow> lc_error option \<times> 'd Manager"

definition checkReserved :: "string \<Rightarrow> 'd Manager \<Rightarrow> lc_error option" where
  "checkReserved i m = (if i \<in> set (mg_reserved m) then Some ErrManaged else None)"

text \<open>The environment of a container: that of the spec and, unless a variable with such a beginning is there, the bindings every connector needs.\<close>

definition connector_env :: "ManagerConfig \<Rightarrow> ConnectorSpec \<Rightarrow> string list" where
  "connector_env cfg spec =
     (let hasNATS = list_ex (is_prefix ''NATS_URL'') (cs_Env spec);
          hasID = list_ex (is_prefix ''CONNECTOR_ID'') (cs_Env spec)
      in cs_Env spec @ (if \<not> hasNATS \<and> mgc_NATSURL cfg \<noteq> [] then [''NATS_URL='' @ mgc_NATSURL cfg] else [])
         @ (if \<not> hasID then [''CONNECTOR_ID='' @ cs_ID spec] else []))"

definition createWithLabels :: "'d ContainerClient \<Rightarrow> ManagerConfig \<Rightarrow> ConnectorSpec \<Rightarrow> string gomap \<Rightarrow> 'd \<Rightarrow> string option \<times> 'd" where
  "createWithLabels dk cfg spec labels d =
     ContainerCreate dk
       \<lparr>cc_Image = cs_Image spec, cc_Env = connector_env cfg spec, cc_Labels = labels,
        cc_Binds = map (\<lambda>mount. mount @ '':'' @ mount @ '':ro'') (cp_Mounts (cs_Permissions spec)),
        cc_Network = (if mgc_ConnectorNetwork cfg \<noteq> [] then Some (mgc_ConnectorNetwork cfg) else None),
        cc_Name = ''nexus-'' @ cs_ID spec\<rparr> d"

definition doStart :: "'d ContainerClient \<Rightarrow> ManagerConfig \<Rightarrow> string \<Rightarrow> 'd lc_op" where
  "doStart dk cfg i m =
     (case Registry_Get i (mg_registry m) of
        None \<Rightarrow> (Some (ErrConnectorNotFound i), m)
      | Some status \<Rightarrow>
        (case createWithLabels dk cfg (cst_Spec status) [] (mg_docker m) of
           (None, d1) \<Rightarrow> (Some (CreateFailed i), m\<lparr>mg_docker := d1\<rparr>)
         | (Some containerID, d1) \<Rightarrow>
           (case ContainerStart dk containerID d1 of
              (False, d2) \<Rightarrow> (Some (StartFailed i), m\<lparr>mg_docker := d2\<rparr>)
            | (True, d2) \<Rightarrow> (None, m\<lparr>mg_docker := d2, mg_registry := SetRunning i containerID True (mg_registry m)\<rparr>))))"

definition doStop :: "'d ContainerClient \<Rightarrow> string \<Rightarrow> 'd lc_op" where
  "doStop dk i m =
     (case Registry_Get i (mg_registry m) of
        None \<Rightarrow> (Some (ErrConnectorNotFound i), m)
      | Some status \<Rightarrow>
        if cst_ContainerID status = [] then (None, m)
        else case ContainerStop dk (cst_ContainerID status) (mg_docker m) of
          (False, d1) \<Rightarrow> (Some (StopFailed i), m\<lparr>mg_docker := d1\<rparr>)
        | (True, d1) \<Rightarrow> (None, m\<lparr>mg_docker := d1, mg_registry := SetRunning i [] False (mg_registry m)\<rparr>))"

definition guarded :: "string \<Rightarrow> 'd lc_op \<Rightarrow> 'd lc_op" where
  "guarded i f m = (case checkReserved i m of Some e \<Rightarrow> (Some e, m) | None \<Rightarrow> f m)"

definition Start :: "'d ContainerClient \<Rightarrow> ManagerConfig \<Rightarrow> string \<Rightarrow> 'd lc_op" where
  "Start dk cfg i = guarded i (doStart dk cfg i)"

definition Stop :: "'d ContainerClient \<Rightarrow> string \<Rightarrow> 'd lc_op" where
  "Stop dk i = guarded i (doStop dk i)"

definition Restart :: "'d ContainerClient \<Rightarrow> ManagerConfig \<Rightarrow> string \<Rightarrow> 'd lc_op" where
  "Restart dk cfg i = guarded i (\<lambda>m.
     (case Registry_Get i (mg_registry m) of
        None \<Rightarrow> (Some (ErrConnectorNotFound i), m)
      | Some status \<Rightarrow>
        if cst_ContainerID status = [] then doStart dk cfg i m
        else case ContainerStop dk (cst_ContainerID status) (mg_docker m) of
          (False, d1) \<Rightarrow> (Some (StopFailed i), m\<lparr>mg_docker := d1\<rparr>)
        | (True, d1) \<Rightarrow>
          (case ContainerRemove dk (cst_ContainerID status) d1 of
             (False, d2) \<Rightarrow> (Some (RemoveFailed i), m\<lparr>mg_docker := d2\<rparr>)
           | (True, d2) \<Rightarrow>
             doStart dk cfg i (m\<lparr>mg_docker := d2, mg_registry := SetRunning i [] False (mg_registry m)\<rparr>))))"

text \<open>Removing a container whose removal may fail without consequence.\<close>

definition tryRemove :: "'d ContainerClient \<Rightarrow> string \<Rightarrow> 'd Manager \<Rightarrow> 'd Manager" where
  "tryRemove dk containerID m =
     (if containerID = [] then m else m\<lparr>mg_docker := snd (ContainerRemove dk containerID (mg_docker m))\<rparr>)"

definition no_permissions :: ConnectorPermissions where
  "no_permissions = \<lparr>cp_Network = [], cp_Mounts = []\<rparr>"

definition Upgrade :: "'d ContainerClient \<Rightarrow> ManagerConfig \<Rightarrow> string \<Rightarrow> string \<Rightarrow> 'd lc_op" where
  "Upgrade dk cfg i newImage = guarded i (\<lambda>m.
     (case Registry_Get i (mg_registry m) of
        None \<Rightarrow> (Some (ErrConnectorNotFound i), m)
      | Some status \<Rightarrow>
        (case ImagePull dk newImage (mg_docker m) of
           (False, d1) \<Rightarrow> (Some (PullFailed newImage), m\<lparr>mg_docker := d1\<rparr>)
         | (True, d1) \<Rightarrow>
           (case doStop dk i (m\<lparr>mg_docker := d1\<rparr>) of
              (Some e, m1) \<Rightarrow> (Some e, m1)
            | (None, m1) \<Rightarrow>
              let m2 = tryRemove dk (cst_ContainerID status) m1
              in doStart dk cfg i (m2\<lparr>mg_registry := Register
                   \<lparr>cs_ID = i, cs_Image = newImage, cs_PrevImage = cs_Image (cst_Spec status), cs_Env = cs_Env (cst_Spec status),
                    cs_Permissions = no_permissions\<rparr> (mg_registry m2)\<rparr>)))))"

section \<open>Watching\<close>

definition watch_one :: "'d ContainerClient \<Rightarrow> ManagerConfig \<Rightarrow> (string \<Rightarrow> bool) \<Rightarrow> ConnectorStatus \<Rightarrow> 'd Manager \<Rightarrow> 'd Manager" where
  "watch_one dk cfg locked status m =
     (if \<not> cst_Running status \<or> cst_ContainerID status = [] then m
      else case ContainerInspect dk (cst_ContainerID status) (mg_docker m) of
        (Inspected info, d1) \<Rightarrow>
          let m1 = m\<lparr>mg_docker := d1\<rparr>; i = cs_ID (cst_Spec status) in
          if ii_Running info \<noteq> Some False then m1
          else if locked i then m1
          else if checkReserved i m1 \<noteq> None then m1
          else snd (doStart dk cfg i (m1\<lparr>mg_registry := SetRunning i [] False (mg_registry m1)\<rparr>))
      | (_, d1) \<Rightarrow> m\<lparr>mg_docker := d1\<rparr>)"

text \<open>One tick; \<open>locked\<close> says which connectors are being worked on.\<close>

definition Watch_tick :: "(string list \<Rightarrow> string list) \<Rightarrow> 'd ContainerClient \<Rightarrow> ManagerConfig \<Rightarrow> (string \<Rightarrow> bool) \<Rightarrow> 'd Manager \<Rightarrow> 'd Manager" where
  "Watch_tick ord dk cfg locked m = fold (watch_one dk cfg locked) (Registry_List ord (mg_registry m)) m"

section \<open>Installing and updating\<close>

definition manifest_permissions :: "Manifest \<Rightarrow> ConnectorPermissions" where
  "manifest_permissions mf = \<lparr>cp_Network = pm_Network (mf_Permissions mf), cp_Mounts = pm_Mounts (mf_Permissions mf)\<rparr>"

text \<open>The image to install: the local one if the engine has it, otherwise the digest-pinned one, pulled; with its success.\<close>

definition install_image :: "'d ContainerClient \<Rightarrow> Manifest \<Rightarrow> 'd \<Rightarrow> (bool \<times> string) \<times> 'd" where
  "install_image dk mf d =
     (case ImageInspect dk (mf_Image mf) d of
        (True, d1) \<Rightarrow> ((True, mf_Image mf), d1)
      | (False, d1) \<Rightarrow> (case ImagePull dk (ImageRef mf) d1 of (ok, d2) \<Rightarrow> ((ok, ImageRef mf), d2)))"

text \<open>Registering and starting the verified image; a connector that does not start is removed from the registry.\<close>

definition install_verified :: "'d ContainerClient \<Rightarrow> ManagerConfig \<Rightarrow> Manifest \<Rightarrow> string \<Rightarrow> 'd lc_op" where
  "install_verified dk cfg mf imageRef m =
     (case doStart dk cfg (mf_Name mf) (m\<lparr>mg_registry := Register
         \<lparr>cs_ID = mf_Name mf, cs_Image = imageRef, cs_PrevImage = [], cs_Env = [], cs_Permissions = manifest_permissions mf\<rparr>
         (mg_registry m)\<rparr>) of
        (Some e, m1) \<Rightarrow> (Some e, m1\<lparr>mg_registry := Registry_Remove (mf_Name mf) (mg_registry m1)\<rparr>)
      | (None, m1) \<Rightarrow> (None, m1))"

definition Install :: "'d ContainerClient \<Rightarrow> ManagerConfig \<Rightarrow> Manifest \<Rightarrow> (string \<Rightarrow> bool) \<Rightarrow> string list \<Rightarrow> string \<Rightarrow> 'd lc_op" where
  "Install dk cfg mf verify allowed gwVersion m =
     (case Validate mf allowed gwVersion of
        Some e \<Rightarrow> (Some (InvalidManifest e), m)
      | None \<Rightarrow> guarded (mf_Name mf) (\<lambda>m.
        case install_image dk mf (mg_docker m) of ((pulled, imageRef), d1) \<Rightarrow>
          if \<not> pulled then (Some (PullFailed imageRef), m\<lparr>mg_docker := d1\<rparr>)
          else if mf_SignatureRequired mf \<and> \<not> verify imageRef then (Some (VerifyFailed imageRef), m\<lparr>mg_docker := d1\<rparr>)
          else install_verified dk cfg mf imageRef (m\<lparr>mg_docker := d1\<rparr>)) m)"

text \<open>The inspections of the soak window: one for each tick before the deadline, with whether the context is cancelled after it, and a last one.\<close>

fun soak_loop :: "'d ContainerClient \<Rightarrow> string \<Rightarrow> bool list \<Rightarrow> 'd \<Rightarrow> lc_error option \<times> 'd" where
  "soak_loop dk containerID ticks d =
     (case ContainerInspect dk containerID d of
        (Inspected info, d1) \<Rightarrow>
          if ii_Running info \<noteq> Some True then (Some SoakExited, d1)
          else (case ticks of
             [] \<Rightarrow> (None, d1)
           | cancelled # rest \<Rightarrow> if cancelled then (Some SoakCancelled, d1) else soak_loop dk containerID rest d1)
      | (_, d1) \<Rightarrow> (Some SoakInspectFailed, d1))"

declare soak_loop.simps [simp del]

definition soakCheck :: "'d ContainerClient \<Rightarrow> string \<Rightarrow> int \<Rightarrow> bool list \<Rightarrow> 'd \<Rightarrow> lc_error option \<times> 'd" where
  "soakCheck dk containerID soakWindow ticks d =
     (if containerID = [] \<or> soakWindow \<le> 0 then (None, d) else soak_loop dk containerID ticks d)"

definition rollback :: "'d ContainerClient \<Rightarrow> ManagerConfig \<Rightarrow> string \<Rightarrow> string \<Rightarrow> lc_error \<Rightarrow> 'd Manager \<Rightarrow> lc_error \<times> 'd Manager" where
  "rollback dk cfg i prevImage cause m =
     (case Registry_Get i (mg_registry m) of
        None \<Rightarrow> (NoPreviousImage i, m)
      | Some prev \<Rightarrow>
        if prevImage = [] then (NoPreviousImage i, m)
        else
          let m1 = tryRemove dk (cst_ContainerID prev) (snd (doStop dk i m));
              m2 = m1\<lparr>mg_registry := Register (cst_Spec prev\<lparr>cs_ID := i, cs_Image := prevImage\<rparr>) (mg_registry m1)\<rparr>
          in case doStart dk cfg i m2 of
               (Some e, m3) \<Rightarrow> (RollbackFailed e cause, m3)
             | (None, m3) \<Rightarrow> (RolledBack cause, m3))"

definition digestFromRef :: "string \<Rightarrow> string" where
  "digestFromRef ref = (case dropWhile (\<lambda>c. c \<noteq> CHR ''@'') ref of [] \<Rightarrow> [] | _ # s \<Rightarrow> s)"

text \<open>The new container is started and soaked; if either fails the old image comes back.\<close>

definition start_and_soak :: "'d ContainerClient \<Rightarrow> ManagerConfig \<Rightarrow> string \<Rightarrow> string \<Rightarrow> int \<Rightarrow> bool list \<Rightarrow> 'd lc_op" where
  "start_and_soak dk cfg i oldImage soakWindow ticks m =
     (case doStart dk cfg i m of
        (Some e, m1) \<Rightarrow> (case rollback dk cfg i oldImage e m1 of (e', m2) \<Rightarrow> (Some e', m2))
      | (None, m1) \<Rightarrow>
        (case soakCheck dk (case Registry_Get i (mg_registry m1) of None \<Rightarrow> [] | Some s \<Rightarrow> cst_ContainerID s)
            soakWindow ticks (mg_docker m1) of
           (Some e, d2) \<Rightarrow> (case rollback dk cfg i oldImage e (m1\<lparr>mg_docker := d2\<rparr>) of (e', m2) \<Rightarrow> (Some e', m2))
         | (None, d2) \<Rightarrow> (None, m1\<lparr>mg_docker := d2\<rparr>)))"

text \<open>The old container is stopped and removed and the new spec registered.\<close>

definition replace_connector :: "'d ContainerClient \<Rightarrow> ManagerConfig \<Rightarrow> string \<Rightarrow> Manifest \<Rightarrow> ConnectorStatus \<Rightarrow> int \<Rightarrow> bool list \<Rightarrow> 'd lc_op" where
  "replace_connector dk cfg i mf current soakWindow ticks m =
     (case (if cst_ContainerID current \<noteq> [] then doStop dk i m else (None, m)) of
        (Some e, m1) \<Rightarrow> (Some e, m1)
      | (None, m1) \<Rightarrow>
        let m2 = tryRemove dk (cst_ContainerID current) m1
        in start_and_soak dk cfg i (cs_Image (cst_Spec current)) soakWindow ticks (m2\<lparr>mg_registry := Register
             \<lparr>cs_ID = i, cs_Image = ImageRef mf, cs_PrevImage = cs_Image (cst_Spec current), cs_Env = cs_Env (cst_Spec current),
              cs_Permissions = manifest_permissions mf\<rparr> (mg_registry m2)\<rparr>))"

definition Update :: "'d ContainerClient \<Rightarrow> ManagerConfig \<Rightarrow> string \<Rightarrow> Manifest \<Rightarrow> (string \<Rightarrow> bool) \<Rightarrow> string list \<Rightarrow> string \<Rightarrow> int
    \<Rightarrow> bool list \<Rightarrow> 'd lc_op" where
  "Update dk cfg i mf verify allowed gwVersion soakWindow ticks m =
     (case Validate mf allowed gwVersion of
        Some e \<Rightarrow> (Some (InvalidManifest e), m)
      | None \<Rightarrow> guarded i (\<lambda>m.
        (case Registry_Get i (mg_registry m) of
           None \<Rightarrow> (Some (ErrConnectorNotFound i), m)
         | Some current \<Rightarrow>
           if digestFromRef (cs_Image (cst_Spec current)) = mf_Digest mf then (None, m)
           else case ImagePull dk (ImageRef mf) (mg_docker m) of
             (False, d1) \<Rightarrow> (Some (PullFailed (ImageRef mf)), m\<lparr>mg_docker := d1\<rparr>)
           | (True, d1) \<Rightarrow>
             if mf_SignatureRequired mf \<and> \<not> verify (ImageRef mf) then (Some (VerifyFailed (ImageRef mf)), m\<lparr>mg_docker := d1\<rparr>)
             else replace_connector dk cfg i mf current soakWindow ticks (m\<lparr>mg_docker := d1\<rparr>))) m)"

definition Rollback :: "'d ContainerClient \<Rightarrow> ManagerConfig \<Rightarrow> string \<Rightarrow> 'd lc_op" where
  "Rollback dk cfg i = guarded i (\<lambda>m.
     (case Registry_Get i (mg_registry m) of
        None \<Rightarrow> (Some (ErrConnectorNotFound i), m)
      | Some current \<Rightarrow>
        if cs_PrevImage (cst_Spec current) = [] then (Some (NoPreviousImage i), m)
        else case doStop dk i m of
          (Some e, m1) \<Rightarrow> (Some e, m1)
        | (None, m1) \<Rightarrow>
          let m2 = tryRemove dk (cst_ContainerID current) m1; spec = cst_Spec current
          in doStart dk cfg i (m2\<lparr>mg_registry :=
               Register (spec\<lparr>cs_ID := i, cs_Image := cs_PrevImage spec, cs_PrevImage := cs_Image spec\<rparr>) (mg_registry m2)\<rparr>)))"

record Updater =
  up_allowlist :: "string list"
  up_gwVersion :: string
  up_SoakWindow :: int

definition NewUpdater :: "string list \<Rightarrow> string \<Rightarrow> int \<Rightarrow> Updater" where
  "NewUpdater allowlist gw soak = \<lparr>up_allowlist = allowlist, up_gwVersion = gw, up_SoakWindow = (if soak \<le> 0 then 30000000000 else soak)\<rparr>"

text \<open>One poll over the catalog; \<open>ticks\<close> has the soak of each connector.\<close>

definition poll_one :: "'d ContainerClient \<Rightarrow> ManagerConfig \<Rightarrow> Updater \<Rightarrow> (string \<Rightarrow> catalog_error + Manifest) \<Rightarrow> (string \<Rightarrow> bool)
    \<Rightarrow> (string \<Rightarrow> bool list) \<Rightarrow> ConnectorStatus \<Rightarrow> 'd Manager \<Rightarrow> 'd Manager" where
  "poll_one dk cfg u fetch verify ticks status m =
     (let i = cs_ID (cst_Spec status) in
      if \<not> cst_Running status then m
      else case fetch i of
        Inl e \<Rightarrow> m
      | Inr mf \<Rightarrow>
        if mf_Name mf \<noteq> i then m
        else snd (Update dk cfg i mf verify (up_allowlist u) (up_gwVersion u) (up_SoakWindow u) (ticks i) m))"

definition poll :: "(string list \<Rightarrow> string list) \<Rightarrow> 'd ContainerClient \<Rightarrow> ManagerConfig \<Rightarrow> Updater \<Rightarrow> (string \<Rightarrow> catalog_error + Manifest)
    \<Rightarrow> (string \<Rightarrow> bool) \<Rightarrow> (string \<Rightarrow> bool list) \<Rightarrow> 'd Manager \<Rightarrow> 'd Manager" where
  "poll ord dk cfg u fetch verify ticks m = fold (poll_one dk cfg u fetch verify ticks) (Registry_List ord (mg_registry m)) m"

section \<open>Exclusive ownership\<close>

definition clockOwnerLabel :: string where
  "clockOwnerLabel = ''nexus.clock.connector''"

text \<open>The handle of a claimed connector is its id and the container it started, if any. \<open>client\<close> says whether there is an engine.\<close>

record Exclusive =
  ex_id :: string
  ex_containerID :: string

definition Claim :: "bool \<Rightarrow> ConnectorSpec \<Rightarrow> 'd Manager \<Rightarrow> (lc_error + Exclusive) \<times> 'd Manager" where
  "Claim client spec m =
     (if \<not> client \<or> cs_ID spec = [] then (Inl NeedsClient, m)
      else if cs_ID spec \<in> set (mg_reserved m) then (Inl ErrManaged, m)
      else (Inr \<lparr>ex_id = cs_ID spec, ex_containerID = []\<rparr>,
            m\<lparr>mg_reserved := cs_ID spec # mg_reserved m, mg_registry := Register spec (mg_registry m)\<rparr>))"

definition stopped :: "Exclusive \<Rightarrow> 'd Manager \<Rightarrow> Exclusive \<times> 'd Manager" where
  "stopped e m = (e\<lparr>ex_containerID := []\<rparr>, m\<lparr>mg_registry := SetRunning (ex_id e) [] False (mg_registry m)\<rparr>)"

definition Exclusive_Stop :: "'d ContainerClient \<Rightarrow> Exclusive \<Rightarrow> 'd Manager \<Rightarrow> lc_error option \<times> Exclusive \<times> 'd Manager" where
  "Exclusive_Stop dk e m =
     (let name = (if ex_containerID e = [] then ''nexus-'' @ ex_id e else ex_containerID e) in
      case ContainerInspect dk name (mg_docker m) of
        (InspectNotFound, d1) \<Rightarrow> (None, stopped e (m\<lparr>mg_docker := d1\<rparr>))
      | (InspectError, d1) \<Rightarrow> (Some InspectFailed, e, m\<lparr>mg_docker := d1\<rparr>)
      | (Inspected info, d1) \<Rightarrow>
        let m1 = m\<lparr>mg_docker := d1\<rparr> in
        if (case ii_Labels info of None \<Rightarrow> True | Some ls \<Rightarrow> map_of ls clockOwnerLabel \<noteq> Some (ex_id e)) then (Some Unowned, e, m1)
        else if ii_ID info = [] then (Some NoIdentity, e, m1)
        else
          let i = ii_ID info; e1 = e\<lparr>ex_containerID := i\<rparr>;
              (ok, d2) = (if ii_Running info = Some True then ContainerStop dk i d1 else (True, d1));
              m2 = m\<lparr>mg_docker := d2\<rparr>
          in if \<not> ok then (Some (StopFailed i), e1, m2)
             else case ContainerInspect dk i d2 of
               (Inspected info2, d3) \<Rightarrow>
                 if ii_Running info2 \<noteq> Some False then (Some Unconfirmed, e1, m\<lparr>mg_docker := d3\<rparr>)
                 else (case ContainerRemove dk i d3 of
                    (False, d4) \<Rightarrow> (Some (RemoveFailed i), e1, m\<lparr>mg_docker := d4\<rparr>)
                  | (True, d4) \<Rightarrow> (None, stopped e1 (m\<lparr>mg_docker := d4\<rparr>)))
             | (_, d3) \<Rightarrow> (Some InspectFailed, e1, m\<lparr>mg_docker := d3\<rparr>))"

definition Configure :: "ConnectorSpec \<Rightarrow> Exclusive \<Rightarrow> 'd Manager \<Rightarrow> lc_error option \<times> 'd Manager" where
  "Configure spec e m =
     (if ex_containerID e \<noteq> [] \<or> cs_ID spec \<noteq> ex_id e then (Some NotStopped, m)
      else (None, m\<lparr>mg_registry := Register spec (mg_registry m)\<rparr>))"

definition Exclusive_Start :: "'d ContainerClient \<Rightarrow> ManagerConfig \<Rightarrow> Exclusive \<Rightarrow> 'd Manager \<Rightarrow> lc_error option \<times> Exclusive \<times> 'd Manager" where
  "Exclusive_Start dk cfg e m =
     (if ex_containerID e \<noteq> [] then (Some NotStopped, e, m)
      else case Registry_Get (ex_id e) (mg_registry m) of
        None \<Rightarrow> (Some (ErrConnectorNotFound (ex_id e)), e, m)
      | Some s \<Rightarrow>
        (case createWithLabels dk cfg (cst_Spec s) [(clockOwnerLabel, ex_id e)] (mg_docker m) of
           (None, d1) \<Rightarrow> (Some (CreateFailed (ex_id e)), e, m\<lparr>mg_docker := d1\<rparr>)
         | (Some i, d1) \<Rightarrow>
           let e1 = e\<lparr>ex_containerID := i\<rparr>; r1 = SetRunning (ex_id e) i False (mg_registry m) in
           (case ContainerStart dk i d1 of
              (False, d2) \<Rightarrow> (Some (StartFailed (ex_id e)), e1, m\<lparr>mg_docker := d2, mg_registry := r1\<rparr>)
            | (True, d2) \<Rightarrow> (None, e1, m\<lparr>mg_docker := d2, mg_registry := SetRunning (ex_id e) i True r1\<rparr>))))"

end
