(* ===== verification/Health.thy ===== *)
theory Health
  imports Lifecycle
begin

text \<open>
  The health of the gateway (\<open>internal/lifecycle/evaluate.go\<close>, \<open>internal/lifecycle/health.go\<close>): the verdict on each
  subsystem and on the whole, the liveness of the connectors, and the cached samples of disk and processor.
  The verdict's reasons are values with the numbers their texts contain. Floating-point fractions are
  rationals, times are nanoseconds, and what the host reports is an argument.
\<close>

section \<open>Connector liveness\<close>

record ConnectorHealth =
  coh_ID :: string
  coh_Image :: string
  coh_PrevImage :: string
  coh_ContainerID :: string
  coh_Running :: bool

definition probe_one :: "(string \<Rightarrow> inspect_result) option \<Rightarrow> ConnectorStatus \<Rightarrow> ConnectorHealth" where
  "probe_one docker s =
     \<lparr>coh_ID = cs_ID (cst_Spec s), coh_Image = cs_Image (cst_Spec s), coh_PrevImage = cs_PrevImage (cst_Spec s),
      coh_ContainerID = cst_ContainerID s,
      coh_Running = (case docker of
          None \<Rightarrow> cst_Running s
        | Some inspect \<Rightarrow>
            if cst_ContainerID s = [] then cst_Running s
            else (case inspect (cst_ContainerID s) of Inspected info \<Rightarrow> ii_Running info = Some True | _ \<Rightarrow> False))\<rparr>"

definition Probe :: "(string \<Rightarrow> inspect_result) option \<Rightarrow> ConnectorStatus list \<Rightarrow> ConnectorHealth list" where
  "Probe docker statuses = map (probe_one docker) statuses"

section \<open>The verdict\<close>

datatype health_status = StatusOK | StatusDegraded

datatype health_reason = NoReason | NatsDown | CheckpointOld int int int | WriteErrorsSeen int | NearlyFull rat int int | PointListEmpty
  | ConnectorsDown "string list"

record ComponentHealth =
  ch_Name :: string
  ch_Status :: health_status
  ch_Reason :: health_reason

record Thresholds =
  th_CheckpointStale :: int
  th_NearCapacityFrac :: rat

definition DefaultThresholds :: Thresholds where
  "DefaultThresholds = \<lparr>th_CheckpointStale = 60 * 1000000000, th_NearCapacityFrac = 9 / 10\<rparr>"

record HealthInputs =
  hi_NatsConnected :: bool
  hi_UplinkConnected :: bool
  hi_HasBuffer :: bool
  hi_BufferDepth :: int
  hi_BufferCapacity :: int
  hi_WriteErrors :: int
  hi_LastCheckpointUnix :: int
  hi_HasPointList :: bool
  hi_PointCount :: int
  hi_Connectors :: "ConnectorHealth list"
  hi_NowUnix :: int

record HealthReport =
  hr_Status :: health_status
  hr_Components :: "ComponentHealth list"

definition health_ok :: "string \<Rightarrow> ComponentHealth" where
  "health_ok n = \<lparr>ch_Name = n, ch_Status = StatusOK, ch_Reason = NoReason\<rparr>"

definition health_degraded :: "string \<Rightarrow> health_reason \<Rightarrow> ComponentHealth" where
  "health_degraded n r = \<lparr>ch_Name = n, ch_Status = StatusDegraded, ch_Reason = r\<rparr>"

definition evalNats :: "HealthInputs \<Rightarrow> ComponentHealth" where
  "evalNats hi = (if \<not> hi_NatsConnected hi then health_degraded ''nats'' NatsDown else health_ok ''nats'')"

text \<open>The age is a \<open>time.Duration\<close>: the product with the second wraps around like an \<open>int64\<close>.\<close>

definition evalUplink :: "HealthInputs \<Rightarrow> Thresholds \<Rightarrow> ComponentHealth" where
  "evalUplink hi cfg =
     (if hi_BufferDepth hi \<le> 0 then health_ok ''uplink''
      else let age = int64 (int64 (hi_NowUnix hi - hi_LastCheckpointUnix hi) * 1000000000) in
        if age > th_CheckpointStale cfg
        then health_degraded ''uplink'' (CheckpointOld (hi_BufferDepth hi) age (th_CheckpointStale cfg))
        else health_ok ''uplink'')"

definition evalBuffer :: "HealthInputs \<Rightarrow> Thresholds \<Rightarrow> ComponentHealth" where
  "evalBuffer hi cfg =
     (if hi_WriteErrors hi > 0 then health_degraded ''buffer'' (WriteErrorsSeen (hi_WriteErrors hi))
      else if hi_BufferCapacity hi > 0
           \<and> of_int (hi_BufferDepth hi) / of_int (hi_BufferCapacity hi) > th_NearCapacityFrac cfg
      then health_degraded ''buffer'' (NearlyFull (of_int (hi_BufferDepth hi) / of_int (hi_BufferCapacity hi))
             (hi_BufferDepth hi) (hi_BufferCapacity hi))
      else health_ok ''buffer'')"

definition evalPointList :: "HealthInputs \<Rightarrow> ComponentHealth" where
  "evalPointList hi = (if hi_PointCount hi = 0 then health_degraded ''pointlist'' PointListEmpty else health_ok ''pointlist'')"

definition evalConnectors :: "HealthInputs \<Rightarrow> ComponentHealth" where
  "evalConnectors hi =
     (let down = map coh_ID (filter (\<lambda>c. \<not> coh_Running c) (hi_Connectors hi)) in
      if down \<noteq> [] then health_degraded ''connectors'' (ConnectorsDown down) else health_ok ''connectors'')"

definition Evaluate :: "HealthInputs \<Rightarrow> Thresholds \<Rightarrow> HealthReport" where
  "Evaluate hi cfg0 =
     (let cfg1 = (if th_CheckpointStale cfg0 \<le> 0 then cfg0\<lparr>th_CheckpointStale := th_CheckpointStale DefaultThresholds\<rparr> else cfg0);
          cfg = (if th_NearCapacityFrac cfg1 \<le> 0 then cfg1\<lparr>th_NearCapacityFrac := th_NearCapacityFrac DefaultThresholds\<rparr> else cfg1);
          comps = [evalNats hi]
            @ (if hi_HasBuffer hi then [evalUplink hi cfg, evalBuffer hi cfg] else [])
            @ (if hi_HasPointList hi then [evalPointList hi] else [])
            @ [evalConnectors hi]
      in \<lparr>hr_Status = (if list_ex (\<lambda>c. ch_Status c = StatusDegraded) comps then StatusDegraded else StatusOK),
          hr_Components = comps\<rparr>)"

section \<open>Host samples\<close>

record runtimeMetrics =
  rm_startTime :: int
  rm_diskTTL :: int
  rm_dUsed :: rat
  rm_dTotal :: rat
  rm_dAt :: int
  rm_dInit :: bool
  rm_cpuTTL :: int
  rm_cpuAt :: int
  rm_cpuPct :: rat
  rm_cpuInit :: bool
  rm_lastTotal :: rat
  rm_lastIdle :: rat

definition newRuntimeMetrics :: "int \<Rightarrow> int \<Rightarrow> runtimeMetrics" where
  "newRuntimeMetrics now diskTTL = \<lparr>rm_startTime = now, rm_diskTTL = diskTTL, rm_dUsed = 0, rm_dTotal = 0, rm_dAt = 0, rm_dInit = False,
     rm_cpuTTL = 1000000000, rm_cpuAt = 0, rm_cpuPct = 0, rm_cpuInit = False, rm_lastTotal = 0, rm_lastIdle = 0\<rparr>"

text \<open>\<open>diskFn\<close> is what the file system says now; the sample is used only when the cache is stale.\<close>

definition disk :: "rat \<times> rat \<Rightarrow> int \<Rightarrow> runtimeMetrics \<Rightarrow> (rat \<times> rat) \<times> runtimeMetrics" where
  "disk diskFn now m =
     (let m1 = (if \<not> rm_dInit m \<or> now - rm_dAt m \<ge> rm_diskTTL m
                then m\<lparr>rm_dUsed := fst diskFn, rm_dTotal := snd diskFn, rm_dAt := now, rm_dInit := True\<rparr> else m)
      in ((rm_dUsed m1, rm_dTotal m1), m1))"

text \<open>The runtime's processor seconds, total and idle, if it has them.\<close>

definition cpuPercent :: "(rat \<times> rat) option \<Rightarrow> int \<Rightarrow> runtimeMetrics \<Rightarrow> rat \<times> runtimeMetrics" where
  "cpuPercent samples now m =
     (case samples of
        None \<Rightarrow> (0, m)
      | Some (tot, idle) \<Rightarrow>
        if \<not> rm_cpuInit m then (0, m\<lparr>rm_lastTotal := tot, rm_lastIdle := idle, rm_cpuAt := now, rm_cpuInit := True\<rparr>)
        else if now - rm_cpuAt m < rm_cpuTTL m then (rm_cpuPct m, m)
        else
          let dTotal = tot - rm_lastTotal m; dIdle = idle - rm_lastIdle m;
              pct = (if dTotal > 0 then max 0 (dTotal - dIdle) / dTotal * 100 else 0)
          in (pct, m\<lparr>rm_lastTotal := tot, rm_lastIdle := idle, rm_cpuAt := now, rm_cpuPct := pct\<rparr>))"

record GatewayStats =
  gs_UptimeSeconds :: rat
  gs_GoRoutines :: int
  gs_MemAllocMB :: rat
  gs_CPUPercent :: rat
  gs_DiskUsedMB :: rat
  gs_DiskTotalMB :: rat

definition Sample :: "int option \<Rightarrow> int \<Rightarrow> rat \<times> rat \<Rightarrow> (rat \<times> rat) option \<Rightarrow> int \<Rightarrow> runtimeMetrics \<Rightarrow> GatewayStats \<times> runtimeMetrics" where
  "Sample heap goroutines diskFn cpu now m =
     (case disk diskFn now m of ((used, tot), m1) \<Rightarrow>
      (case cpuPercent cpu now m1 of (pct, m2) \<Rightarrow>
        (\<lparr>gs_UptimeSeconds = of_int (now - rm_startTime m) / 1000000000, gs_GoRoutines = goroutines,
          gs_MemAllocMB = (case heap of None \<Rightarrow> 0 | Some b \<Rightarrow> of_int b / 1024 / 1024), gs_CPUPercent = pct,
          gs_DiskUsedMB = used, gs_DiskTotalMB = tot\<rparr>, m2)))"

record GatewayHealth =
  gh_Status :: string
  gh_Components :: "ComponentHealth list"
  gh_Version :: string
  gh_Stats :: GatewayStats
  gh_Connectors :: "ConnectorHealth list"

text \<open>The snapshot leaves status, components and version to the administration interface.\<close>

definition Health_Snapshot :: "(string list \<Rightarrow> string list) \<Rightarrow> (string \<Rightarrow> inspect_result) option \<Rightarrow> GatewayStats \<Rightarrow> Registry \<Rightarrow> GatewayHealth" where
  "Health_Snapshot ord docker s r = \<lparr>gh_Status = [], gh_Components = [], gh_Version = [], gh_Stats = s, gh_Connectors = Probe docker (Registry_List ord r)\<rparr>"

section \<open>Facts\<close>

text \<open>
  The uplink's verdict compares with the last checkpoint, however long the frames have been pending: after a quiet period longer than the
  threshold a single new frame degrades it at once.
\<close>

lemma evalUplink_after_quiet:
  assumes "0 < hi_BufferDepth hi" "hi_LastCheckpointUnix hi \<ge> 0" "hi_NowUnix hi - hi_LastCheckpointUnix hi = 61" "th_CheckpointStale cfg = 60000000000"
  shows "ch_Status (evalUplink hi cfg) = StatusDegraded"
  using assms by (simp add: evalUplink_def health_degraded_def int64_def)

text \<open>The gateway is degraded exactly when a subsystem is.\<close>

lemma Evaluate_status: "hr_Status (Evaluate hi cfg) = StatusDegraded \<longleftrightarrow> (\<exists>c \<in> set (hr_Components (Evaluate hi cfg)). ch_Status c = StatusDegraded)"
  by (simp add: Evaluate_def Let_def list_ex_iff)

lemma Evaluate_ok:
  assumes "hr_Status (Evaluate hi cfg) = StatusOK"
  shows "hi_NatsConnected hi" "hi_HasPointList hi \<Longrightarrow> hi_PointCount hi \<noteq> 0" "hi_HasBuffer hi \<Longrightarrow> hi_WriteErrors hi \<le> 0"
    "\<forall>c \<in> set (hi_Connectors hi). coh_Running c"
  using assms by (auto simp: Evaluate_def Let_def evalNats_def evalPointList_def evalBuffer_def evalConnectors_def
      health_ok_def health_degraded_def filter_empty_conv not_less split: if_splits)

text \<open>The processor share lies between 0 and 100 as long as the idle seconds do not run backwards.\<close>

lemma cpuPercent_bounds:
  assumes "0 \<le> rm_cpuPct m" "rm_cpuPct m \<le> 100" "\<forall>t i. samples = Some (t, i) \<longrightarrow> rm_lastIdle m \<le> i"
    and "cpuPercent samples now m = (p, m')"
  shows "0 \<le> p \<and> p \<le> 100 \<and> rm_cpuPct m' \<le> 100"
proof (cases samples)
  case (Some ti)
  obtain t i where ti: "ti = (t, i)" by (cases ti)
  let ?d = "t - rm_lastTotal m" and ?e = "i - rm_lastIdle m"
  have "0 \<le> ?e" using assms(3) Some ti by simp
  then have b: "0 < ?d \<Longrightarrow> 0 \<le> max 0 (?d - ?e) / ?d * 100 \<and> max 0 (?d - ?e) / ?d * 100 \<le> 100"
    by (auto simp: max_def field_simps)
  with assms(1,2,4) Some ti show ?thesis by (auto simp: cpuPercent_def Let_def split: if_splits)
qed (use assms in \<open>auto simp: cpuPercent_def\<close>)

text \<open>Within the time to live a disk sample is not taken again.\<close>

lemma disk_cached: "rm_dInit m \<Longrightarrow> now - rm_dAt m < rm_diskTTL m \<Longrightarrow> disk f now m = ((rm_dUsed m, rm_dTotal m), m)"
  by (simp add: disk_def)

end
