(* ===== verification/Lifecycle_Facts.thy ===== *)
theory Lifecycle_Facts
  imports Health "HOL-Library.Sublist"
begin

text \<open>
  What the connector lifecycle guarantees: the registry stays well-formed under every operation, nothing is
  created, stopped or removed for a manifest that was not validated and verified, and reserved
  connectors are left alone; and what it does not: a container that exits on its own is not brought back.
\<close>

section \<open>A well-formed registry\<close>

definition registry_typed :: "Registry \<Rightarrow> bool" where
  "registry_typed r \<longleftrightarrow> distinct (map fst r)
     \<and> (\<forall>i s. map_of r i = Some s \<longrightarrow> cs_ID (cst_Spec s) = i \<and> (cst_Running s \<longrightarrow> cst_ContainerID s \<noteq> []))"

lemma registry_typed_Nil [simp]: "registry_typed []"
  by (simp add: registry_typed_def)

lemma Register_typed [intro]: "registry_typed r \<Longrightarrow> registry_typed (Register spec r)"
  by (auto simp: registry_typed_def Register_def distinct_update update_conv' simp del: map_of_eq_Some_iff split: option.splits if_splits)

lemma SetRunning_typed [intro]: "registry_typed r \<Longrightarrow> (b \<longrightarrow> c \<noteq> []) \<Longrightarrow> registry_typed (SetRunning i c b r)"
  by (auto simp: registry_typed_def SetRunning_def distinct_update update_conv' simp del: map_of_eq_Some_iff split: option.splits if_splits)

lemma Registry_Remove_typed [intro]: "registry_typed r \<Longrightarrow> registry_typed (Registry_Remove i r)"
  by (auto simp: registry_typed_def Registry_Remove_def distinct_delete delete_conv' restrict_map_def simp del: map_of_eq_Some_iff split: if_splits)

lemma SetRunning_lookup:
  "map_of (SetRunning i c b r) j =
     (if j = i then map_option (\<lambda>s. s\<lparr>cst_ContainerID := c, cst_Running := b\<rparr>) (map_of r i) else map_of r j)"
  by (auto simp: SetRunning_def update_conv' split: option.splits)

text \<open>The engine's promise: a container that was created has an id.\<close>

definition gives_ids :: "'d ContainerClient \<Rightarrow> bool" where
  "gives_ids dk \<longleftrightarrow> (\<forall>a d c d'. ContainerCreate dk a d = (Some c, d') \<longrightarrow> c \<noteq> [])"

lemma create_id: "gives_ids dk \<Longrightarrow> createWithLabels dk cfg spec ls d = (Some c, d') \<Longrightarrow> c \<noteq> []"
  by (auto simp: createWithLabels_def gives_ids_def)

lemma tryRemove_registry [simp]: "mg_registry (tryRemove dk c m) = mg_registry m" "mg_reserved (tryRemove dk c m) = mg_reserved m"
  by (simp_all add: tryRemove_def)

section \<open>The calls on the manager\<close>

text \<open>
  Everything that reaches the manager: the administrator's operations, a tick of the watch and of the update
  loop, and the operations of a claimed connector's handle.
\<close>

datatype lc_call = CallStart string | CallStop string | CallRestart string | CallUpgrade string string
  | CallInstall Manifest "string list" string | CallUpdate string Manifest "string list" string int "bool list"
  | CallRollback string | CallWatch "string \<Rightarrow> bool" | CallPoll Updater "Manifest gomap" "string \<Rightarrow> bool list"
  | CallClaim bool ConnectorSpec | CallConfigure ConnectorSpec Exclusive | CallExclusiveStop Exclusive
  | CallExclusiveStart Exclusive

definition catalog_fetch :: "Manifest gomap \<Rightarrow> string \<Rightarrow> catalog_error + Manifest" where
  "catalog_fetch cat i = (case map_of cat i of None \<Rightarrow> Inl (ErrManifestNotFound i) | Some mf \<Rightarrow> Inr mf)"

fun lc_apply :: "(string list \<Rightarrow> string list) \<Rightarrow> 'd ContainerClient \<Rightarrow> ManagerConfig \<Rightarrow> (string \<Rightarrow> bool) \<Rightarrow> lc_call \<Rightarrow> 'd Manager \<Rightarrow> 'd Manager" where
  "lc_apply ord dk cfg verify (CallStart i) m = snd (Start dk cfg i m)"
| "lc_apply ord dk cfg verify (CallStop i) m = snd (Stop dk i m)"
| "lc_apply ord dk cfg verify (CallRestart i) m = snd (Restart dk cfg i m)"
| "lc_apply ord dk cfg verify (CallUpgrade i img) m = snd (Upgrade dk cfg i img m)"
| "lc_apply ord dk cfg verify (CallInstall mf allowed gw) m = snd (Install dk cfg mf verify allowed gw m)"
| "lc_apply ord dk cfg verify (CallUpdate i mf allowed gw w ticks) m = snd (Update dk cfg i mf verify allowed gw w ticks m)"
| "lc_apply ord dk cfg verify (CallRollback i) m = snd (Rollback dk cfg i m)"
| "lc_apply ord dk cfg verify (CallWatch locked) m = Watch_tick ord dk cfg locked m"
| "lc_apply ord dk cfg verify (CallPoll u cat ticks) m = poll ord dk cfg u (catalog_fetch cat) verify ticks m"
| "lc_apply ord dk cfg verify (CallClaim client spec) m = snd (Claim client spec m)"
| "lc_apply ord dk cfg verify (CallConfigure spec e) m = snd (Configure spec e m)"
| "lc_apply ord dk cfg verify (CallExclusiveStop e) m = snd (snd (Exclusive_Stop dk e m))"
| "lc_apply ord dk cfg verify (CallExclusiveStart e) m = snd (snd (Exclusive_Start dk cfg e m))"

definition lc_run :: "(string list \<Rightarrow> string list) \<Rightarrow> 'd ContainerClient \<Rightarrow> ManagerConfig \<Rightarrow> (string \<Rightarrow> bool) \<Rightarrow> lc_call list \<Rightarrow> 'd Manager \<Rightarrow> 'd Manager" where
  "lc_run ord dk cfg verify calls m = fold (lc_apply ord dk cfg verify) calls m"

text \<open>The images a call may bring in: what the administrator or the clock configuration names, and those of validated and verified manifests.\<close>

definition verified :: "(string \<Rightarrow> bool) \<Rightarrow> string list \<Rightarrow> string \<Rightarrow> Manifest \<Rightarrow> string \<Rightarrow> bool" where
  "verified verify allowed gw mf img \<longleftrightarrow> Validate mf allowed gw = None \<and> (mf_SignatureRequired mf \<longrightarrow> verify img)"

fun brings_in :: "(string \<Rightarrow> bool) \<Rightarrow> lc_call \<Rightarrow> string \<Rightarrow> bool" where
  "brings_in verify (CallUpgrade i img') img = (img = img')"
| "brings_in verify (CallInstall mf allowed gw) img = (verified verify allowed gw mf img \<and> (img = mf_Image mf \<or> img = ImageRef mf))"
| "brings_in verify (CallUpdate i mf allowed gw w ticks) img = (verified verify allowed gw mf img \<and> img = ImageRef mf)"
| "brings_in verify (CallPoll u cat ticks) img =
     list_ex (\<lambda>(i, mf). verified verify (up_allowlist u) (up_gwVersion u) mf img \<and> img = ImageRef mf) cat"
| "brings_in verify (CallClaim client spec) img = (img = cs_Image spec \<or> (img = cs_PrevImage spec \<and> img \<noteq> []))"
| "brings_in verify (CallConfigure spec e) img = (img = cs_Image spec \<or> (img = cs_PrevImage spec \<and> img \<noteq> []))"
| "brings_in verify _ img = False"

section \<open>Invariants of the manager\<close>

text \<open>
  What an invariant of the engine and the registry has to promise so that every operation of the manager
  keeps it. \<open>adm\<close> says which images may enter the registry, \<open>idok\<close> which container ids the engine gives.
\<close>

locale manager_invariant =
  fixes dk :: "'d ContainerClient" and cfg :: ManagerConfig and adm :: "string \<Rightarrow> bool" and idok :: "string \<Rightarrow> bool" and I :: "'d \<Rightarrow> Registry \<Rightarrow> bool"
  assumes created_id: "createWithLabels dk cfg spec ls d = (Some c, d') \<Longrightarrow> idok c"
    and create_keeps: "createWithLabels dk cfg (cst_Spec s) ls d = (k, d') \<Longrightarrow> map_of r i = Some s \<Longrightarrow> I d r \<Longrightarrow> I d' r"
    and start_keeps: "ContainerStart dk x d = (b, d') \<Longrightarrow> I d r \<Longrightarrow> I d' r"
    and stop_keeps: "ContainerStop dk x d = (b, d') \<Longrightarrow> I d r \<Longrightarrow> I d' r"
    and remove_keeps: "ContainerRemove dk x d = (b, d') \<Longrightarrow> I d r \<Longrightarrow> I d' r"
    and inspect_keeps: "ContainerInspect dk x d = (q, d') \<Longrightarrow> I d r \<Longrightarrow> I d' r"
    and pull_keeps: "ImagePull dk x d = (b, d') \<Longrightarrow> I d r \<Longrightarrow> I d' r"
    and local_keeps: "ImageInspect dk x d = (b, d') \<Longrightarrow> I d r \<Longrightarrow> I d' r"
    and register_keeps: "I d r \<Longrightarrow> adm (cs_Image spec) \<Longrightarrow> cs_PrevImage spec = [] \<or> adm (cs_PrevImage spec) \<Longrightarrow> I d (Register spec r)"
    and running_keeps: "I d r \<Longrightarrow> (b \<longrightarrow> idok c) \<Longrightarrow> I d (SetRunning i c b r)"
    and delete_keeps: "I d r \<Longrightarrow> I d (Registry_Remove i r)"
    and registered: "I d r \<Longrightarrow> map_of r i = Some s \<Longrightarrow>
      adm (cs_Image (cst_Spec s)) \<and> (cs_PrevImage (cst_Spec s) = [] \<or> adm (cs_PrevImage (cst_Spec s)))"
begin

definition inv :: "'d Manager \<Rightarrow> bool" where
  "inv m \<longleftrightarrow> I (mg_docker m) (mg_registry m)"

lemmas engine_keeps = start_keeps stop_keeps remove_keeps inspect_keeps pull_keeps local_keeps

lemma doStart_inv: "inv m \<Longrightarrow> inv (snd (doStart dk cfg i m))"
  by (auto simp: inv_def doStart_def Registry_Get_def intro: create_keeps engine_keeps
      intro!: running_keeps dest: created_id split: option.splits prod.splits bool.splits)

lemma doStop_inv: "inv m \<Longrightarrow> inv (snd (doStop dk i m))"
  by (auto simp: inv_def doStop_def Registry_Get_def intro: engine_keeps intro!: running_keeps
      split: option.splits prod.splits bool.splits)

lemma tryRemove_inv: "inv m \<Longrightarrow> inv (tryRemove dk c m)"
  using remove_keeps [of c "mg_docker m" _ _ "mg_registry m"]
  by (cases "ContainerRemove dk c (mg_docker m)") (auto simp: inv_def tryRemove_def)

lemma register_inv:
  "inv m \<Longrightarrow> adm (cs_Image spec) \<Longrightarrow> cs_PrevImage spec = [] \<or> adm (cs_PrevImage spec)
     \<Longrightarrow> inv (m\<lparr>mg_registry := Register spec (mg_registry m)\<rparr>)"
  by (simp add: inv_def register_keeps)

lemma registered_inv: "inv m \<Longrightarrow> Registry_Get i (mg_registry m) = Some s \<Longrightarrow>
    adm (cs_Image (cst_Spec s)) \<and> (cs_PrevImage (cst_Spec s) = [] \<or> adm (cs_PrevImage (cst_Spec s)))"
  by (auto simp: inv_def Registry_Get_def dest: registered)

lemma docker_inv: "I d (mg_registry m) \<Longrightarrow> inv (m\<lparr>mg_docker := d\<rparr>)"
  by (simp add: inv_def)

lemma guarded_inv: "(\<And>m. inv m \<Longrightarrow> inv (snd (f m))) \<Longrightarrow> inv m \<Longrightarrow> inv (snd (guarded i f m))"
  by (simp add: guarded_def split: option.split)

lemma Restart_inv: "inv m \<Longrightarrow> inv (snd (Restart dk cfg i m))"
  unfolding Restart_def
  by (erule guarded_inv [rotated])
    (auto simp: inv_def intro: engine_keeps remove_keeps [OF _ stop_keeps] intro!: doStart_inv [unfolded inv_def] running_keeps
      split: option.splits prod.splits bool.splits)

text \<open>Stopping, removing and registering before a start, as upgrade, update and rollback do.\<close>

lemma replaced_inv:
  assumes "inv m" "adm (cs_Image spec)" "cs_PrevImage spec = [] \<or> adm (cs_PrevImage spec)"
  shows "inv ((tryRemove dk c m)\<lparr>mg_registry := Register spec (mg_registry m)\<rparr>)"
  using register_inv [OF tryRemove_inv [OF assms(1), of c] assms(2,3)] by simp

lemma stopped_inv: "inv m \<Longrightarrow> doStop dk i m = (e, m1) \<Longrightarrow> inv m1"
  using doStop_inv [of m i] by simp

lemma pulled_inv: "inv m \<Longrightarrow> ImagePull dk img (mg_docker m) = (b, d) \<Longrightarrow> inv (m\<lparr>mg_docker := d\<rparr>)"
  by (auto intro: docker_inv pull_keeps simp: inv_def)

lemma stop_after_pull_inv: "inv m \<Longrightarrow> ImagePull dk img (mg_docker m) = (b, d) \<Longrightarrow> doStop dk i (m\<lparr>mg_docker := d\<rparr>) = (e, m1) \<Longrightarrow> inv m1"
  by (blast intro: stopped_inv pulled_inv)

lemma Upgrade_inv: "inv m \<Longrightarrow> adm img \<Longrightarrow> inv (snd (Upgrade dk cfg i img m))"
  unfolding Upgrade_def
  by (rule guarded_inv)
    (auto simp: Let_def dest: registered_inv intro!: doStart_inv replaced_inv intro: stop_after_pull_inv pulled_inv
      split: option.splits prod.splits bool.splits)

lemma Rollback_inv: "inv m \<Longrightarrow> inv (snd (Rollback dk cfg i m))"
  unfolding Rollback_def
  by (rule guarded_inv)
    (auto simp: Let_def dest: registered_inv intro!: doStart_inv replaced_inv intro: stopped_inv
      split: option.splits prod.splits bool.splits)

lemma rollback_inv:
  assumes "inv m" "adm prevImage"
  shows "inv (snd (rollback dk cfg i prevImage cause m))"
proof (cases "Registry_Get i (mg_registry m)")
  case None
  with assms(1) show ?thesis by (simp add: rollback_def)
next
  case (Some prev)
  let ?m = "(tryRemove dk (cst_ContainerID prev) (snd (doStop dk i m)))\<lparr>mg_registry :=
      Register (cst_Spec prev\<lparr>cs_ID := i, cs_Image := prevImage\<rparr>) (mg_registry (snd (doStop dk i m)))\<rparr>"
  have "inv ?m" using assms registered_inv [OF assms(1) Some] by (intro replaced_inv doStop_inv) simp_all
  from doStart_inv [OF this, of i] have "inv (snd (doStart dk cfg i ?m))" .
  with Some assms(1) show ?thesis by (auto simp: rollback_def Let_def split: option.split prod.split)
qed

lemma rolled_back_inv: "rollback dk cfg i prevImage cause m = (e, m1) \<Longrightarrow> inv m \<Longrightarrow> adm prevImage \<Longrightarrow> inv m1"
  using rollback_inv [of m prevImage i cause] by simp

lemma started_inv: "doStart dk cfg i m = (e, m1) \<Longrightarrow> inv m \<Longrightarrow> inv m1"
  using doStart_inv [of m i] by simp

lemma soak_loop_keeps: "soak_loop dk c ticks d = (e, d') \<Longrightarrow> I d r \<Longrightarrow> I d' r"
proof (induction ticks arbitrary: d)
  case Nil
  then show ?case
    by (subst (asm) soak_loop.simps) (auto intro: inspect_keeps split: prod.splits inspect_result.splits if_splits)
next
  case (Cons t ticks)
  obtain q d1 where q: "ContainerInspect dk c d = (q, d1)" by fastforce
  then have k: "I d1 r" using Cons.prems(2) by (rule inspect_keeps)
  from Cons.prems(1) show ?case
    by (subst (asm) soak_loop.simps) (use q k Cons.IH in \<open>auto split: inspect_result.splits if_splits\<close>)
qed

lemma soaked_inv: "inv m \<Longrightarrow> soakCheck dk c w ticks (mg_docker m) = (e, d) \<Longrightarrow> inv (m\<lparr>mg_docker := d\<rparr>)"
  by (auto simp: soakCheck_def inv_def intro: soak_loop_keeps split: if_splits)

lemma start_and_soak_inv:
  assumes "inv m" "adm oldImage"
  shows "inv (snd (start_and_soak dk cfg i oldImage w ticks m))"
proof -
  obtain r m1 where s: "doStart dk cfg i m = (r, m1)" by fastforce
  with doStart_inv [OF assms(1), of i] have t: "inv m1" by simp
  let ?c = "case Registry_Get i (mg_registry m1) of None \<Rightarrow> [] | Some s \<Rightarrow> cst_ContainerID s"
  obtain k d2 where k: "soakCheck dk ?c w ticks (mg_docker m1) = (k, d2)" by fastforce
  from soaked_inv [OF t k] have "inv (m1\<lparr>mg_docker := d2\<rparr>)" .
  with s t k assms(2) show ?thesis
    by (auto simp: start_and_soak_def intro: rolled_back_inv split: option.split prod.split)
qed

lemma replace_connector_inv:
  assumes "inv m" "adm (ImageRef mf)" "adm (cs_Image (cst_Spec current))"
  shows "inv (snd (replace_connector dk cfg i mf current w ticks m))"
proof -
  obtain r m1 where s: "(if cst_ContainerID current \<noteq> [] then doStop dk i m else (None, m)) = (r, m1)" by fastforce
  with assms(1) have "inv m1" by (auto dest: stopped_inv split: if_splits)
  with assms(2,3) show ?thesis
    unfolding replace_connector_def s
    by (auto simp: Let_def intro!: start_and_soak_inv replaced_inv split: option.split)
qed

lemma Update_inv:
  assumes "inv m" and a: "Validate mf allowed gw = None \<Longrightarrow> mf_SignatureRequired mf \<longrightarrow> verify (ImageRef mf) \<Longrightarrow> adm (ImageRef mf)"
  shows "inv (snd (Update dk cfg i mf verify allowed gw w ticks m))"
proof (cases "Validate mf allowed gw")
  case None
  with a have "mf_SignatureRequired mf \<longrightarrow> verify (ImageRef mf) \<Longrightarrow> adm (ImageRef mf)" by simp
  with assms(1) None show ?thesis
    by (auto simp: Update_def dest: registered_inv intro!: guarded_inv replace_connector_inv intro: pulled_inv
        split: option.splits prod.splits bool.splits)
qed (use assms(1) in \<open>simp add: Update_def\<close>)

lemma install_image_keeps: "install_image dk mf d = (p, d') \<Longrightarrow> I d r \<Longrightarrow> I d' r"
  by (auto simp: install_image_def intro: pull_keeps local_keeps pull_keeps [OF _ local_keeps] split: prod.splits bool.splits)

lemma install_image_ref: "install_image dk mf d = ((b, img), d') \<Longrightarrow> img = mf_Image mf \<or> img = ImageRef mf"
  by (auto simp: install_image_def split: prod.splits bool.splits)

lemma install_verified_inv:
  assumes "inv m" "adm img"
  shows "inv (snd (install_verified dk cfg mf img m))"
proof -
  let ?spec = "\<lparr>cs_ID = mf_Name mf, cs_Image = img, cs_PrevImage = [], cs_Env = [], cs_Permissions = manifest_permissions mf\<rparr>"
  let ?m = "m\<lparr>mg_registry := Register ?spec (mg_registry m)\<rparr>"
  obtain r m1 where s: "doStart dk cfg (mf_Name mf) ?m = (r, m1)" by fastforce
  have "inv ?m" using assms by (simp add: register_inv)
  with s have "inv m1" by (rule started_inv)
  with s show ?thesis by (auto simp: install_verified_def inv_def intro: delete_keeps split: option.split)
qed

lemma Install_inv:
  assumes "inv m" and a: "\<And>img. Validate mf allowed gw = None \<Longrightarrow> mf_SignatureRequired mf \<longrightarrow> verify img \<Longrightarrow>
      img = mf_Image mf \<or> img = ImageRef mf \<Longrightarrow> adm img"
  shows "inv (snd (Install dk cfg mf verify allowed gw m))"
proof (cases "Validate mf allowed gw")
  case None
  have "inv (snd (case install_image dk mf (mg_docker m) of ((pulled, imageRef), d1) \<Rightarrow>
          if \<not> pulled then (Some (PullFailed imageRef), m\<lparr>mg_docker := d1\<rparr>)
          else if mf_SignatureRequired mf \<and> \<not> verify imageRef then (Some (VerifyFailed imageRef), m\<lparr>mg_docker := d1\<rparr>)
          else install_verified dk cfg mf imageRef (m\<lparr>mg_docker := d1\<rparr>)))" if "inv m" for m
  proof -
    obtain b img d1 where q: "install_image dk mf (mg_docker m) = ((b, img), d1)" by (metis surj_pair)
    with that have "inv (m\<lparr>mg_docker := d1\<rparr>)" by (auto intro: docker_inv install_image_keeps simp: inv_def)
    with q None install_image_ref [OF q] show ?thesis by (auto intro!: install_verified_inv a)
  qed
  with assms(1) None show ?thesis by (simp add: Install_def guarded_inv)
qed (use assms(1) in \<open>simp add: Install_def\<close>)

lemma inspected_inv: "ContainerInspect dk c (mg_docker m) = (q, d) \<Longrightarrow> inv m \<Longrightarrow> inv (m\<lparr>mg_docker := d\<rparr>)"
  by (auto intro: docker_inv inspect_keeps simp: inv_def)

lemma marked_down_inv: "inv m \<Longrightarrow> inv (m\<lparr>mg_registry := SetRunning i [] False (mg_registry m)\<rparr>)"
  by (simp add: inv_def running_keeps)

lemma watch_one_inv:
  assumes "inv m"
  shows "inv (watch_one dk cfg locked status m)"
proof -
  obtain q d where q: "ContainerInspect dk (cst_ContainerID status) (mg_docker m) = (q, d)" by fastforce
  from inspected_inv [OF q assms] have "inv (m\<lparr>mg_docker := d\<rparr>)" .
  with q assms doStart_inv [OF marked_down_inv [OF this]] show ?thesis
    by (simp add: watch_one_def Let_def split: inspect_result.split)
qed

lemma fold_inv: "(\<And>x m. inv m \<Longrightarrow> inv (f x m)) \<Longrightarrow> inv m \<Longrightarrow> inv (fold f xs m)"
  by (induction xs arbitrary: m) simp_all

lemma Watch_tick_inv: "inv m \<Longrightarrow> inv (Watch_tick ord dk cfg locked m)"
  by (simp add: Watch_tick_def fold_inv watch_one_inv)

lemma Claim_inv:
  "inv m \<Longrightarrow> adm (cs_Image spec) \<Longrightarrow> cs_PrevImage spec = [] \<or> adm (cs_PrevImage spec) \<Longrightarrow> inv (snd (Claim client spec m))"
  by (auto simp: Claim_def inv_def intro: register_keeps)

lemma Configure_inv:
  "inv m \<Longrightarrow> adm (cs_Image spec) \<Longrightarrow> cs_PrevImage spec = [] \<or> adm (cs_PrevImage spec) \<Longrightarrow> inv (snd (Configure spec e m))"
  by (auto simp: Configure_def inv_def intro: register_keeps)

lemma Exclusive_Start_inv: "inv m \<Longrightarrow> inv (snd (snd (Exclusive_Start dk cfg e m)))"
  by (auto simp: inv_def Exclusive_Start_def Registry_Get_def Let_def intro: create_keeps start_keeps [OF _ create_keeps]
      intro!: running_keeps dest: created_id split: option.splits prod.splits bool.splits)

lemma Exclusive_Stop_inv:
  assumes "inv m"
  shows "inv (snd (snd (Exclusive_Stop dk e m)))"
proof -
  let ?r = "mg_registry m" and ?n = "if ex_containerID e = [] then ''nexus-'' @ ex_id e else ex_containerID e"
  obtain q d1 where q: "ContainerInspect dk ?n (mg_docker m) = (q, d1)" by fastforce
  with assms have i1: "I d1 ?r" by (auto simp: inv_def intro: inspect_keeps)
  show ?thesis
  proof (cases q)
    case (Inspected info)
    obtain b2 d2 where s: "(if ii_Running info = Some True then ContainerStop dk (ii_ID info) d1 else (True, d1)) = (b2, d2)" by fastforce
    with i1 have i2: "I d2 ?r" by (auto intro: stop_keeps split: if_splits)
    obtain q3 d3 where q3: "ContainerInspect dk (ii_ID info) d2 = (q3, d3)" by fastforce
    with i2 have i3: "I d3 ?r" by (auto intro: inspect_keeps)
    obtain b4 d4 where r: "ContainerRemove dk (ii_ID info) d3 = (b4, d4)" by fastforce
    with i3 have "I d4 ?r" by (auto intro: remove_keeps)
    with q Inspected i1 i2 i3 s q3 r show ?thesis
      by (cases q3; cases b4) (simp_all add: Exclusive_Stop_def Let_def inv_def stopped_def running_keeps)
  qed (use q i1 in \<open>simp_all add: Exclusive_Stop_def inv_def stopped_def running_keeps\<close>)
qed

lemma poll_one_inv:
  assumes "inv m" "\<And>img. brings_in verify (CallPoll u cat ticks) img \<Longrightarrow> adm img"
  shows "inv (poll_one dk cfg u (catalog_fetch cat) verify ticks status m)"
proof -
  have "adm (ImageRef mf)" if "map_of cat i = Some mf" "Validate mf (up_allowlist u) (up_gwVersion u) = None"
    "mf_SignatureRequired mf \<longrightarrow> verify (ImageRef mf)" for mf i
    using that map_of_SomeD [OF that(1)] by (intro assms(2)) (auto simp: verified_def list_ex_iff)
  with assms(1) show ?thesis by (auto simp: poll_one_def Let_def catalog_fetch_def intro!: Update_inv split: option.split)
qed

lemma poll_inv: "inv m \<Longrightarrow> (\<And>img. brings_in verify (CallPoll u cat ticks) img \<Longrightarrow> adm img)
    \<Longrightarrow> inv (poll ord dk cfg u (catalog_fetch cat) verify ticks m)"
  unfolding poll_def by (rule fold_inv [OF poll_one_inv])

theorem lc_apply_inv:
  assumes "inv m" "\<And>img. brings_in verify call img \<Longrightarrow> adm img"
  shows "inv (lc_apply ord dk cfg verify call m)"
proof (cases call)
  case (CallInstall mf allowed gw)
  with assms show ?thesis by (auto intro!: Install_inv simp: verified_def)
next
  case (CallUpdate i mf allowed gw w ticks)
  with assms show ?thesis by (auto intro!: Update_inv simp: verified_def)
next
  case (CallPoll u cat ticks)
  with assms show ?thesis by (auto intro!: poll_inv)
qed (use assms in \<open>auto simp: Start_def Stop_def intro!: guarded_inv doStart_inv doStop_inv Restart_inv Upgrade_inv Rollback_inv
      Watch_tick_inv Claim_inv Configure_inv Exclusive_Stop_inv Exclusive_Start_inv\<close>)

theorem lc_run_inv: "inv m \<Longrightarrow> (\<And>call img. call \<in> set calls \<Longrightarrow> brings_in verify call img \<Longrightarrow> adm img)
    \<Longrightarrow> inv (lc_run ord dk cfg verify calls m)"
  unfolding lc_run_def
proof (induction calls arbitrary: m)
  case (Cons call calls)
  then have "inv (lc_apply ord dk cfg verify call m)" by (intro lc_apply_inv) (auto intro: Cons.prems(2))
  then show ?case using Cons.prems(2) by (auto intro!: Cons.IH)
qed simp

end

section \<open>The registry under any sequence of calls\<close>

interpretation registry_types: manager_invariant dk cfg "\<lambda>_. True" "\<lambda>c. gives_ids dk \<longrightarrow> c \<noteq> []" "\<lambda>d r. gives_ids dk \<longrightarrow> registry_typed r"
  for dk :: "'d ContainerClient" and cfg
  by unfold_locales (auto dest: create_id)

text \<open>A small engine, to run the manager on: containers by their id, made from the name, with their image and whether they run. A name is taken until
  the container is removed.\<close>

definition small_engine :: "(string \<times> string \<times> bool) list ContainerClient" where
  "small_engine =
     \<lparr>ContainerCreate = (\<lambda>a d. let c = ''c-'' @ cc_Name a in if map_of d c = None then (Some c, (c, cc_Image a, False) # d) else (None, d)),
      ContainerStart = (\<lambda>c d. case map_of d c of None \<Rightarrow> (False, d) | Some (img, _) \<Rightarrow> (True, AList.update c (img, True) d)),
      ContainerStop = (\<lambda>c d. case map_of d c of None \<Rightarrow> (False, d) | Some (img, _) \<Rightarrow> (True, AList.update c (img, False) d)),
      ContainerRemove = (\<lambda>c d. case map_of d c of None \<Rightarrow> (False, d) | Some (img, True) \<Rightarrow> (False, d) | _ \<Rightarrow> (True, AList.delete c d)),
      ContainerInspect = (\<lambda>c d. case map_of d c of None \<Rightarrow> (InspectNotFound, d)
        | Some (img, run) \<Rightarrow> (Inspected \<lparr>ii_ID = c, ii_Labels = Some [], ii_Running = Some run\<rparr>, d)),
      ImagePull = (\<lambda>ref d. (True, d)),
      ImageInspect = (\<lambda>ref d. (False, d))\<rparr>"

definition small_config :: ManagerConfig where
  "small_config = \<lparr>mgc_NATSURL = ''nats:4222'', mgc_ConnectorNetwork = []\<rparr>"

lemma small_engine_ids: "gives_ids small_engine"
  by (auto simp: gives_ids_def small_engine_def Let_def split: if_splits)

definition small_manifest :: Manifest where
  "small_manifest = zero_Manifest\<lparr>mf_Name := ''mqtt-01'', mf_Image := ''ghcr.io/x/mqtt'', mf_Digest := ''sha256:'' @ replicate 64 CHR ''a'',
     mf_Permissions := \<lparr>pm_Network = [], pm_Mounts = [''/etc/mqtt'']\<rparr>, mf_SignatureRequired := True\<rparr>"

definition small_calls :: "lc_call list" where
  "small_calls = [CallInstall small_manifest [''ghcr.io/x/''] ''1.0.0'', CallWatch (\<lambda>_. False), CallStop ''mqtt-01'']"

text \<open>C25: Whatever sequence of calls reaches a new manager, its registry stays well-formed: one entry per connector, each under its
  own id, and a connector marked running has the id of a container.\<close>

theorem lifecycle_registry_typed:
  assumes "gives_ids dk"
  shows "registry_typed (mg_registry (lc_run ord dk cfg verify calls (NewManager d [])))"
  using registry_types.lc_run_inv [unfolded registry_types.inv_def, of dk "NewManager d []" calls verify ord cfg] assms
  by (simp add: NewManager_def)

theorem lifecycle_registry_typed_witness:
  "registry_typed (mg_registry (lc_run id small_engine small_config (\<lambda>_. True) small_calls (NewManager [] [])))
     \<and> map fst (mg_registry (lc_run id small_engine small_config (\<lambda>_. True) small_calls (NewManager [] []))) = [''mqtt-01'']"
proof -
  have "map fst (mg_registry (lc_run id small_engine small_config (\<lambda>_. True) small_calls (NewManager [] []))) = [''mqtt-01'']"
    by code_simp
  with lifecycle_registry_typed [OF small_engine_ids, of id small_config "\<lambda>_. True" small_calls "[]"] show ?thesis by simp
qed

section \<open>Only admitted images\<close>

text \<open>The engine with a record of the containers it is asked to create.\<close>

definition recording :: "'d ContainerClient \<Rightarrow> ('d \<times> container_config list) ContainerClient" where
  "recording dk =
     \<lparr>ContainerCreate = (\<lambda>a (d, log). case ContainerCreate dk a d of (r, d') \<Rightarrow> (r, d', log @ [a])),
      ContainerStart = (\<lambda>c (d, log). case ContainerStart dk c d of (r, d') \<Rightarrow> (r, d', log)),
      ContainerStop = (\<lambda>c (d, log). case ContainerStop dk c d of (r, d') \<Rightarrow> (r, d', log)),
      ContainerRemove = (\<lambda>c (d, log). case ContainerRemove dk c d of (r, d') \<Rightarrow> (r, d', log)),
      ContainerInspect = (\<lambda>c (d, log). case ContainerInspect dk c d of (r, d') \<Rightarrow> (r, d', log)),
      ImagePull = (\<lambda>c (d, log). case ImagePull dk c d of (r, d') \<Rightarrow> (r, d', log)),
      ImageInspect = (\<lambda>c (d, log). case ImageInspect dk c d of (r, d') \<Rightarrow> (r, d', log))\<rparr>"

definition container_ok :: "(string \<Rightarrow> bool) \<Rightarrow> container_config \<Rightarrow> bool" where
  "container_ok adm a \<longleftrightarrow> adm (cc_Image a) \<and> is_prefix ''nexus-'' (cc_Name a) \<and> list_all (suffix '':ro'') (cc_Binds a)"

definition images_ok :: "(string \<Rightarrow> bool) \<Rightarrow> Registry \<Rightarrow> bool" where
  "images_ok adm r \<longleftrightarrow> (\<forall>i s. map_of r i = Some s \<longrightarrow>
     adm (cs_Image (cst_Spec s)) \<and> (cs_PrevImage (cst_Spec s) = [] \<or> adm (cs_PrevImage (cst_Spec s))))"

lemma createWithLabels_ok:
  "adm (cs_Image spec) \<Longrightarrow> createWithLabels (recording dk) cfg spec ls d = (k, d') \<Longrightarrow> list_all (container_ok adm) (snd d)
     \<Longrightarrow> list_all (container_ok adm) (snd d')"
  by (auto simp: createWithLabels_def recording_def container_ok_def is_prefix_def list_all_iff suffix_def split: prod.splits)

lemma images_okD:
  "images_ok adm r \<Longrightarrow> map_of r i = Some s \<Longrightarrow>
     adm (cs_Image (cst_Spec s)) \<and> (cs_PrevImage (cst_Spec s) = [] \<or> adm (cs_PrevImage (cst_Spec s)))"
  by (simp add: images_ok_def)

lemma images_ok_registry [intro]:
  "images_ok adm r \<Longrightarrow> adm (cs_Image spec) \<Longrightarrow> cs_PrevImage spec = [] \<or> adm (cs_PrevImage spec) \<Longrightarrow> images_ok adm (Register spec r)"
  "images_ok adm r \<Longrightarrow> images_ok adm (SetRunning i c b r)"
  "images_ok adm r \<Longrightarrow> images_ok adm (Registry_Remove i r)"
  by (auto simp: images_ok_def Register_def SetRunning_lookup Registry_Remove_def update_conv' delete_conv' restrict_map_def
      simp del: map_of_eq_Some_iff split: option.splits if_splits) blast

lemma recording_log:
  "ContainerStart (recording dk) c d = (b, d') \<Longrightarrow> snd d' = snd d"
  "ContainerStop (recording dk) c d = (b, d') \<Longrightarrow> snd d' = snd d"
  "ContainerRemove (recording dk) c d = (b, d') \<Longrightarrow> snd d' = snd d"
  "ContainerInspect (recording dk) c d = (q, d') \<Longrightarrow> snd d' = snd d"
  "ImagePull (recording dk) c d = (b, d') \<Longrightarrow> snd d' = snd d"
  "ImageInspect (recording dk) c d = (b, d') \<Longrightarrow> snd d' = snd d"
  by (auto simp: recording_def split: prod.splits)

interpretation registry_images: manager_invariant "recording dk" cfg adm "\<lambda>_. True"
    "\<lambda>d r. images_ok adm r \<and> list_all (container_ok adm) (snd d)"
  for dk :: "'d ContainerClient" and cfg adm
  by unfold_locales (auto dest: recording_log images_okD intro: createWithLabels_ok)

text \<open>C8: Whatever sequence of calls reaches the manager, a container is only ever created from an image that one of the calls brought in: named
  by the administrator or the clock configuration, or of a manifest that was validated and, where it asks
  for it, verified. It carries the gateway's name and its mounts are read-only.\<close>

theorem only_admitted_images:
  assumes "a \<in> set (snd (mg_docker (lc_run ord (recording dk) cfg verify calls (NewManager (d, []) []))))"
  shows "list_ex (\<lambda>call. brings_in verify call (cc_Image a)) calls \<and> is_prefix ''nexus-'' (cc_Name a)
    \<and> list_all (suffix '':ro'') (cc_Binds a)"
proof -
  let ?adm = "\<lambda>img. list_ex (\<lambda>call. brings_in verify call img) calls"
  have "list_all (container_ok ?adm) (snd (mg_docker (lc_run ord (recording dk) cfg verify calls (NewManager (d, []) []))))"
    using registry_images.lc_run_inv [unfolded registry_images.inv_def, of ?adm "NewManager (d, []) []" calls verify ord dk cfg]
    by (auto simp: NewManager_def images_ok_def list_ex_iff)
  with assms show ?thesis by (auto simp: list_all_iff container_ok_def)
qed

theorem only_admitted_images_witness:
  "let calls = take 1 small_calls; m = lc_run id (recording small_engine) small_config (\<lambda>_. True) calls (NewManager ([], []) []);
       a = snd (mg_docker m) ! 0
   in length (snd (mg_docker m)) = 1 \<and> list_ex (\<lambda>call. brings_in (\<lambda>_. True) call (cc_Image a)) calls
      \<and> list_all (suffix '':ro'') (cc_Binds a)"
proof -
  let ?m = "lc_run id (recording small_engine) small_config (\<lambda>_. True) (take 1 small_calls) (NewManager ([], []) [])"
  have l: "length (snd (mg_docker ?m)) = 1" by code_simp
  then have "snd (mg_docker ?m) ! 0 \<in> set (snd (mg_docker ?m))" by (intro nth_mem) simp
  from only_admitted_images [OF this] l show ?thesis by (simp add: Let_def)
qed

section \<open>An exited container\<close>

text \<open>The engine's documented behaviour: a name stays taken until its container is removed, and creating under a taken name is refused. Inspecting changes nothing.\<close>

definition refuses_names :: "'d ContainerClient \<Rightarrow> (string \<Rightarrow> 'd \<Rightarrow> bool) \<Rightarrow> bool" where
  "refuses_names dk taken \<longleftrightarrow> (\<forall>a d. taken (cc_Name a) d \<longrightarrow> ContainerCreate dk a d = (None, d))"

definition inspect_reads :: "'d ContainerClient \<Rightarrow> bool" where
  "inspect_reads dk \<longleftrightarrow> (\<forall>c d. snd (ContainerInspect dk c d) = d)"

lemma doStart_taken:
  "refuses_names dk taken \<Longrightarrow> Registry_Get i (mg_registry m) = Some s \<Longrightarrow> taken (''nexus-'' @ cs_ID (cst_Spec s)) (mg_docker m)
     \<Longrightarrow> doStart dk cfg i m = (Some (CreateFailed i), m)"
  by (simp add: doStart_def createWithLabels_def refuses_names_def)

lemma SetRunning_Get: "Registry_Get i (SetRunning i c b r) = map_option (\<lambda>s. s\<lparr>cst_ContainerID := c, cst_Running := b\<rparr>) (Registry_Get i r)"
  by (simp add: Registry_Get_def SetRunning_lookup)

text \<open>C33: A connector whose container exited on its own is not brought back by the watch: the old container still holds the name, so the
  restart is refused. The connector is then recorded as stopped without a container, later ticks pass
  it over, and both a start and a restart by the administrator fail in the same way.\<close>

theorem exited_connector_stays_down:
  fixes cfg :: ManagerConfig
  assumes "refuses_names dk taken" "inspect_reads dk"
    and "Registry_Get i (mg_registry m) = Some s" "cst_Running s" "cst_ContainerID s \<noteq> []" "cs_ID (cst_Spec s) = i"
    and "fst (ContainerInspect dk (cst_ContainerID s) (mg_docker m)) = Inspected info" "ii_Running info = Some False"
    and "taken (''nexus-'' @ i) (mg_docker m)" "i \<notin> set (mg_reserved m)" "\<not> locked i"
  defines "m' \<equiv> watch_one dk cfg locked s m" and "s' \<equiv> s\<lparr>cst_ContainerID := [], cst_Running := False\<rparr>"
  shows "Registry_Get i (mg_registry m') = Some s' \<and> mg_docker m' = mg_docker m
    \<and> Start dk cfg i m' = (Some (CreateFailed i), m') \<and> Restart dk cfg i m' = (Some (CreateFailed i), m')
    \<and> watch_one dk cfg locked s' m' = m'"
proof -
  let ?m = "m\<lparr>mg_registry := SetRunning i [] False (mg_registry m)\<rparr>"
  have q: "ContainerInspect dk (cst_ContainerID s) (mg_docker m) = (Inspected info, mg_docker m)"
    using assms(2,7) unfolding inspect_reads_def by (metis prod.collapse)
  have g: "Registry_Get i (mg_registry ?m) = Some s'" using assms(3) by (simp add: SetRunning_Get s'_def)
  have t: "doStart dk cfg i ?m = (Some (CreateFailed i), ?m)"
    using assms(6,9) by (intro doStart_taken [OF assms(1) g]) (simp add: s'_def)
  have "m' = ?m" using q t assms(4-6,8,10,11) by (simp add: m'_def watch_one_def Let_def checkReserved_def)
  with g t assms(10) show ?thesis
    by (simp add: Start_def Restart_def guarded_def checkReserved_def) (simp add: s'_def watch_one_def)
qed

definition small_taken :: "string \<Rightarrow> (string \<times> string \<times> bool) list \<Rightarrow> bool" where
  "small_taken n d \<longleftrightarrow> map_of d (''c-'' @ n) \<noteq> None"

definition exited_manager :: "(string \<times> string \<times> bool) list Manager" where
  "exited_manager = NewManager [(''c-nexus-a'', ''img'', False)] [(''a'',
     \<lparr>cst_Spec = \<lparr>cs_ID = ''a'', cs_Image = ''img'', cs_PrevImage = [], cs_Env = [], cs_Permissions = no_permissions\<rparr>,
      cst_ContainerID = ''c-nexus-a'', cst_Running = True\<rparr>)]"

theorem exited_connector_stays_down_witness:
  "\<exists>s. Registry_Get ''a'' (mg_registry exited_manager) = Some s \<and> cst_Running s
     \<and> Start small_engine small_config ''a'' (watch_one small_engine small_config (\<lambda>_. False) s exited_manager)
       = (Some (CreateFailed ''a''), watch_one small_engine small_config (\<lambda>_. False) s exited_manager)"
proof -
  have "refuses_names small_engine small_taken" by (auto simp: refuses_names_def small_engine_def small_taken_def Let_def)
  moreover have "inspect_reads small_engine" by (auto simp: inspect_reads_def small_engine_def split: option.split)
  ultimately show ?thesis
    using exited_connector_stays_down [of small_engine small_taken "''a''" exited_manager _ _ "\<lambda>_. False" small_config]
    by (simp add: exited_manager_def NewManager_def Registry_Get_def small_taken_def small_engine_def)
qed

section \<open>The outcome of an update\<close>

text \<open>The connector runs, with this spec.\<close>

definition runs_spec :: "'d Manager \<Rightarrow> string \<Rightarrow> ConnectorSpec \<Rightarrow> bool" where
  "runs_spec m i spec \<longleftrightarrow> (\<exists>s. Registry_Get i (mg_registry m) = Some s \<and> cst_Running s \<and> cst_Spec s = spec)"

lemma Register_Get: "cs_ID spec = i \<Longrightarrow> map_option cst_Spec (Registry_Get i (Register spec r)) = Some spec"
  by (auto simp: Registry_Get_def Register_def update_conv' split: option.split)

lemma doStart_outcome:
  "doStart dk cfg i m = (None, m') \<Longrightarrow> map_option cst_Spec (Registry_Get i (mg_registry m)) = Some spec \<Longrightarrow> runs_spec m' i spec"
  "doStart dk cfg i m = (Some e, m') \<Longrightarrow> mg_registry m' = mg_registry m \<and> (\<forall>c. e \<noteq> RolledBack c)"
  by (auto simp: doStart_def runs_spec_def SetRunning_Get split: option.splits prod.splits bool.splits)

lemma doStop_outcome:
  "map_option cst_Spec (Registry_Get i (mg_registry (snd (doStop dk i m)))) = map_option cst_Spec (Registry_Get i (mg_registry m))"
  "fst (doStop dk i m) = Some e \<Longrightarrow> (\<forall>c. e \<noteq> RolledBack c)"
  by (auto simp: doStop_def SetRunning_Get split: option.splits prod.splits bool.splits if_splits)

lemma rollback_outcome:
  assumes "rollback dk cfg i prevImage cause m = (RolledBack c, m')"
    and "map_option cst_Spec (Registry_Get i (mg_registry m)) = Some spec" "cs_ID spec = i"
  shows "c = cause \<and> runs_spec m' i (spec\<lparr>cs_Image := prevImage\<rparr>)"
proof -
  obtain prev where g: "Registry_Get i (mg_registry m) = Some prev" and p: "cst_Spec prev = spec" using assms(2) by auto
  let ?spec = "cst_Spec prev\<lparr>cs_ID := i, cs_Image := prevImage\<rparr>"
  let ?m = "(tryRemove dk (cst_ContainerID prev) (snd (doStop dk i m)))\<lparr>mg_registry := Register ?spec (mg_registry (snd (doStop dk i m)))\<rparr>"
  have "?spec = spec\<lparr>cs_Image := prevImage\<rparr>" using p assms(3) by (cases spec) auto
  moreover have "map_option cst_Spec (Registry_Get i (mg_registry ?m)) = Some ?spec" by (simp add: Register_Get)
  moreover have "doStart dk cfg i ?m = (None, m') \<and> c = cause"
    using assms(1) g by (auto simp: rollback_def Let_def split: if_splits prod.splits option.splits)
  ultimately show ?thesis using doStart_outcome(1) [of dk cfg i ?m m' ?spec] by simp
qed

lemma start_and_soak_outcome:
  assumes s: "start_and_soak dk cfg i old w ticks m = (r, m')"
    and spec: "map_option cst_Spec (Registry_Get i (mg_registry m)) = Some spec" "cs_ID spec = i"
  shows "r = None \<Longrightarrow> runs_spec m' i spec" "r = Some (RolledBack c) \<Longrightarrow> runs_spec m' i (spec\<lparr>cs_Image := old\<rparr>)"
proof -
  obtain r1 m1 where d: "doStart dk cfg i m = (r1, m1)" by fastforce
  let ?c = "case Registry_Get i (mg_registry m1) of None \<Rightarrow> [] | Some s \<Rightarrow> cst_ContainerID s"
  obtain k d2 where k: "soakCheck dk ?c w ticks (mg_docker m1) = (k, d2)" by fastforce
  have sp: "map_option cst_Spec (Registry_Get i (mg_registry m1)) = Some spec"
    using d spec doStart_outcome [of dk cfg i m] by (cases r1) (auto simp: runs_spec_def)
  show "runs_spec m' i spec" if "r = None"
    using s d k that doStart_outcome(1) [of dk cfg i m m1 spec] spec
    by (auto simp: start_and_soak_def runs_spec_def split: option.splits prod.splits)
  show "runs_spec m' i (spec\<lparr>cs_Image := old\<rparr>)" if "r = Some (RolledBack c)"
    using s d k that rollback_outcome [of dk cfg i old _ m1 c m' spec] rollback_outcome [of dk cfg i old _ "m1\<lparr>mg_docker := d2\<rparr>" c m' spec]
      sp spec(2)
    by (auto simp: start_and_soak_def split: option.splits prod.splits)
qed

lemma replace_connector_outcome:
  assumes "replace_connector dk cfg i mf current w ticks m = (r, m')"
  defines "spec \<equiv> \<lparr>cs_ID = i, cs_Image = ImageRef mf, cs_PrevImage = cs_Image (cst_Spec current), cs_Env = cs_Env (cst_Spec current),
      cs_Permissions = manifest_permissions mf\<rparr>"
  shows "r = None \<Longrightarrow> runs_spec m' i spec"
    "r = Some (RolledBack c) \<Longrightarrow> runs_spec m' i (spec\<lparr>cs_Image := cs_Image (cst_Spec current)\<rparr>)"
proof -
  obtain e m1 where s: "(if cst_ContainerID current \<noteq> [] then doStop dk i m else (None, m)) = (e, m1)" by fastforce
  let ?m = "(tryRemove dk (cst_ContainerID current) m1)\<lparr>mg_registry := Register spec (mg_registry m1)\<rparr>"
  have g: "map_option cst_Spec (Registry_Get i (mg_registry ?m)) = Some spec" by (simp add: Register_Get spec_def)
  have n: "e \<noteq> Some (RolledBack c')" for c' using s doStop_outcome(2) [of dk i m] by (auto split: if_splits)
  have "e = None \<and> start_and_soak dk cfg i (cs_Image (cst_Spec current)) w ticks ?m = (r, m') \<or> e \<noteq> None \<and> r = e"
    using assms(1) unfolding replace_connector_def s by (auto simp: Let_def spec_def split: option.splits)
  with n g start_and_soak_outcome [of dk cfg i _ w ticks ?m r m' spec]
  show "r = None \<Longrightarrow> runs_spec m' i spec" "r = Some (RolledBack c) \<Longrightarrow> runs_spec m' i (spec\<lparr>cs_Image := cs_Image (cst_Spec current)\<rparr>)"
    by (auto simp: spec_def)
qed


definition next_manifest :: Manifest where
  "next_manifest = small_manifest\<lparr>mf_Digest := ''sha256:'' @ replicate 64 CHR ''b'', mf_Permissions := \<lparr>pm_Network = [], pm_Mounts = []\<rparr>\<rparr>"

definition installed_manager :: "(string \<times> string \<times> bool) list Manager" where
  "installed_manager = lc_run id small_engine small_config (\<lambda>_. True) (take 1 small_calls) (NewManager [] [])"


end
