(* ===== verification/Run_Ledger.thy ===== *)
theory Run_Ledger
  imports Go_Lib "HOL-Library.Char_ord" "HOL-Library.List_Lexorder"
begin

text \<open>
  The run ledger (\<open>internal/runcontext/context.go\<close>): the durable record of which simulation run a gateway
  accepted, when it was applied, and which runs were invalidated. The ledger file is the string it
  holds; JSON text, base64, integers and RFC 3339 times are parameters. A write of the file can fail
  before or after the new file is in place.
\<close>

section \<open>Times and strict decoding\<close>

text \<open>A \<open>time.Time\<close>: nanoseconds since the zero time, and the offset of its zone.\<close>

record gotime =
  gt_ns :: int
  gt_off :: int

definition IsZero :: "gotime \<Rightarrow> bool" where
  "IsZero t \<longleftrightarrow> gt_ns t = 0"

definition Before :: "gotime \<Rightarrow> gotime \<Rightarrow> bool" where
  "Before t u \<longleftrightarrow> gt_ns t < gt_ns u"

definition zero_time :: gotime where
  "zero_time = \<lparr>gt_ns = 0, gt_off = 0\<rparr>"

record run_lib = json_lib +
  parse_uint64 :: "string \<Rightarrow> int option"
  format_integer :: "int \<Rightarrow> string"
  parse_go_int :: "string \<Rightarrow> int option"
  parse_time :: "string \<Rightarrow> gotime option"
  format_time :: "gotime \<Rightarrow> string option"
  base64_decode :: "string \<Rightarrow> string option"
  base64_encode :: "string \<Rightarrow> string"

text \<open>With \<open>DisallowUnknownFields\<close> a member without a field is an error.\<close>

fun dec_members_strict :: "(string \<times> 'a field_decoder) list \<Rightarrow> (string \<times> json) list \<Rightarrow> 'a \<Rightarrow> 'a option" where
  "dec_members_strict fs [] x = Some x"
| "dec_members_strict fs ((k, v) # ms) x =
     (case find_field fs k of
        None \<Rightarrow> None
      | Some d \<Rightarrow> (case d v x of None \<Rightarrow> None | Some y \<Rightarrow> dec_members_strict fs ms y))"

definition dec_struct_strict :: "(string \<times> 'a field_decoder) list \<Rightarrow> json \<Rightarrow> 'a \<Rightarrow> 'a option" where
  "dec_struct_strict fs j x = (case j of JObj ms \<Rightarrow> dec_members_strict fs ms x | JNull \<Rightarrow> Some x | _ \<Rightarrow> None)"

definition dec_time :: "run_lib \<Rightarrow> (gotime \<Rightarrow> 'a \<Rightarrow> 'a) \<Rightarrow> 'a field_decoder" where
  "dec_time lib upd j x =
     (case j of JStr s \<Rightarrow> map_option (\<lambda>t. upd t x) (parse_time lib s) | JNull \<Rightarrow> Some x | _ \<Rightarrow> None)"

section \<open>Contexts and ledger states\<close>

record run_scope =
  sc_GatewayID :: string
  sc_ClockID :: string

record RunContext =
  rc_SchemaVersion :: string
  rc_GatewayID :: string
  rc_ClockID :: string
  rc_ProvisioningRevision :: string
  rc_RunID :: string
  rc_Generation :: int
  rc_Status :: string
  rc_IssuedAt :: gotime
  rc_ValidFrom :: gotime
  rc_ExpiresAt :: gotime

text \<open>An envelope is its payload.\<close>

type_synonym Envelope = string

record ledger_state =
  ls_InvalidRuns :: "bool gomap option"
  ls_Version :: int
  ls_Scope :: run_scope
  ls_Envelope :: "Envelope option"
  ls_CommittedAt :: gotime
  ls_AppliedAt :: "gotime option"

record Ledger =
  lg_failed :: bool
  lg_data :: ledger_state
  lg_context :: "RunContext option"

record RunResult =
  rr_Status :: string
  rr_Reason :: string
  rr_RunID :: string
  rr_Generation :: int

definition ledgerVersion :: int where
  "ledgerVersion = 2"

definition run_schema :: string where
  "run_schema = ''clock-run-context/2-draft''"

text \<open>The map of invalid runs is kept as the list of its entries in the order of their keys, in which it is written.\<close>

definition runs_update :: "string \<Rightarrow> bool \<Rightarrow> bool gomap \<Rightarrow> bool gomap" where
  "runs_update k b m = sort_key fst (AList.update k b m)"

definition RunContext_fields :: "run_lib \<Rightarrow> (string \<times> RunContext field_decoder) list" where
  "RunContext_fields lib =
     [(''schemaVersion'', dec_string (\<lambda>s c. c\<lparr>rc_SchemaVersion := s\<rparr>)), (''gatewayId'', dec_string (\<lambda>s c. c\<lparr>rc_GatewayID := s\<rparr>)),
      (''clockId'', dec_string (\<lambda>s c. c\<lparr>rc_ClockID := s\<rparr>)),
      (''provisioningRevision'', dec_string (\<lambda>s c. c\<lparr>rc_ProvisioningRevision := s\<rparr>)),
      (''runId'', dec_string (\<lambda>s c. c\<lparr>rc_RunID := s\<rparr>)),
      (''generation'', \<lambda>j c. case j of JNum n \<Rightarrow> map_option (\<lambda>g. c\<lparr>rc_Generation := g\<rparr>) (parse_uint64 lib n) | JNull \<Rightarrow> Some c | _ \<Rightarrow> None),
      (''status'', dec_string (\<lambda>s c. c\<lparr>rc_Status := s\<rparr>)), (''issuedAt'', dec_time lib (\<lambda>t c. c\<lparr>rc_IssuedAt := t\<rparr>)),
      (''validFrom'', dec_time lib (\<lambda>t c. c\<lparr>rc_ValidFrom := t\<rparr>)), (''expiresAt'', dec_time lib (\<lambda>t c. c\<lparr>rc_ExpiresAt := t\<rparr>))]"

definition zero_RunContext :: RunContext where
  "zero_RunContext = \<lparr>rc_SchemaVersion = [], rc_GatewayID = [], rc_ClockID = [], rc_ProvisioningRevision = [], rc_RunID = [],
     rc_Generation = 0, rc_Status = [], rc_IssuedAt = zero_time, rc_ValidFrom = zero_time, rc_ExpiresAt = zero_time\<rparr>"

text \<open>The JSON of a context; times that have no RFC 3339 form have none.\<close>

definition encode_RunContext :: "run_lib \<Rightarrow> RunContext \<Rightarrow> string option" where
  "encode_RunContext lib c =
     (case (format_time lib (rc_IssuedAt c), format_time lib (rc_ValidFrom c), format_time lib (rc_ExpiresAt c)) of
        (Some i, Some v, Some e) \<Rightarrow> Some (json_write (json_lib.truncate lib) (JObj
          [(''schemaVersion'', JStr (rc_SchemaVersion c)), (''gatewayId'', JStr (rc_GatewayID c)), (''clockId'', JStr (rc_ClockID c)),
           (''provisioningRevision'', JStr (rc_ProvisioningRevision c)), (''runId'', JStr (rc_RunID c)),
           (''generation'', JNum (format_integer lib (rc_Generation c))), (''status'', JStr (rc_Status c)),
           (''issuedAt'', JStr i), (''validFrom'', JStr v), (''expiresAt'', JStr e)]))
      | _ \<Rightarrow> None)"

fun dec_bool_members :: "(string \<times> json) list \<Rightarrow> bool gomap \<Rightarrow> bool gomap option" where
  "dec_bool_members [] m = Some m"
| "dec_bool_members ((k, v) # ms) m =
     (case v of
        JBool b \<Rightarrow> dec_bool_members ms (runs_update k b m)
      | JNull \<Rightarrow> dec_bool_members ms (runs_update k False m)
      | _ \<Rightarrow> None)"

definition scope_fields :: "(string \<times> run_scope field_decoder) list" where
  "scope_fields = [(''gatewayId'', dec_string (\<lambda>s c. c\<lparr>sc_GatewayID := s\<rparr>)), (''clockId'', dec_string (\<lambda>s c. c\<lparr>sc_ClockID := s\<rparr>))]"

definition envelope_fields :: "run_lib \<Rightarrow> (string \<times> Envelope field_decoder) list" where
  "envelope_fields lib = [(''payload'', \<lambda>j e. case j of JStr s \<Rightarrow> base64_decode lib s | JNull \<Rightarrow> Some [] | _ \<Rightarrow> None)]"

definition state_fields :: "run_lib \<Rightarrow> (string \<times> ledger_state field_decoder) list" where
  "state_fields lib =
     [(''invalidRuns'', \<lambda>j st. case j of
          JObj ms \<Rightarrow> map_option (\<lambda>m. st\<lparr>ls_InvalidRuns := Some m\<rparr>)
                      (dec_bool_members ms (case ls_InvalidRuns st of None \<Rightarrow> [] | Some m \<Rightarrow> m))
        | JNull \<Rightarrow> Some (st\<lparr>ls_InvalidRuns := None\<rparr>) | _ \<Rightarrow> None),
      (''version'', \<lambda>j st. case j of JNum n \<Rightarrow> map_option (\<lambda>v. st\<lparr>ls_Version := v\<rparr>) (parse_go_int lib n) | JNull \<Rightarrow> Some st | _ \<Rightarrow> None),
      (''scope'', \<lambda>j st. map_option (\<lambda>s. st\<lparr>ls_Scope := s\<rparr>) (dec_struct_strict scope_fields j (ls_Scope st))),
      (''envelope'', \<lambda>j st. case j of
          JNull \<Rightarrow> Some (st\<lparr>ls_Envelope := None\<rparr>)
        | _ \<Rightarrow> map_option (\<lambda>e. st\<lparr>ls_Envelope := Some e\<rparr>)
                 (dec_struct_strict (envelope_fields lib) j (case ls_Envelope st of None \<Rightarrow> [] | Some e \<Rightarrow> e))),
      (''committedAt'', dec_time lib (\<lambda>t st. st\<lparr>ls_CommittedAt := t\<rparr>)),
      (''appliedAt'', \<lambda>j st. case j of
          JNull \<Rightarrow> Some (st\<lparr>ls_AppliedAt := None\<rparr>)
        | JStr s \<Rightarrow> map_option (\<lambda>t. st\<lparr>ls_AppliedAt := Some t\<rparr>) (parse_time lib s) | _ \<Rightarrow> None)]"

definition zero_state :: ledger_state where
  "zero_state = \<lparr>ls_InvalidRuns = None, ls_Version = 0, ls_Scope = \<lparr>sc_GatewayID = [], sc_ClockID = []\<rparr>, ls_Envelope = None,
     ls_CommittedAt = zero_time, ls_AppliedAt = None\<rparr>"

definition state_json :: "run_lib \<Rightarrow> ledger_state \<Rightarrow> json option" where
  "state_json lib st =
     (case (format_time lib (ls_CommittedAt st), map_option (format_time lib) (ls_AppliedAt st)) of
        (None, _) \<Rightarrow> None
      | (_, Some None) \<Rightarrow> None
      | (Some cm, ap) \<Rightarrow> Some (JObj
          [(''invalidRuns'', case ls_InvalidRuns st of None \<Rightarrow> JNull | Some m \<Rightarrow> JObj (map (\<lambda>(k, b). (k, JBool b)) m)),
           (''version'', JNum (format_integer lib (ls_Version st))),
           (''scope'', JObj [(''gatewayId'', JStr (sc_GatewayID (ls_Scope st))), (''clockId'', JStr (sc_ClockID (ls_Scope st)))]),
           (''envelope'', case ls_Envelope st of None \<Rightarrow> JNull | Some p \<Rightarrow> JObj [(''payload'', JStr (base64_encode lib p))]),
           (''committedAt'', JStr cm),
           (''appliedAt'', case ap of Some (Some a) \<Rightarrow> JStr a | _ \<Rightarrow> JNull)]))"

definition encode_state :: "run_lib \<Rightarrow> ledger_state \<Rightarrow> string option" where
  "encode_state lib st = map_option (json_write (json_lib.truncate lib)) (state_json lib st)"

definition decode_state :: "run_lib \<Rightarrow> string \<Rightarrow> ledger_state option" where
  "decode_state lib raw =
     (case json_read (json_lib.truncate lib) raw of None \<Rightarrow> None | Some j \<Rightarrow> dec_struct_strict (state_fields lib) j zero_state)"

section \<open>The ledger\<close>

datatype run_error = InvalidScope | LedgerIO | LedgerDecode | ScopeMismatch | PayloadTooLarge | ContextDecode | InvalidContract | NotUTC
  | InvalidCommit | InvalidApply | OrphanReceipts | NeedsRecovery | OutsideLifetime | NeedsGenerationOne | GenerationRollback
  | GenerationConflict | ApplyBoundary | UnknownRun | HistoryUnavailable | UncommittedReset | NotReadyForArchive

definition verify :: "run_lib \<Rightarrow> run_scope \<Rightarrow> Envelope \<Rightarrow> run_error + RunContext" where
  "verify lib scope payload =
     (if int (length payload) > 65536 then Inl PayloadTooLarge
      else case json_read (json_lib.truncate lib) payload of
        None \<Rightarrow> Inl ContextDecode
      | Some j \<Rightarrow>
        (case dec_struct_strict (RunContext_fields lib) j zero_RunContext of
           None \<Rightarrow> Inl ContextDecode
         | Some c \<Rightarrow>
           if rc_SchemaVersion c \<noteq> run_schema \<or> rc_GatewayID c \<noteq> sc_GatewayID scope \<or> rc_ClockID c \<noteq> sc_ClockID scope
              \<or> rc_RunID c = [] \<or> rc_ProvisioningRevision c = [] \<or> rc_Generation c < 1 \<or> rc_Generation c > 9007199254740991
              \<or> (rc_Status c \<noteq> ''active'' \<and> rc_Status c \<noteq> ''revoked'') \<or> IsZero (rc_IssuedAt c)
              \<or> Before (rc_ValidFrom c) (rc_IssuedAt c) \<or> \<not> Before (rc_ValidFrom c) (rc_ExpiresAt c)
           then Inl InvalidContract
           else if list_ex (\<lambda>t. gt_off t \<noteq> 0) [rc_IssuedAt c, rc_ValidFrom c, rc_ExpiresAt c] then Inl NotUTC
           else Inr c))"

text \<open>How the replacement of the file ends: as intended, with an error before the rename, or with one after it.\<close>

datatype write_end = WriteOK | FailsBefore | FailsAfter

definition persist :: "run_lib \<Rightarrow> write_end \<Rightarrow> ledger_state \<Rightarrow> Ledger \<times> string option \<Rightarrow> run_error option \<times> Ledger \<times> string option" where
  "persist lib w nxt = (\<lambda>(l, disk).
     (case encode_state lib nxt of
        None \<Rightarrow> (Some LedgerIO, l\<lparr>lg_failed := True\<rparr>, disk)
      | Some raw \<Rightarrow>
        (case w of
           WriteOK \<Rightarrow> (None, l\<lparr>lg_data := nxt\<rparr>, Some raw)
         | FailsBefore \<Rightarrow> (Some LedgerIO, l\<lparr>lg_failed := True\<rparr>, disk)
         | FailsAfter \<Rightarrow> (Some LedgerIO, l\<lparr>lg_failed := True\<rparr>, Some raw))))"

text \<open>Creating the file: with an error the file may be there, complete or cut short.\<close>

datatype create_end = CreateOK | CreateExists | CreateFails "string option"

definition Initialize :: "run_lib \<Rightarrow> create_end \<Rightarrow> run_scope \<Rightarrow> string option \<Rightarrow> (run_error + Ledger) \<times> string option" where
  "Initialize lib w scope disk =
     (if sc_GatewayID scope = [] \<or> sc_ClockID scope = [] then (Inl InvalidScope, disk)
      else
        let d = zero_state\<lparr>ls_Version := ledgerVersion, ls_InvalidRuns := Some [], ls_Scope := scope\<rparr>;
            raw = (case encode_state lib d of None \<Rightarrow> [] | Some raw \<Rightarrow> raw)
        in case w of
             CreateExists \<Rightarrow> (Inl LedgerIO, disk)
           | CreateFails f \<Rightarrow> (Inl LedgerIO, f)
           | CreateOK \<Rightarrow> (Inr \<lparr>lg_failed = False, lg_data = d, lg_context = None\<rparr>, Some raw))"

definition Ledger_Open :: "run_lib \<Rightarrow> string option \<Rightarrow> run_scope \<Rightarrow> run_error + Ledger" where
  "Ledger_Open lib disk scope =
     (case disk of
        None \<Rightarrow> Inl LedgerIO
      | Some raw \<Rightarrow>
        (case decode_state lib raw of
           None \<Rightarrow> Inl LedgerDecode
         | Some d \<Rightarrow>
           if ls_InvalidRuns d = None \<or> ls_Version d \<noteq> ledgerVersion \<or> ls_Scope d \<noteq> scope then Inl ScopeMismatch
           else (case ls_Envelope d of
              Some e \<Rightarrow>
                (case verify lib (ls_Scope d) e of
                   Inl err \<Rightarrow> Inl err
                 | Inr c \<Rightarrow>
                   if Before (ls_CommittedAt d) (rc_IssuedAt c) \<or> \<not> Before (ls_CommittedAt d) (rc_ExpiresAt c) then Inl InvalidCommit
                   else if (case ls_AppliedAt d of None \<Rightarrow> False
                       | Some a \<Rightarrow> Before a (ls_CommittedAt d) \<or> \<not> Before a (rc_ExpiresAt c)) then Inl InvalidApply
                   else Inr \<lparr>lg_failed = False, lg_data = d, lg_context = Some c\<rparr>)
            | None \<Rightarrow>
                if \<not> IsZero (ls_CommittedAt d) \<or> ls_AppliedAt d \<noteq> None then Inl OrphanReceipts
                else Inr \<lparr>lg_failed = False, lg_data = d, lg_context = None\<rparr>)))"

text \<open>The runs with one more marked.\<close>

definition mark_invalid :: "string \<Rightarrow> ledger_state \<Rightarrow> ledger_state" where
  "mark_invalid r st = st\<lparr>ls_InvalidRuns := Some (runs_update r True (case ls_InvalidRuns st of None \<Rightarrow> [] | Some m \<Rightarrow> m))\<rparr>"

definition is_invalid :: "ledger_state \<Rightarrow> string \<Rightarrow> bool" where
  "is_invalid st r \<longleftrightarrow> (case ls_InvalidRuns st of None \<Rightarrow> False | Some m \<Rightarrow> map_of m r = Some True)"

type_synonym ledger_op = "Ledger \<times> string option \<Rightarrow> run_error option \<times> Ledger \<times> string option"

definition Ledger_Commit :: "run_lib \<Rightarrow> write_end \<Rightarrow> Envelope \<Rightarrow> gotime \<Rightarrow> ledger_op" where
  "Ledger_Commit lib w e t = (\<lambda>(l, disk).
     (if lg_failed l then (Some NeedsRecovery, l, disk)
      else case verify lib (ls_Scope (lg_data l)) e of
        Inl err \<Rightarrow> (Some err, l, disk)
      | Inr c \<Rightarrow>
        if Before t (rc_IssuedAt c) \<or> \<not> Before t (rc_ExpiresAt c) then (Some OutsideLifetime, l, disk)
        else
          let store = (
            let nxt = (lg_data l)\<lparr>ls_Envelope := Some e, ls_CommittedAt := t, ls_AppliedAt := None\<rparr>;
                nxt = (if rc_Status c = ''revoked'' then mark_invalid (rc_RunID c) nxt else nxt)
            in case persist lib w nxt (l, disk) of
                 (Some err, l', disk') \<Rightarrow> (Some err, l', disk')
               | (None, l', disk') \<Rightarrow> (None, l'\<lparr>lg_context := Some c\<rparr>, disk'))
          in case lg_context l of
               None \<Rightarrow> if rc_Generation c \<noteq> 1 then (Some NeedsGenerationOne, l, disk) else store
             | Some old \<Rightarrow>
                 if rc_Generation c < rc_Generation old then (Some GenerationRollback, l, disk)
                 else if rc_Generation c = rc_Generation old then
                   (if encode_RunContext lib old \<noteq> encode_RunContext lib c then (Some GenerationConflict, l, disk)
                    else (None, l, disk))
                 else store))"

definition Ledger_Apply :: "run_lib \<Rightarrow> write_end \<Rightarrow> gotime \<Rightarrow> ledger_op" where
  "Ledger_Apply lib w t = (\<lambda>(l, disk).
     (if lg_failed l then (Some NeedsRecovery, l, disk)
      else case lg_context l of
        None \<Rightarrow> (Some ApplyBoundary, l, disk)
      | Some c \<Rightarrow>
        if Before t (ls_CommittedAt (lg_data l)) \<or> \<not> Before t (rc_ExpiresAt c) then (Some ApplyBoundary, l, disk)
        else if ls_AppliedAt (lg_data l) \<noteq> None then (None, l, disk)
        else persist lib w ((lg_data l)\<lparr>ls_AppliedAt := Some t\<rparr>) (l, disk)))"

definition run_invalid :: "string \<Rightarrow> RunResult" where
  "run_invalid reason = \<lparr>rr_Status = ''invalid'', rr_Reason = reason, rr_RunID = [], rr_Generation = 0\<rparr>"

definition run_unverified :: "string \<Rightarrow> RunResult" where
  "run_unverified reason = \<lparr>rr_Status = ''unverified'', rr_Reason = reason, rr_RunID = [], rr_Generation = 0\<rparr>"

definition Ledger_Evaluate :: "string \<Rightarrow> gotime \<Rightarrow> gotime \<Rightarrow> Ledger \<Rightarrow> RunResult" where
  "Ledger_Evaluate revision start end l =
     (if lg_failed l then run_unverified ''generation_history_unavailable''
      else case lg_context l of
        None \<Rightarrow> \<lparr>rr_Status = ''absent'', rr_Reason = [], rr_RunID = [], rr_Generation = 0\<rparr>
      | Some c \<Rightarrow>
        if Before end start then run_invalid ''invalid_acquisition_interval''
        else if rc_ProvisioningRevision c \<noteq> revision then run_invalid ''revision_mismatch''
        else if rc_Status c = ''revoked'' then run_invalid ''revoked''
        else if Before start (rc_ValidFrom c) then run_invalid ''not_yet_valid''
        else if \<not> Before end (rc_ExpiresAt c) then run_invalid ''expired''
        else (case ls_AppliedAt (lg_data l) of
           None \<Rightarrow> run_unverified ''context_not_applied''
         | Some a \<Rightarrow>
           if Before start a then run_invalid ''context_not_active_at_start''
           else if is_invalid (lg_data l) (rc_RunID c) then run_invalid ''reset_detected''
           else \<lparr>rr_Status = ''valid'', rr_Reason = [], rr_RunID = rc_RunID c, rr_Generation = rc_Generation c\<rparr>))"

definition InvalidateRun :: "run_lib \<Rightarrow> write_end \<Rightarrow> string \<Rightarrow> ledger_op" where
  "InvalidateRun lib w runID = (\<lambda>(l, disk).
     (if lg_failed l then (Some NeedsRecovery, l, disk)
      else if map_option rc_RunID (lg_context l) \<noteq> Some runID then (Some UnknownRun, l, disk)
      else persist lib w (mark_invalid runID (lg_data l)) (l, disk)))"

definition InvalidateContext :: "run_lib \<Rightarrow> write_end \<Rightarrow> Envelope \<Rightarrow> ledger_op" where
  "InvalidateContext lib w e = (\<lambda>(l, disk).
     (case (lg_failed l, lg_context l) of
        (False, Some cur) \<Rightarrow>
          (case verify lib (ls_Scope (lg_data l)) e of
             Inl err \<Rightarrow> (Some err, l, disk)
           | Inr c \<Rightarrow>
             if rc_Generation c > rc_Generation cur then (Some UncommittedReset, l, disk)
             else persist lib w (mark_invalid (rc_RunID c) (lg_data l)) (l, disk))
      | _ \<Rightarrow> (Some HistoryUnavailable, l, disk)))"

text \<open>The archive is a file of its own.\<close>

definition Archive :: "run_lib \<Rightarrow> create_end \<Rightarrow> gotime \<Rightarrow> Ledger \<Rightarrow> string option \<Rightarrow> run_error option \<times> string option" where
  "Archive lib w t l file =
     (case (lg_failed l, lg_context l, ls_AppliedAt (lg_data l)) of
        (False, Some c, Some _) \<Rightarrow>
          if Before t (ls_CommittedAt (lg_data l)) \<or> \<not> Before t (rc_ExpiresAt c) then (Some NotReadyForArchive, file)
          else (case encode_state lib ((lg_data l)\<lparr>ls_AppliedAt := Some t\<rparr>) of
             None \<Rightarrow> (Some LedgerIO, file)
           | Some raw \<Rightarrow> (case w of CreateExists \<Rightarrow> (Some LedgerIO, file) | CreateFails f \<Rightarrow> (Some LedgerIO, f) | CreateOK \<Rightarrow> (None, Some raw)))
      | _ \<Rightarrow> (Some NotReadyForArchive, file))"

definition Ledger_Current :: "Ledger \<Rightarrow> run_error + RunContext" where
  "Ledger_Current l = (case (lg_failed l, lg_context l) of (False, Some c) \<Rightarrow> Inr c | _ \<Rightarrow> Inl HistoryUnavailable)"

definition Invalidated :: "string \<Rightarrow> Ledger \<Rightarrow> run_error + bool" where
  "Invalidated runID l = (if lg_failed l then Inl NeedsRecovery else Inr (is_invalid (lg_data l) runID))"

definition CurrentEnvelope :: "Ledger \<Rightarrow> run_error + Envelope" where
  "CurrentEnvelope l = (case (lg_failed l, ls_Envelope (lg_data l)) of (False, Some e) \<Rightarrow> Inr e | _ \<Rightarrow> Inl HistoryUnavailable)"

definition ReceiverTimes :: "Ledger \<Rightarrow> run_error + gotime \<times> gotime option" where
  "ReceiverTimes l = (case (lg_failed l, lg_context l) of
     (False, Some _) \<Rightarrow> Inr (ls_CommittedAt (lg_data l), ls_AppliedAt (lg_data l)) | _ \<Rightarrow> Inl HistoryUnavailable)"

end
