(* ===== verification/Clock_Stage.thy ===== *)
theory Clock_Stage
  imports Provisioning Run_Ledger
begin

text \<open>
  Staging of clock provisioning snapshots (\<open>internal/provisioning/clock.go\<close>): a snapshot is checked as a whole, against
  its own hash and against the gateway's scope, before it becomes the configuration of the BACnet
  connector and the Point List of the normalizer. The JSON reader and writer, SHA-256 and the integer
  conversions are parameters.
\<close>

section \<open>The document\<close>

text \<open>\<open>json_first\<close> reads the first value of a text and whether anything follows it; \<open>json_plain\<close> writes without escaping HTML.\<close>

record clock_lib = run_lib +
  json_first :: "string \<Rightarrow> (json \<times> bool) option"
  json_plain :: "json \<Rightarrow> string"
  clock_sha256 :: "string \<Rightarrow> string"
  parse_atoi :: "string \<Rightarrow> int option"

record clockNative =
  cn_Protocol :: string
  cn_GatewayID :: string
  cn_ConnectorID :: string
  cn_DeviceInstance :: "int option"
  cn_ObjectType :: string
  cn_ObjectInstance :: "int option"
  cn_Property :: string
  cn_Unit :: string

record clockSource =
  ck_ClockID :: string
  ck_ClockDomain :: string
  ck_Unit :: string
  ck_ReadOnly :: bool
  ck_AcquisitionMode :: string
  ck_Native :: clockNative

record clockBinding =
  cb_EquipmentID :: string
  cb_ClockID :: string

record clockSnapshot =
  cks_SchemaVersion :: string
  cks_GatewayID :: string
  cks_Revision :: string
  cks_GeneratedAt :: string
  cks_Points :: "point_dto list"
  cks_ClockSources :: "clockSource list"
  cks_ClockBindings :: "clockBinding list"

definition dec_int_pointer :: "clock_lib \<Rightarrow> (int option \<Rightarrow> 'a \<Rightarrow> 'a) \<Rightarrow> 'a field_decoder" where
  "dec_int_pointer lib put j x =
     (case j of JNum n \<Rightarrow> map_option (\<lambda>i. put (Some i) x) (parse_go_int lib n) | JNull \<Rightarrow> Some (put None x) | _ \<Rightarrow> None)"

definition clockNative_fields :: "clock_lib \<Rightarrow> (string \<times> clockNative field_decoder) list" where
  "clockNative_fields lib =
     [(''protocol'', dec_string (\<lambda>s n. n\<lparr>cn_Protocol := s\<rparr>)), (''gatewayId'', dec_string (\<lambda>s n. n\<lparr>cn_GatewayID := s\<rparr>)),
      (''connectorId'', dec_string (\<lambda>s n. n\<lparr>cn_ConnectorID := s\<rparr>)),
      (''deviceInstance'', dec_int_pointer lib (\<lambda>i n. n\<lparr>cn_DeviceInstance := i\<rparr>)),
      (''objectType'', dec_string (\<lambda>s n. n\<lparr>cn_ObjectType := s\<rparr>)),
      (''objectInstance'', dec_int_pointer lib (\<lambda>i n. n\<lparr>cn_ObjectInstance := i\<rparr>)),
      (''property'', dec_string (\<lambda>s n. n\<lparr>cn_Property := s\<rparr>)), (''unit'', dec_string (\<lambda>s n. n\<lparr>cn_Unit := s\<rparr>))]"

definition clockSource_fields :: "clock_lib \<Rightarrow> (string \<times> clockSource field_decoder) list" where
  "clockSource_fields lib =
     [(''clockId'', dec_string (\<lambda>s c. c\<lparr>ck_ClockID := s\<rparr>)), (''clockDomain'', dec_string (\<lambda>s c. c\<lparr>ck_ClockDomain := s\<rparr>)),
      (''unit'', dec_string (\<lambda>s c. c\<lparr>ck_Unit := s\<rparr>)), (''readOnly'', dec_bool (\<lambda>b c. c\<lparr>ck_ReadOnly := b\<rparr>)),
      (''acquisitionMode'', dec_string (\<lambda>s c. c\<lparr>ck_AcquisitionMode := s\<rparr>)),
      (''native'', \<lambda>j c. map_option (\<lambda>n. c\<lparr>ck_Native := n\<rparr>) (dec_struct_strict (clockNative_fields lib) j (ck_Native c)))]"

definition clockBinding_fields :: "(string \<times> clockBinding field_decoder) list" where
  "clockBinding_fields =
     [(''equipmentId'', dec_string (\<lambda>s b. b\<lparr>cb_EquipmentID := s\<rparr>)), (''clockId'', dec_string (\<lambda>s b. b\<lparr>cb_ClockID := s\<rparr>))]"

text \<open>The point document, with unknown members refused at every level.\<close>

definition dec_pointer_strict :: "(string \<times> 'b field_decoder) list \<Rightarrow> 'b \<Rightarrow> ('a \<Rightarrow> 'b option) \<Rightarrow> ('b option \<Rightarrow> 'a \<Rightarrow> 'a) \<Rightarrow> 'a field_decoder" where
  "dec_pointer_strict fs z get put j x =
     (case j of
        JNull \<Rightarrow> Some (put None x)
      | _ \<Rightarrow> map_option (\<lambda>y. put (Some y) x) (dec_struct_strict fs j (case get x of None \<Rightarrow> z | Some y \<Rightarrow> y)))"

definition dto_fields_strict :: "(string \<times> point_dto field_decoder) list" where
  "dto_fields_strict =
     [(''native'', dec_pointer_strict native_fields \<lparr>na_Protocol = [], na_DeviceID = [], na_ObjectType = [], na_InstanceNo = []\<rparr>
         dto_Native (\<lambda>v e. e\<lparr>dto_Native := v\<rparr>)),
      (''controlSchema'', dec_pointer_strict schema_fields \<lparr>sc_DataType = [], sc_MinValue = [], sc_MaxValue = [], sc_EnumLabels = []\<rparr>
         dto_ControlSchema (\<lambda>v e. e\<lparr>dto_ControlSchema := v\<rparr>)),
      (''device'', dec_pointer_strict device_fields \<lparr>dr_DtID = [], dr_ID = [], dr_Name = []\<rparr>
         dto_Device (\<lambda>v e. e\<lparr>dto_Device := v\<rparr>))]
     @ filter (\<lambda>(k, _). k \<notin> {''native'', ''controlSchema'', ''device''}) dto_fields"

definition zero_clockSource :: clockSource where
  "zero_clockSource = \<lparr>ck_ClockID = [], ck_ClockDomain = [], ck_Unit = [], ck_ReadOnly = False, ck_AcquisitionMode = [],
     ck_Native = \<lparr>cn_Protocol = [], cn_GatewayID = [], cn_ConnectorID = [], cn_DeviceInstance = None, cn_ObjectType = [],
       cn_ObjectInstance = None, cn_Property = [], cn_Unit = []\<rparr>\<rparr>"

definition zero_clockSnapshot :: clockSnapshot where
  "zero_clockSnapshot = \<lparr>cks_SchemaVersion = [], cks_GatewayID = [], cks_Revision = [], cks_GeneratedAt = [], cks_Points = [],
     cks_ClockSources = [], cks_ClockBindings = []\<rparr>"

definition clockSnapshot_fields :: "clock_lib \<Rightarrow> (string \<times> clockSnapshot field_decoder) list" where
  "clockSnapshot_fields lib =
     [(''schemaVersion'', dec_string (\<lambda>s c. c\<lparr>cks_SchemaVersion := s\<rparr>)), (''gatewayId'', dec_string (\<lambda>s c. c\<lparr>cks_GatewayID := s\<rparr>)),
      (''revision'', dec_string (\<lambda>s c. c\<lparr>cks_Revision := s\<rparr>)), (''generatedAt'', dec_string (\<lambda>s c. c\<lparr>cks_GeneratedAt := s\<rparr>)),
      (''points'', \<lambda>j c. map_option (\<lambda>ps. c\<lparr>cks_Points := ps\<rparr>) (dec_slice (\<lambda>d. dec_struct_strict dto_fields_strict d zero_dto) j)),
      (''clockSources'', \<lambda>j c. map_option (\<lambda>ps. c\<lparr>cks_ClockSources := ps\<rparr>)
         (dec_slice (\<lambda>d. dec_struct_strict (clockSource_fields lib) d zero_clockSource) j)),
      (''clockBindings'', \<lambda>j c. map_option (\<lambda>ps. c\<lparr>cks_ClockBindings := ps\<rparr>)
         (dec_slice (\<lambda>d. dec_struct_strict clockBinding_fields d \<lparr>cb_EquipmentID = [], cb_ClockID = []\<rparr>) j))]"

section \<open>The hash input\<close>

text \<open>
  The second reading of the document refuses null, numbers that are not 64-bit integers and repeated keys. An object is
  written with its keys in order.
\<close>

fun clockJSONValue :: "clock_lib \<Rightarrow> json \<Rightarrow> json option" where
  "clockJSONValue lib JNull = None"
| "clockJSONValue lib (JNum n) = (if parse_go_int lib n = None then None else Some (JNum n))"
| "clockJSONValue lib (JArr js) =
     (let rs = map (clockJSONValue lib) js in if None \<in> set rs then None else Some (JArr (map the rs)))"
| "clockJSONValue lib (JObj ms) =
     (let rs = map (\<lambda>(k, v). (k, clockJSONValue lib v)) ms
      in if \<not> distinct (map fst ms) \<or> None \<in> snd ` set rs then None
         else Some (JObj (sort_key fst (map (\<lambda>(k, v). (k, the v)) rs))))"
| "clockJSONValue lib j = Some j"

definition is_array :: "json option \<Rightarrow> bool" where
  "is_array j = (case j of Some (JArr _) \<Rightarrow> True | _ \<Rightarrow> False)"

section \<open>The native configuration\<close>

record NativeClock =
  nc_ClockID :: string
  nc_LocalID :: string
  nc_Property :: string
  nc_PointLocalIDs :: "string list"

record NativeClockPoint =
  np_LocalID :: string
  np_DeviceRef :: string
  np_Unit :: string
  np_Writable :: bool

record NativeClockConfig =
  ncc_Revision :: string
  ncc_ConnectorID :: string
  ncc_DeviceID :: int
  ncc_Points :: "NativeClockPoint list"
  ncc_Clocks :: "NativeClock list"

datatype stage_error = StageDecode | UnsupportedScope | BadHashInput | TrailingData | NotAnObject | ArraysRequired | RevisionMismatch
  | NoncanonicalOrder | UnsupportedClock | DuplicateClock | DuplicateClockAddress | DanglingBinding | ConflictingBinding
  | InvalidReleasePoint | InvalidPoint | InvalidInstance | AmbiguousAddress | MissingIdentity | MissingMembership
  | InvalidReleaseTarget | EquipmentWithoutPoints | UnboundClock

record ClockScope =
  cs_GatewayID :: string
  cs_ConnectorID :: string
  cs_DeviceID :: int

definition clock_supported :: "ClockScope \<Rightarrow> clockSource \<Rightarrow> bool" where
  "clock_supported scope c =
     (let n = ck_Native c in
      ck_ClockID c \<noteq> [] \<and> ck_ClockDomain c = ''simulation'' \<and> ck_Unit c = ''s'' \<and> ck_ReadOnly c \<and> ck_AcquisitionMode c = ''poll''
      \<and> cn_Protocol n = ''bacnet'' \<and> cn_GatewayID n = cs_GatewayID scope \<and> cn_ConnectorID n = cs_ConnectorID scope
      \<and> cn_DeviceInstance n = Some (cs_DeviceID scope)
      \<and> (case cn_ObjectInstance n of None \<Rightarrow> False | Some i \<Rightarrow> 0 \<le> i \<and> i \<le> 4194303)
      \<and> (cn_ObjectType n = ''analogValue'' \<or> cn_ObjectType n = ''analogInput'') \<and> cn_Property n = ''presentValue'' \<and> cn_Unit n = ''seconds'')"

definition clock_local :: "clock_lib \<Rightarrow> clockSource \<Rightarrow> string" where
  "clock_local lib c = cn_ObjectType (ck_Native c) @ '','' @ format_integer lib (the (cn_ObjectInstance (ck_Native c)))"

text \<open>The clocks, each added at the end; the maps from clock ids and from addresses are the clocks so far.\<close>

fun stage_clocks :: "clock_lib \<Rightarrow> ClockScope \<Rightarrow> clockSource list \<Rightarrow> NativeClock list \<Rightarrow> stage_error + NativeClock list" where
  "stage_clocks lib scope [] acc = Inr acc"
| "stage_clocks lib scope (c # cs) acc =
     (if \<not> clock_supported scope c then Inl UnsupportedClock
      else if ck_ClockID c \<in> set (map nc_ClockID acc) then Inl DuplicateClock
      else if clock_local lib c \<in> set (map nc_LocalID acc) then Inl DuplicateClockAddress
      else stage_clocks lib scope cs (acc @ [\<lparr>nc_ClockID = ck_ClockID c, nc_LocalID = clock_local lib c,
             nc_Property = cn_Property (ck_Native c), nc_PointLocalIDs = []\<rparr>]))"

fun stage_bindings :: "string list \<Rightarrow> clockBinding list \<Rightarrow> string gomap \<Rightarrow> stage_error + string gomap" where
  "stage_bindings clocks [] m = Inr m"
| "stage_bindings clocks (b # bs) m =
     (if cb_ClockID b \<notin> set clocks \<or> cb_EquipmentID b = [] then Inl DanglingBinding
      else if map_of m (cb_EquipmentID b) \<noteq> None then Inl ConflictingBinding
      else stage_bindings clocks bs (AList.update (cb_EquipmentID b) (cb_ClockID b) m))"

text \<open>What the loop over the points has gathered.\<close>

record stage_state =
  st_ids :: "string list"
  st_points :: "NativeClockPoint list"
  st_clocks :: "NativeClock list"
  st_entries :: "Entry list"
  st_equipment :: "string list"
  st_writable :: "string list"
  st_releases :: "point_dto list"

definition clock_mapper :: "ClockScope \<Rightarrow> HTTPClient" where
  "clock_mapper scope = \<lparr>hc_gatewayID = [], hc_connectorMap = [(''bacnet'', cs_ConnectorID scope)], hc_fallbackConnectorID = [], hc_warnedUnmapped = []\<rparr>"

definition clock_entry :: "clock_lib \<Rightarrow> ClockScope \<Rightarrow> point_dto \<Rightarrow> Entry" where
  "clock_entry lib scope p = fst (mapDTO (json_lib.truncate lib) p (clock_mapper scope))"

definition add_to_clock :: "string \<Rightarrow> string \<Rightarrow> NativeClock list \<Rightarrow> NativeClock list" where
  "add_to_clock clock lid cs =
     map (\<lambda>c. if nc_ClockID c = clock then c\<lparr>nc_PointLocalIDs := nc_PointLocalIDs c @ [lid]\<rparr> else c) cs"

definition stage_release :: "clock_lib \<Rightarrow> ClockScope \<Rightarrow> point_dto \<Rightarrow> stage_state \<Rightarrow> stage_error + stage_state" where
  "stage_release lib scope p st =
     (if dto_PointID p = [] \<or> dto_PointID p \<in> set (st_ids st) \<or> dto_Native p \<noteq> None \<or> dto_LocalID p \<noteq> [] \<or> dto_Protocol p \<noteq> ''bacnet''
         \<or> dto_Writable p \<noteq> Some True
      then Inl InvalidReleasePoint
      else Inr (st\<lparr>st_ids := dto_PointID p # st_ids st, st_releases := st_releases st @ [p], st_entries := st_entries st @ [clock_entry lib scope p]\<rparr>))"

definition stage_device :: "nat \<Rightarrow> string gomap \<Rightarrow> point_dto \<Rightarrow> string \<Rightarrow> stage_state \<Rightarrow> stage_error + stage_state" where
  "stage_device sources bindings p lid st =
     (case dto_Device p of
        None \<Rightarrow> if sources > 0 then Inl MissingMembership else Inr st
      | Some d \<Rightarrow>
        if sources > 0 \<and> (dr_DtID d = [] \<or> dr_ID d = []) then Inl MissingIdentity
        else
          let st1 = st\<lparr>st_equipment := dr_DtID d # st_equipment st\<rparr> in
          Inr (case map_of bindings (dr_DtID d) of
             None \<Rightarrow> st1
           | Some c \<Rightarrow> st1\<lparr>st_clocks := add_to_clock c lid (st_clocks st1)\<rparr>))"

definition stage_point :: "clock_lib \<Rightarrow> ClockScope \<Rightarrow> nat \<Rightarrow> string gomap \<Rightarrow> point_dto \<Rightarrow> stage_state \<Rightarrow> stage_error + stage_state" where
  "stage_point lib scope sources bindings p st =
     (if dto_ReleaseOf p \<noteq> [] then stage_release lib scope p st
      else case dto_Native p of
        None \<Rightarrow> Inl InvalidPoint
      | Some n \<Rightarrow>
        if dto_PointID p = [] \<or> dto_PointID p \<in> set (st_ids st) \<or> na_Protocol n \<noteq> ''bacnet'' \<or> dto_Protocol p \<noteq> ''bacnet''
           \<or> na_DeviceID n \<noteq> format_integer lib (cs_DeviceID scope) \<or> na_ObjectType n = []
        then Inl InvalidPoint
        else (case parse_atoi lib (na_InstanceNo n) of
           None \<Rightarrow> Inl InvalidInstance
         | Some i \<Rightarrow>
           if i < 0 \<or> i > 4194303 \<or> format_integer lib i \<noteq> na_InstanceNo n then Inl InvalidInstance
           else
             let e = clock_entry lib scope p in
             if LocalID e \<in> set (map np_LocalID (st_points st)) \<or> LocalID e \<in> set (map nc_LocalID (st_clocks st))
                \<or> (dto_LocalID p \<noteq> [] \<and> dto_LocalID p \<noteq> LocalID e)
             then Inl AmbiguousAddress
             else stage_device sources bindings p (LocalID e)
               (st\<lparr>st_ids := dto_PointID p # st_ids st, st_writable := (if Writable e then [dto_PointID p] else []) @ st_writable st,
                   st_points := st_points st @ [\<lparr>np_LocalID = LocalID e, np_DeviceRef = DeviceRef e, np_Unit = EntryUnit e, np_Writable = Writable e\<rparr>],
                   st_entries := st_entries st @ [e]\<rparr>)))"

fun stage_points :: "clock_lib \<Rightarrow> ClockScope \<Rightarrow> nat \<Rightarrow> string gomap \<Rightarrow> point_dto list \<Rightarrow> stage_state \<Rightarrow> stage_error + stage_state" where
  "stage_points lib scope sources bindings [] st = Inr st"
| "stage_points lib scope sources bindings (p # ps) st =
     (case stage_point lib scope sources bindings p st of Inl e \<Rightarrow> Inl e | Inr st1 \<Rightarrow> stage_points lib scope sources bindings ps st1)"

text \<open>Every release has a writable target of its own.\<close>

definition releases_ok :: "stage_state \<Rightarrow> bool" where
  "releases_ok st = (distinct (map dto_ReleaseOf (st_releases st)) \<and> list_all (\<lambda>r. dto_ReleaseOf r \<in> set (st_writable st)) (st_releases st))"

definition snapshot_hash_ok :: "clock_lib \<Rightarrow> json \<Rightarrow> string \<Rightarrow> stage_error option" where
  "snapshot_hash_ok lib j revision =
     (case clockJSONValue lib j of
        None \<Rightarrow> Some BadHashInput
      | Some (JObj body) \<Rightarrow>
        if \<not> list_all (\<lambda>k. is_array (map_of body k)) [''points'', ''clockSources'', ''clockBindings''] then Some ArraysRequired
        else
          let rest = AList.delete ''generatedAt'' (AList.delete ''revision'' body) in
          if revision \<noteq> ''\"sha256:'' @ clock_sha256 lib (json_plain lib (JObj rest)) @ ''\"'' then Some RevisionMismatch else None
      | Some _ \<Rightarrow> Some NotAnObject)"

definition stage_document :: "clock_lib \<Rightarrow> ClockScope \<Rightarrow> clockSnapshot \<Rightarrow> stage_error + NativeClockConfig \<times> Entry list" where
  "stage_document lib scope s =
     (if \<not> sorted (map dto_PointID (cks_Points s)) \<or> \<not> sorted (map ck_ClockID (cks_ClockSources s))
         \<or> \<not> sorted (map cb_EquipmentID (cks_ClockBindings s)) then Inl NoncanonicalOrder
      else case stage_clocks lib scope (cks_ClockSources s) [] of
        Inl e \<Rightarrow> Inl e
      | Inr clocks \<Rightarrow>
        (case stage_bindings (map nc_ClockID clocks) (cks_ClockBindings s) [] of
           Inl e \<Rightarrow> Inl e
         | Inr bindings \<Rightarrow>
           (case stage_points lib scope (length (cks_ClockSources s)) bindings (cks_Points s)
               \<lparr>st_ids = [], st_points = [], st_clocks = clocks, st_entries = [], st_equipment = [], st_writable = [], st_releases = []\<rparr> of
              Inl e \<Rightarrow> Inl e
            | Inr st \<Rightarrow>
              if \<not> releases_ok st then Inl InvalidReleaseTarget
              else if \<not> list_all (\<lambda>(e, _). e \<in> set (st_equipment st)) bindings then Inl EquipmentWithoutPoints
              else if list_ex (\<lambda>c. nc_PointLocalIDs c = []) (st_clocks st) then Inl UnboundClock
              else Inr (\<lparr>ncc_Revision = cks_Revision s, ncc_ConnectorID = cs_ConnectorID scope, ncc_DeviceID = cs_DeviceID scope,
                         ncc_Points = st_points st, ncc_Clocks = st_clocks st\<rparr>, st_entries st))))"

definition StageClockSnapshot :: "clock_lib \<Rightarrow> string \<Rightarrow> ClockScope \<Rightarrow> stage_error + NativeClockConfig \<times> Entry list" where
  "StageClockSnapshot lib raw scope =
     (case json_first lib raw of
        None \<Rightarrow> Inl StageDecode
      | Some (j, trailing) \<Rightarrow>
        (case dec_struct_strict (clockSnapshot_fields lib) j zero_clockSnapshot of
           None \<Rightarrow> Inl StageDecode
         | Some s \<Rightarrow>
           if cks_SchemaVersion s \<noteq> ''clock-provisioning/1-draft'' \<or> cs_GatewayID scope = [] \<or> cks_GatewayID s \<noteq> cs_GatewayID scope
              \<or> cs_ConnectorID scope = [] \<or> cs_DeviceID scope < 0 \<or> cs_DeviceID scope > 4194302
           then Inl UnsupportedScope
           else if clockJSONValue lib j = None then Inl BadHashInput
           else if trailing then Inl TrailingData
           else (case snapshot_hash_ok lib j (cks_Revision s) of
              Some e \<Rightarrow> Inl e
            | None \<Rightarrow> stage_document lib scope s)))"

end
