(* ===== verification/Clock_Client.thy ===== *)
theory Clock_Client
  imports Clock_Stage
begin

text \<open>
  Fetching clock provisioning snapshots (\<open>internal/provisioning/clock_http.go\<close>). What happens to an attempt - the transport's failure, or the
  response, how its body reads and whether the deadline passes - is an argument, as are the parsed
  base URL and the certificate files.
\<close>

section \<open>Snapshots\<close>

record ClockSnapshot =
  cls_raw :: string
  cls_native :: NativeClockConfig
  cls_entries :: "Entry list"

definition StageClock :: "clock_lib \<Rightarrow> string \<Rightarrow> ClockScope \<Rightarrow> stage_error + ClockSnapshot" where
  "StageClock lib raw scope =
     (case StageClockSnapshot lib raw scope of
        Inl e \<Rightarrow> Inl e
      | Inr (native, es) \<Rightarrow> Inr \<lparr>cls_raw = raw, cls_native = native, cls_entries = es\<rparr>)"

definition Snapshot_Revision :: "ClockSnapshot \<Rightarrow> string" where
  "Snapshot_Revision s = ncc_Revision (cls_native s)"

section \<open>The client\<close>

record parsed_url =
  url_Scheme :: string
  url_Host :: string
  url_User :: bool
  url_RawQuery :: string
  url_Fragment :: string

record ClockHTTPOptions =
  cho_CertFile :: string
  cho_KeyFile :: string
  cho_Timeout :: int
  cho_Attempts :: int
  cho_RetryDelay :: int

record ClockHTTPClient =
  chc_endpoint :: string
  chc_scope :: ClockScope
  chc_opts :: ClockHTTPOptions

datatype clock_error = BadBaseURL | BadClockScope | NeedsMTLS | BadBounds | TLSSetup | RequestBuild | DeadlineExceeded | RefusedTLSOrRedirect
  | TransportFailure | Unexpected304 | HTTPStatus int | BodyReadFailed | TooLarge | StageFailed stage_error | ETagMismatch

definition TrimRight :: "string \<Rightarrow> char \<Rightarrow> string" where
  "TrimRight s c = rev (dropWhile (\<lambda>x. x = c) (rev s))"

definition clock_defaults :: "ClockHTTPOptions \<Rightarrow> ClockHTTPOptions" where
  "clock_defaults o1 =
     (let o2 = (if cho_Timeout o1 = 0 then o1\<lparr>cho_Timeout := 10000000000\<rparr> else o1);
          o3 = (if cho_Attempts o2 = 0 then o2\<lparr>cho_Attempts := 3\<rparr> else o2)
      in if cho_RetryDelay o3 = 0 then o3\<lparr>cho_RetryDelay := 250000000\<rparr> else o3)"

text \<open>\<open>tls_ok\<close>: the certificate files load; \<open>escape\<close> is \<open>url.PathEscape\<close>.\<close>

definition NewClockHTTPClient :: "(string \<Rightarrow> parsed_url option) \<Rightarrow> (string \<Rightarrow> string) \<Rightarrow> bool \<Rightarrow> string \<Rightarrow> ClockScope \<Rightarrow> ClockHTTPOptions
    \<Rightarrow> clock_error + ClockHTTPClient" where
  "NewClockHTTPClient parse escape tls_ok baseURL scope opts0 =
     (if (case parse baseURL of None \<Rightarrow> True
          | Some u \<Rightarrow> url_Scheme u \<noteq> ''https'' \<or> url_Host u = [] \<or> url_User u \<or> url_RawQuery u \<noteq> [] \<or> url_Fragment u \<noteq> [])
      then Inl BadBaseURL
      else if TrimSpace (cs_GatewayID scope) \<noteq> cs_GatewayID scope \<or> cs_GatewayID scope = []
         \<or> list_ex (\<lambda>c. c \<in> set [CHR ''/'', CHR 0x5C, CHR 0x0D, CHR 0x0A, CHR 0x09]) (cs_GatewayID scope)
         \<or> cs_ConnectorID scope = [] \<or> cs_DeviceID scope < 0 \<or> cs_DeviceID scope > 4194302
      then Inl BadClockScope
      else if cho_CertFile opts0 = [] \<or> cho_KeyFile opts0 = [] then Inl NeedsMTLS
      else
        let opts = clock_defaults opts0 in
        if cho_Timeout opts \<le> 0 \<or> cho_Attempts opts < 1 \<or> cho_Attempts opts > 5 \<or> cho_RetryDelay opts < 0 \<or> cho_RetryDelay opts > 5000000000
        then Inl BadBounds
        else if \<not> tls_ok then Inl TLSSetup
        else Inr \<lparr>chc_endpoint = TrimRight baseURL CHR ''/'' @ ''/gateways/'' @ escape (cs_GatewayID scope) @ ''/provisioning/v1'',
                  chc_scope = scope, chc_opts = opts\<rparr>)"

text \<open>What an attempt meets. The last field says whether the deadline had passed when the body was staged.\<close>

datatype clock_attempt = CannotBuild | TimedOut | TLSOrRedirect | NoTransport | Response int string "string option" bool

definition clock_fetch :: "clock_lib \<Rightarrow> ClockHTTPClient \<Rightarrow> string \<Rightarrow> clock_attempt \<Rightarrow> (clock_error + ClockSnapshot option) \<times> bool" where
  "clock_fetch lib c known a =
     (case a of
        CannotBuild \<Rightarrow> (Inl RequestBuild, False)
      | TimedOut \<Rightarrow> (Inl DeadlineExceeded, True)
      | TLSOrRedirect \<Rightarrow> (Inl RefusedTLSOrRedirect, False)
      | NoTransport \<Rightarrow> (Inl TransportFailure, True)
      | Response status etag body late \<Rightarrow>
        if status = 304 then (if known = [] \<or> etag \<noteq> known then (Inl Unexpected304, False) else (Inr None, False))
        else if status \<noteq> 200 then (Inl (HTTPStatus status), status = 429 \<or> (500 \<le> status \<and> status \<le> 599))
        else (case body of
           None \<Rightarrow> (Inl BodyReadFailed, True)
         | Some raw \<Rightarrow>
           if int (length raw) > 16777216 then (Inl TooLarge, False)
           else (case StageClock lib raw (chc_scope c) of
              Inl e \<Rightarrow> (Inl (StageFailed e), False)
            | Inr s \<Rightarrow>
              if late then (Inl DeadlineExceeded, True)
              else if etag \<noteq> Snapshot_Revision s then (Inl ETagMismatch, False)
              else (Inr (Some s), False))))"

definition retry_delay :: "ClockHTTPClient \<Rightarrow> nat \<Rightarrow> int" where
  "retry_delay c attempt = min (cho_RetryDelay (chc_opts c) * 2 ^ attempt) 2000000000"

text \<open>
  The attempts: each meets something, after which the caller's context may be done, and is during the wait or not. Returned are the
  result, the number of requests and the waits.
\<close>

function clock_Fetch :: "clock_lib \<Rightarrow> ClockHTTPClient \<Rightarrow> string \<Rightarrow> (nat \<Rightarrow> clock_attempt \<times> bool \<times> bool) \<Rightarrow> nat
    \<Rightarrow> (clock_error + ClockSnapshot option) \<times> nat \<times> int list" where
  "clock_Fetch lib c known env attempt =
     (case env attempt of (a, done_after, done_waiting) \<Rightarrow>
      (case clock_fetch lib c known a of (r, retry) \<Rightarrow>
        if \<not> isl r \<or> \<not> retry \<or> int attempt + 1 \<ge> cho_Attempts (chc_opts c) \<or> done_after then (r, attempt + 1, [])
        else if done_waiting then (Inl DeadlineExceeded, attempt + 1, [retry_delay c attempt])
        else (case clock_Fetch lib c known env (attempt + 1) of (r', n, ds) \<Rightarrow> (r', n, retry_delay c attempt # ds))))"
  by pat_completeness auto
termination
  by (relation "measure (\<lambda>(lib, c, known, env, attempt). nat (cho_Attempts (chc_opts c)) - attempt)") auto

declare clock_Fetch.simps [simp del]

section \<open>Facts\<close>

lemma StageClock_raw: "StageClock lib raw scope = Inr s \<Longrightarrow> cls_raw s = raw \<and> StageClockSnapshot lib raw scope = Inr (cls_native s, cls_entries s)"
  by (auto simp: StageClock_def split: sum.splits)

lemma clock_fetch_snapshot:
  "clock_fetch lib c known a = (Inr (Some s), retry) \<Longrightarrow> StageClock lib (cls_raw s) (chc_scope c) = Inr s \<and> length (cls_raw s) \<le> 16777216"
  by (auto simp: clock_fetch_def dest: StageClock_raw split: clock_attempt.splits if_splits option.splits sum.splits)

lemma clock_fetch_unchanged: "clock_fetch lib c known a = (Inr None, retry) \<Longrightarrow> known \<noteq> []"
  by (auto simp: clock_fetch_def split: clock_attempt.splits if_splits option.splits sum.splits)

text \<open>A fetch makes at most the configured number of requests, waits at most two seconds between two of them, and returns only snapshots that staging accepted.\<close>

lemma clock_Fetch_bounds:
  assumes "clock_Fetch lib c known env attempt = (r, n, ds)" "int attempt < cho_Attempts (chc_opts c)" "0 \<le> cho_RetryDelay (chc_opts c)"
  shows "attempt < n \<and> int n \<le> cho_Attempts (chc_opts c) \<and> list_all (\<lambda>d. 0 \<le> d \<and> d \<le> 2000000000) ds
    \<and> (\<forall>s. r = Inr (Some s) \<longrightarrow> StageClock lib (cls_raw s) (chc_scope c) = Inr s) \<and> (r = Inr None \<longrightarrow> known \<noteq> [])"
  using assms
proof (induction lib c known env attempt arbitrary: r n ds rule: clock_Fetch.induct)
  case (1 lib c known env attempt)
  obtain a da dw where e: "env attempt = (a, da, dw)" by (metis prod_cases3)
  obtain r0 retry where f: "clock_fetch lib c known a = (r0, retry)" by fastforce
  have d: "0 \<le> retry_delay c attempt \<and> retry_delay c attempt \<le> 2000000000" using "1.prems"(3) by (simp add: retry_delay_def)
  have sound: "(\<forall>s. r0 = Inr (Some s) \<longrightarrow> StageClock lib (cls_raw s) (chc_scope c) = Inr s) \<and> (r0 = Inr None \<longrightarrow> known \<noteq> [])"
    using f clock_fetch_snapshot clock_fetch_unchanged by blast
  show ?case
  proof (cases "\<not> isl r0 \<or> \<not> retry \<or> int attempt + 1 \<ge> cho_Attempts (chc_opts c) \<or> da")
    case True
    with "1.prems" e f sound show ?thesis by (subst (asm) clock_Fetch.simps) auto
  next
    case False
    show ?thesis
    proof (cases dw)
      case True
      with False "1.prems" e f d show ?thesis by (subst (asm) clock_Fetch.simps) auto
    next
      case nw: False
      obtain r' n' ds' where rec: "clock_Fetch lib c known env (attempt + 1) = (r', n', ds')" by (metis prod_cases3)
      from "1.IH" [OF e [symmetric] refl f [symmetric] False nw rec] False "1.prems"(3)
      have "attempt + 1 < n' \<and> int n' \<le> cho_Attempts (chc_opts c) \<and> list_all (\<lambda>d. 0 \<le> d \<and> d \<le> 2000000000) ds'
        \<and> (\<forall>s. r' = Inr (Some s) \<longrightarrow> StageClock lib (cls_raw s) (chc_scope c) = Inr s) \<and> (r' = Inr None \<longrightarrow> known \<noteq> [])" by simp
      with "1.prems"(1) e f False nw rec d show ?thesis by (subst (asm) clock_Fetch.simps) auto
    qed
  qed
qed

lemma NewClockHTTPClient_bounds:
  "NewClockHTTPClient parse escape tls u scope opts = Inr c \<Longrightarrow> 1 \<le> cho_Attempts (chc_opts c) \<and> cho_Attempts (chc_opts c) \<le> 5 \<and> 0 \<le> cho_RetryDelay (chc_opts c)"
  by (auto simp: NewClockHTTPClient_def Let_def split: if_splits)

end
