(* ===== verification/Clock_Controller.thy ===== *)
theory Clock_Controller
  imports Clock_Client
begin

text \<open>
  The clock provisioning transaction (\<open>internal/clocksync/controller.go\<close>, \<open>internal/clocksync/runtime.go\<close>): the controller that fetches,
  stages, applies and rolls back snapshots over a runtime, and the runtime that replaces the mapping behind
  the barriers of hold, stop and drain. The runtime's surroundings - admission gate and managed
  connector - are operations on a state of their own; whether the caller's context is done is one more of them.
\<close>

section \<open>The runtime interface\<close>

datatype rt_error = GuardFailed string | GateFailed | ConnectorFailed | PrepareFailed | RevisionDiffers | ContextDone

type_synonym 'r rt_op = "'r \<Rightarrow> rt_error option \<times> 'r"

record 'r Runtime =
  rt_Hold :: "'r rt_op"
  rt_Stop :: "'r rt_op"
  rt_Drain :: "'r rt_op"
  rt_Configure :: "ClockSnapshot \<Rightarrow> 'r rt_op"
  rt_Start :: "'r rt_op"
  rt_Verify :: "string \<Rightarrow> 'r rt_op"
  rt_Resume :: "'r rt_op"
  rt_Done :: "'r \<Rightarrow> bool \<times> 'r"

section \<open>The controller\<close>

datatype ct_error = InProgress | StepFailed string rt_error | FetchFailed clock_error | StagingFailed stage_error | NothingStaged
  | RollbackAlso ct_error rt_error | RecoveryStarted | BadInterval | RunCancelled | LeaseCancelled | LeaseFailed rt_error

record Status =
  sy_Phase :: string
  sy_DesiredRevision :: string
  sy_AppliedRevision :: string
  sy_LastGoodRevision :: string
  sy_LastError :: "ct_error option"

record 'r Controller =
  ct_scope :: ClockScope
  ct_status :: Status
  ct_desired :: "ClockSnapshot option"
  ct_good :: "ClockSnapshot option"
  ct_initialized :: bool
  ct_rt :: 'r

definition NewController :: "ClockScope \<Rightarrow> int \<Rightarrow> 'r \<Rightarrow> 'r Controller option" where
  "NewController scope timeout r = (if timeout \<le> 0 then None else Some \<lparr>ct_scope = scope,
     ct_status = \<lparr>sy_Phase = ''uninitialized'', sy_DesiredRevision = [], sy_AppliedRevision = [], sy_LastGoodRevision = [], sy_LastError = None\<rparr>,
     ct_desired = None, ct_good = None, ct_initialized = False, ct_rt = r\<rparr>)"

definition ct_update :: "(Status \<Rightarrow> Status) \<Rightarrow> 'r Controller \<Rightarrow> 'r Controller" where
  "ct_update f c = c\<lparr>ct_status := f (ct_status c)\<rparr>"

definition ct_phase :: "string \<Rightarrow> 'r Controller \<Rightarrow> 'r Controller" where
  "ct_phase p = ct_update (\<lambda>s. s\<lparr>sy_Phase := p\<rparr>)"

definition ct_fail :: "ct_error \<Rightarrow> 'r Controller \<Rightarrow> 'r Controller" where
  "ct_fail e = ct_update (\<lambda>s. s\<lparr>sy_LastError := Some e\<rparr>)"

definition AppliedRevision :: "'r Controller \<Rightarrow> string" where
  "AppliedRevision c = sy_AppliedRevision (ct_status c)"

definition ct_step :: "'r Runtime \<Rightarrow> string \<Rightarrow> 'r rt_op \<Rightarrow> 'r Controller \<Rightarrow> ct_error option \<times> 'r Controller" where
  "ct_step rt p f c =
     (case rt_Done rt (ct_rt c) of
        (True, r) \<Rightarrow> (Some (StepFailed p ContextDone), ct_phase p (c\<lparr>ct_rt := r\<rparr>))
      | (False, r) \<Rightarrow>
        (case f r of
           (Some e, r') \<Rightarrow> (Some (StepFailed p e), ct_phase p (c\<lparr>ct_rt := r'\<rparr>))
         | (None, r') \<Rightarrow> (None, ct_phase p (c\<lparr>ct_rt := r'\<rparr>))))"

fun ct_steps :: "'r Runtime \<Rightarrow> (string \<times> 'r rt_op) list \<Rightarrow> 'r Controller \<Rightarrow> ct_error option \<times> 'r Controller" where
  "ct_steps rt [] c = (None, c)"
| "ct_steps rt ((p, f) # fs) c = (case ct_step rt p f c of (Some e, c') \<Rightarrow> (Some e, c') | (None, c') \<Rightarrow> ct_steps rt fs c')"

definition ct_apply :: "'r Runtime \<Rightarrow> ClockSnapshot \<Rightarrow> 'r Controller \<Rightarrow> ct_error option \<times> 'r Controller" where
  "ct_apply rt s c =
     ct_steps rt
       [(''holding'', rt_Hold rt), (''stopping'', rt_Stop rt), (''draining'', rt_Drain rt), (''configuring'', rt_Configure rt s),
        (''starting'', rt_Start rt), (''verifying'', rt_Verify rt (Snapshot_Revision s)), (''resuming'', rt_Resume rt)]
       (ct_update (\<lambda>st. st\<lparr>sy_AppliedRevision := []\<rparr>) c)"

text \<open>Calls one after the other, up to the first that fails.\<close>

fun rt_calls :: "'r rt_op list \<Rightarrow> 'r rt_op" where
  "rt_calls [] r = (None, r)"
| "rt_calls (f # fs) r = (case f r of (Some e, r') \<Rightarrow> (Some e, r') | (None, r') \<Rightarrow> rt_calls fs r')"

definition rollback_fail :: "'r Runtime \<Rightarrow> rt_error \<Rightarrow> 'r Controller \<Rightarrow> rt_error option \<times> 'r Controller" where
  "rollback_fail rt e c =
     (Some e, ct_update (\<lambda>s. s\<lparr>sy_Phase := ''halted'', sy_AppliedRevision := []\<rparr>)
        (c\<lparr>ct_rt := snd (rt_Stop rt (snd (rt_Hold rt (ct_rt c))))\<rparr>))"

definition ct_rollback :: "'r Runtime \<Rightarrow> 'r Controller \<Rightarrow> rt_error option \<times> 'r Controller" where
  "ct_rollback rt c0 =
     (let c = ct_phase ''rolling_back'' c0 in
      case rt_calls [rt_Hold rt, rt_Stop rt, rt_Drain rt] (ct_rt c) of
        (Some e, r) \<Rightarrow> rollback_fail rt e (c\<lparr>ct_rt := r\<rparr>)
      | (None, r) \<Rightarrow>
        (case ct_good c of
           None \<Rightarrow> (None, ct_phase ''halted'' (c\<lparr>ct_rt := r\<rparr>))
         | Some g \<Rightarrow>
           (case rt_calls [rt_Configure rt g, rt_Start rt, rt_Verify rt (Snapshot_Revision g), rt_Resume rt] r of
              (Some e, r') \<Rightarrow> rollback_fail rt e (c\<lparr>ct_rt := r'\<rparr>)
            | (None, r') \<Rightarrow>
              (None, ct_update (\<lambda>s. s\<lparr>sy_Phase := ''retry_pending'', sy_AppliedRevision := Snapshot_Revision g\<rparr>) (c\<lparr>ct_rt := r'\<rparr>)))))"

text \<open>Applying what is desired, unless it is applied already.\<close>

definition sync_apply :: "'r Runtime \<Rightarrow> ClockSnapshot \<Rightarrow> 'r Controller \<Rightarrow> ct_error option \<times> 'r Controller" where
  "sync_apply rt d c =
     (if AppliedRevision c = Snapshot_Revision d then (None, ct_update (\<lambda>s. s\<lparr>sy_LastError := None\<rparr>) c)
      else case ct_apply rt d (ct_phase ''staged'' c) of
        (None, c1) \<Rightarrow>
          (None, ct_update (\<lambda>s. s\<lparr>sy_Phase := ''active'', sy_AppliedRevision := Snapshot_Revision d,
             sy_LastGoodRevision := Snapshot_Revision d, sy_LastError := None\<rparr>) (c1\<lparr>ct_good := Some d\<rparr>))
      | (Some e, c1) \<Rightarrow>
          (case ct_rollback rt c1 of
             (None, c2) \<Rightarrow> (Some e, ct_fail e c2)
           | (Some e', c2) \<Rightarrow> (Some (RollbackAlso e e'), ct_fail (RollbackAlso e e') c2)))"

text \<open>The snapshot that was fetched is staged again and becomes the desired one.\<close>

definition sync_fetched :: "clock_lib \<Rightarrow> 'r Runtime \<Rightarrow> (clock_error + ClockSnapshot option) \<Rightarrow> 'r Controller \<Rightarrow> ct_error option \<times> 'r Controller" where
  "sync_fetched lib rt got c =
     (case got of
        Inl e \<Rightarrow> (Some (FetchFailed e), ct_fail (FetchFailed e) c)
      | Inr None \<Rightarrow>
        (case ct_desired c of
           None \<Rightarrow> (Some NothingStaged, ct_fail NothingStaged c)
         | Some d \<Rightarrow> sync_apply rt d c)
      | Inr (Some s) \<Rightarrow>
        (case StageClock lib (cls_raw s) (ct_scope c) of
           Inl e \<Rightarrow> (Some (StagingFailed e), ct_fail (StagingFailed e) c)
         | Inr d \<Rightarrow> sync_apply rt d (ct_update (\<lambda>st. st\<lparr>sy_DesiredRevision := Snapshot_Revision d\<rparr>) (c\<lparr>ct_desired := Some d\<rparr>))))"

text \<open>
  \<open>source\<close> answers for the revision known, a deadline passed during the fetch included; \<open>busy\<close> says that another
  synchronisation holds the lock.
\<close>

definition Sync :: "clock_lib \<Rightarrow> 'r Runtime \<Rightarrow> bool \<Rightarrow> (string \<Rightarrow> clock_error + ClockSnapshot option) \<Rightarrow> 'r Controller \<Rightarrow> ct_error option \<times> 'r Controller" where
  "Sync lib rt busy source c =
     (if busy then (Some InProgress, c)
      else
        let known = (case ct_desired c of None \<Rightarrow> [] | Some d \<Rightarrow> Snapshot_Revision d) in
        if ct_initialized c then sync_fetched lib rt (source known) c
        else case ct_step rt ''holding'' (rt_Hold rt) c of
          (Some e, c1) \<Rightarrow> (Some e, ct_update (\<lambda>s. s\<lparr>sy_Phase := ''halted'', sy_LastError := Some e\<rparr>) c1)
        | (None, c1) \<Rightarrow> sync_fetched lib rt (source known) ((ct_phase ''waiting_snapshot'' c1)\<lparr>ct_initialized := True\<rparr>))"

definition RestoreLastGood :: "clock_lib \<Rightarrow> ClockSnapshot option \<Rightarrow> 'r Controller \<Rightarrow> ct_error option \<times> 'r Controller" where
  "RestoreLastGood lib s c =
     (if ct_initialized c then (Some RecoveryStarted, c)
      else case s of
        None \<Rightarrow> (None, c)
      | Some s \<Rightarrow>
        (case StageClock lib (cls_raw s) (ct_scope c) of
           Inl e \<Rightarrow> (Some (StagingFailed e), c)
         | Inr g \<Rightarrow> (None, ct_update (\<lambda>st. st\<lparr>sy_LastGoodRevision := Snapshot_Revision g\<rparr>) (c\<lparr>ct_good := Some g\<rparr>))))"

text \<open>
  The polling loop: one round per element, until the context is done at the end of the list; what a round returns
  is dropped.
\<close>

definition ct_Run :: "clock_lib \<Rightarrow> 'r Runtime \<Rightarrow> int \<Rightarrow> (bool \<times> (string \<Rightarrow> clock_error + ClockSnapshot option)) list \<Rightarrow> 'r Controller
    \<Rightarrow> ct_error option \<times> 'r Controller" where
  "ct_Run lib rt interval rounds c =
     (if interval \<le> 0 then (Some BadInterval, c)
      else (Some RunCancelled, fold (\<lambda>(busy, source) c. snd (Sync lib rt busy source c)) rounds c))"

text \<open>A lease: the lock is tried at every tick until it is free, or the context is done at the end of the list.\<close>

fun WithRuntimeLease :: "bool list \<Rightarrow> 'r rt_op \<Rightarrow> 'r Controller \<Rightarrow> ct_error option \<times> 'r Controller" where
  "WithRuntimeLease [] f c = (Some LeaseCancelled, c)"
| "WithRuntimeLease (free # ticks) f c =
     (if free then (case f (ct_rt c) of (e, r) \<Rightarrow> (map_option LeaseFailed e, c\<lparr>ct_rt := r\<rparr>)) else WithRuntimeLease ticks f c)"

section \<open>The resolver runtime\<close>

text \<open>
  The gate and the connector work on one state. \<open>wo_Prepare\<close> is what a gateway does with a snapshot before the
  configuration proper; a revision is what the running connector reports.
\<close>

record 'g world_ops =
  wo_Hold :: "'g rt_op"
  wo_Drain :: "'g rt_op"
  wo_Resume :: "'g rt_op"
  wo_Stop :: "'g rt_op"
  wo_Prepare :: "ClockSnapshot \<Rightarrow> 'g rt_op"
  wo_Configure :: "NativeClockConfig \<Rightarrow> 'g rt_op"
  wo_Start :: "'g rt_op"
  wo_Revision :: "'g \<Rightarrow> (rt_error + string) \<times> 'g"
  wo_Done :: "'g \<Rightarrow> bool \<times> 'g"

record 'g ResolverRuntime =
  rv_held :: bool
  rv_stopped :: bool
  rv_drained :: bool
  rv_configuredRevision :: string
  rv_verified :: bool
  rv_resolver :: SyncedResolver
  rv_world :: 'g

definition NewResolverRuntime :: "'g \<Rightarrow> SyncedResolver \<Rightarrow> 'g ResolverRuntime" where
  "NewResolverRuntime g res = \<lparr>rv_held = False, rv_stopped = False, rv_drained = False, rv_configuredRevision = [], rv_verified = False,
     rv_resolver = res, rv_world = g\<rparr>"

definition rv_Hold :: "'g world_ops \<Rightarrow> 'g ResolverRuntime rt_op" where
  "rv_Hold ops r =
     (case wo_Hold ops (rv_world r) of
        (Some e, g) \<Rightarrow> (Some e, r\<lparr>rv_world := g\<rparr>)
      | (None, g) \<Rightarrow> (None, r\<lparr>rv_world := g, rv_held := True\<rparr>))"

definition rv_Stop :: "'g world_ops \<Rightarrow> 'g ResolverRuntime rt_op" where
  "rv_Stop ops r =
     (if \<not> rv_held r then (Some (GuardFailed ''stop requires held admission''), r)
      else case wo_Stop ops (rv_world r) of
        (Some e, g) \<Rightarrow> (Some e, r\<lparr>rv_world := g\<rparr>)
      | (None, g) \<Rightarrow> (None, r\<lparr>rv_world := g, rv_stopped := True, rv_drained := False, rv_verified := False\<rparr>))"

definition rv_Drain :: "'g world_ops \<Rightarrow> 'g ResolverRuntime rt_op" where
  "rv_Drain ops r =
     (if \<not> rv_held r \<or> \<not> rv_stopped r then (Some (GuardFailed ''drain requires stopped publishers''), r)
      else case wo_Drain ops (rv_world r) of
        (Some e, g) \<Rightarrow> (Some e, r\<lparr>rv_world := g\<rparr>)
      | (None, g) \<Rightarrow> (None, r\<lparr>rv_world := g, rv_drained := True\<rparr>))"

definition rv_Configure :: "'g world_ops \<Rightarrow> NativeClockConfig \<Rightarrow> Entry list \<Rightarrow> 'g ResolverRuntime rt_op" where
  "rv_Configure ops native es r =
     (if \<not> rv_held r \<or> \<not> rv_stopped r \<or> \<not> rv_drained r then (Some (GuardFailed ''configure requires stop/drain barrier''), r)
      else case wo_Configure ops native (rv_world r) of
        (Some e, g) \<Rightarrow> (Some e, r\<lparr>rv_world := g\<rparr>)
      | (None, g) \<Rightarrow> (None, r\<lparr>rv_world := g, rv_resolver := Synced_Update es (rv_resolver r),
            rv_configuredRevision := ncc_Revision native, rv_verified := False\<rparr>))"

definition ConfigureSnapshot :: "'g world_ops \<Rightarrow> ClockSnapshot \<Rightarrow> 'g ResolverRuntime rt_op" where
  "ConfigureSnapshot ops s r =
     (case wo_Prepare ops s (rv_world r) of
        (Some e, g) \<Rightarrow> (Some e, r\<lparr>rv_world := g\<rparr>)
      | (None, g) \<Rightarrow> rv_Configure ops (cls_native s) (cls_entries s) (r\<lparr>rv_world := g\<rparr>))"

definition rv_Start :: "'g world_ops \<Rightarrow> 'g ResolverRuntime rt_op" where
  "rv_Start ops r =
     (if \<not> rv_held r \<or> \<not> rv_stopped r \<or> \<not> rv_drained r \<or> rv_configuredRevision r = []
      then (Some (GuardFailed ''start requires held prepared configuration''), r)
      else case wo_Start ops (rv_world r) of (e, g) \<Rightarrow> (e, r\<lparr>rv_world := g, rv_stopped := False, rv_drained := False\<rparr>))"

definition rv_Verify :: "'g world_ops \<Rightarrow> string \<Rightarrow> 'g ResolverRuntime rt_op" where
  "rv_Verify ops revision r0 =
     (let r = r0\<lparr>rv_verified := False\<rparr> in
      if \<not> rv_held r \<or> rv_stopped r then (Some (GuardFailed ''verify requires held running connector''), r)
      else case wo_Revision ops (rv_world r) of
        (Inl e, g) \<Rightarrow> (Some e, r\<lparr>rv_world := g\<rparr>)
      | (Inr got, g) \<Rightarrow>
        if got \<noteq> revision \<or> revision \<noteq> rv_configuredRevision r then (Some RevisionDiffers, r\<lparr>rv_world := g\<rparr>)
        else (None, r\<lparr>rv_world := g, rv_verified := True\<rparr>))"

definition rv_Resume :: "'g world_ops \<Rightarrow> 'g ResolverRuntime rt_op" where
  "rv_Resume ops r =
     (if \<not> rv_held r \<or> rv_stopped r \<or> \<not> rv_verified r then (Some (GuardFailed ''resume requires running connector''), r)
      else case wo_Resume ops (rv_world r) of
        (Some e, g) \<Rightarrow> (Some e, r\<lparr>rv_world := g\<rparr>)
      | (None, g) \<Rightarrow> (None, r\<lparr>rv_world := g, rv_held := False\<rparr>))"

definition rv_Done :: "'g world_ops \<Rightarrow> 'g ResolverRuntime \<Rightarrow> bool \<times> 'g ResolverRuntime" where
  "rv_Done ops r = (case wo_Done ops (rv_world r) of (b, g) \<Rightarrow> (b, r\<lparr>rv_world := g\<rparr>))"

definition gatewayRuntime :: "'g world_ops \<Rightarrow> 'g ResolverRuntime Runtime" where
  "gatewayRuntime ops = \<lparr>rt_Hold = rv_Hold ops, rt_Stop = rv_Stop ops, rt_Drain = rv_Drain ops, rt_Configure = ConfigureSnapshot ops,
     rt_Start = rv_Start ops, rt_Verify = rv_Verify ops, rt_Resume = rv_Resume ops, rt_Done = rv_Done ops\<rparr>"

end
