(* ===== verification/Clock_Sessions.thy ===== *)
theory Clock_Sessions
  imports Clock_Controller Lifecycle "HOL-Library.Sublist"
begin

text \<open>
  The session journal (\<open>internal/clocksync/sessions.go\<close>) and the check of a managed producer's NATS connection
  (\<open>internal/clocksync/nats.go\<close>). The state directory is an association list from path components below it to contents; how
  the replacement of a file ends is an argument of every write, and \<open>bad\<close> says of which paths every access fails.
\<close>

section \<open>Library\<close>

text \<open>
  Beyond \<open>clock_lib\<close>: \<open>json.Compact\<close> as \<open>json.Marshal\<close> applies it to raw messages, the raw text of a member of an
  object, \<open>filepath.Join\<close>, \<open>url.Parse\<close> with \<open>Hostname\<close> in the place of the host, and \<open>Time.Format(time.RFC3339Nano)\<close>.
\<close>

record session_lib = clock_lib +
  json_compact :: "string \<Rightarrow> string option"
  json_member :: "string \<Rightarrow> string \<Rightarrow> string"
  path_join :: "string list \<Rightarrow> string"
  url_hostname :: "string \<Rightarrow> parsed_url option"
  time_format :: "gotime \<Rightarrow> string"

definition IsAbs :: "string \<Rightarrow> bool" where
  "IsAbs p = is_prefix ''/'' p"

definition hex_char :: "nat \<Rightarrow> char" where
  "hex_char n = ''0123456789abcdef'' ! n"

definition EncodeToString :: "string \<Rightarrow> string" where
  "EncodeToString s = concat (map (\<lambda>c. [hex_char (of_char c div 16), hex_char (of_char c mod 16)]) s)"

section \<open>Files\<close>

type_synonym clock_fs = "(string list \<times> string) list"

definition atomicFile :: "write_end \<Rightarrow> string list \<Rightarrow> string \<Rightarrow> clock_fs \<Rightarrow> bool \<times> clock_fs" where
  "atomicFile w path d fs =
     (case w of
        WriteOK \<Rightarrow> (True, AList.update path d fs)
      | FailsBefore \<Rightarrow> (False, fs)
      | FailsAfter \<Rightarrow> (False, AList.update path d fs))"

definition read_path :: "(string list \<Rightarrow> bool) \<Rightarrow> clock_fs \<Rightarrow> string list \<Rightarrow> file_read" where
  "read_path bad fs p = (if bad p then FileError else case map_of fs p of None \<Rightarrow> FileMissing | Some d \<Rightarrow> FileData d)"

section \<open>Records\<close>

record sessionRecord =
  sr_RunClockID :: string
  sr_Session :: string
  sr_Snapshot :: string
  sr_snapshot :: ClockSnapshot
  sr_nativeHash :: string
  sr_verified :: bool

record sessions =
  ss_scope :: ClockScope
  ss_records :: "sessionRecord gomap"

definition native_path :: "string \<Rightarrow> string list" where
  "native_path i = [''native'', i @ ''.json'']"

definition session_path :: "string \<Rightarrow> string list" where
  "session_path i = [''sessions'', i @ ''.json'']"

definition verified_path :: "string \<Rightarrow> string list" where
  "verified_path i = [''sessions'', i @ ''.json.verified'']"

definition active_path :: "string list" where
  "active_path = [''active.json'']"

definition run_context_path :: "string \<Rightarrow> string list" where
  "run_context_path i = [''run-context'', i @ ''.json'']"

definition sessionPattern :: "string \<Rightarrow> bool" where
  "sessionPattern s \<longleftrightarrow> length s = 32 \<and> list_all (\<lambda>c. c \<in> set ''0123456789abcdef'') s"

text \<open>The native bundle as \<open>json.Marshal\<close> writes it; copying an empty list of points leaves none, which is written as \<open>null\<close>.\<close>

definition json_NativeClock :: "NativeClock \<Rightarrow> json" where
  "json_NativeClock c = JObj [(''clock_id'', JStr (nc_ClockID c)), (''local_id'', JStr (nc_LocalID c)), (''property'', JStr (nc_Property c)),
     (''point_local_ids'', if nc_PointLocalIDs c = [] then JNull else JArr (map JStr (nc_PointLocalIDs c)))]"

definition json_NativeClockPoint :: "NativeClockPoint \<Rightarrow> json" where
  "json_NativeClockPoint p = JObj [(''local_id'', JStr (np_LocalID p)), (''device_ref'', JStr (np_DeviceRef p)), (''unit'', JStr (np_Unit p)),
     (''writable'', JBool (np_Writable p))]"

definition marshal_native :: "session_lib \<Rightarrow> NativeClockConfig \<Rightarrow> string" where
  "marshal_native lib n = json_write lib (JObj [(''revision'', JStr (ncc_Revision n)), (''connector_id'', JStr (ncc_ConnectorID n)),
     (''device_id'', JNum (format_integer lib (ncc_DeviceID n))), (''points'', JArr (map json_NativeClockPoint (ncc_Points n))),
     (''clocks'', JArr (map json_NativeClock (ncc_Clocks n)))])"

definition marshal_record :: "session_lib \<Rightarrow> sessionRecord \<Rightarrow> string option" where
  "marshal_record lib r =
     (case json_compact lib (sr_Snapshot r) of
        None \<Rightarrow> None
      | Some raw \<Rightarrow> Some (''{'' @ (if sr_RunClockID r = [] then [] else ''\"runClockId\":'' @ json_write lib (JStr (sr_RunClockID r)) @ '','')
          @ ''\"session\":'' @ json_write lib (JStr (sr_Session r)) @ '',\"snapshot\":'' @ raw @ ''}''))"

text \<open>The decoded members of a record: its clock, its session and the raw snapshot.\<close>

definition unmarshal_record :: "session_lib \<Rightarrow> string \<Rightarrow> (string \<times> string \<times> string) option" where
  "unmarshal_record lib d =
     (case json_read lib d of
        None \<Rightarrow> None
      | Some j \<Rightarrow>
        map_option (\<lambda>(clock, session). (clock, session, json_member lib ''snapshot'' d))
          (dec_struct [(''runClockId'', dec_string (\<lambda>s (a, b). (s, b))), (''session'', dec_string (\<lambda>s (a, b). (a, s))),
             (''snapshot'', \<lambda>j x. Some x)] j ([], [])))"

section \<open>Opening\<close>

datatype session_error = NotAbsolute | SetupFailed | ReadFailed | RecordDecode | BadIdentity | BadSnapshot stage_error
  | NativeMismatch | RunClockMissing | RunHistoryMissing | BadReceipt | RandomFailed | EncodeFailed | WriteFailedAt "string list" | BadLastGood

definition open_record :: "session_lib \<Rightarrow> (string list \<Rightarrow> bool) \<Rightarrow> ClockScope \<Rightarrow> clock_fs \<Rightarrow> string \<Rightarrow> session_error + sessionRecord" where
  "open_record lib bad scope fs name =
     (case read_path bad fs [''sessions'', name] of
        FileData d \<Rightarrow>
        (case unmarshal_record lib d of
           None \<Rightarrow> Inl RecordDecode
         | Some (clock, session, raw) \<Rightarrow>
           if \<not> sessionPattern session \<or> name \<noteq> session @ ''.json'' then Inl BadIdentity
           else (case StageClock (clock_lib.truncate lib) raw scope of
              Inl e \<Rightarrow> Inl (BadSnapshot e)
            | Inr snap \<Rightarrow>
              (case read_path bad fs (native_path session) of
                 FileData native \<Rightarrow>
                 if native \<noteq> marshal_native lib (cls_native snap) then Inl NativeMismatch
                 else if clock \<noteq> [] \<and> clock \<notin> nc_ClockID ` set (ncc_Clocks (cls_native snap)) then Inl RunClockMissing
                 else if clock \<noteq> [] \<and> read_path bad fs (run_context_path session) \<in> {FileMissing, FileError} then Inl RunHistoryMissing
                 else
                   let hash = clock_sha256 lib native;
                       r = \<lparr>sr_RunClockID = clock, sr_Session = session, sr_Snapshot = raw, sr_snapshot = snap, sr_nativeHash = hash, sr_verified = False\<rparr>
                   in (case read_path bad fs (verified_path session) of
                         FileMissing \<Rightarrow> Inr r
                       | FileError \<Rightarrow> Inl ReadFailed
                       | FileData proof_text \<Rightarrow> if proof_text \<noteq> hash then Inl BadReceipt else Inr (r\<lparr>sr_verified := True\<rparr>))
               | _ \<Rightarrow> Inl ReadFailed)))
      | _ \<Rightarrow> Inl ReadFailed)"

fun open_records :: "session_lib \<Rightarrow> (string list \<Rightarrow> bool) \<Rightarrow> ClockScope \<Rightarrow> clock_fs \<Rightarrow> string list \<Rightarrow> sessionRecord gomap \<Rightarrow> session_error + sessionRecord gomap" where
  "open_records lib bad scope fs [] m = Inr m"
| "open_records lib bad scope fs (n # ns) m =
     (case open_record lib bad scope fs n of
        Inl e \<Rightarrow> Inl e
      | Inr r \<Rightarrow> open_records lib bad scope fs ns (AList.update (sr_Session r) r m))"

text \<open>\<open>filepath.Glob(dir/sessions/*.json)\<close>, in order.\<close>

definition session_files :: "clock_fs \<Rightarrow> string list" where
  "session_files fs = sort (remdups (concat (map (\<lambda>(p, _). case p of [d, n] \<Rightarrow> if d = ''sessions'' \<and> suffix ''.json'' n then [n] else [] | _ \<Rightarrow> []) fs)))"

definition openSessions :: "session_lib \<Rightarrow> bool \<Rightarrow> (string list \<Rightarrow> bool) \<Rightarrow> string \<Rightarrow> ClockScope \<Rightarrow> clock_fs \<Rightarrow> session_error + sessions" where
  "openSessions lib setup_ok bad dir scope fs =
     (if \<not> IsAbs dir then Inl NotAbsolute
      else if \<not> setup_ok then Inl SetupFailed
      else case open_records lib bad scope fs (session_files fs) [] of
        Inl e \<Rightarrow> Inl e
      | Inr m \<Rightarrow> Inr \<lparr>ss_scope = scope, ss_records = m\<rparr>)"

section \<open>Operations\<close>

text \<open>\<open>random\<close>: the bytes the source of randomness gives; \<open>w1\<close> and \<open>w2\<close>: how the two writes end.\<close>

definition create :: "session_lib \<Rightarrow> string option \<Rightarrow> write_end \<Rightarrow> write_end \<Rightarrow> ClockSnapshot \<Rightarrow> sessions \<times> clock_fs
    \<Rightarrow> (session_error + string) \<times> sessions \<times> clock_fs" where
  "create lib random w1 w2 s = (\<lambda>(ss, fs).
     (case random of
        None \<Rightarrow> (Inl RandomFailed, ss, fs)
      | Some bytes \<Rightarrow>
        let i = EncodeToString bytes; native = marshal_native lib (cls_native s);
            r = \<lparr>sr_RunClockID = [], sr_Session = i, sr_Snapshot = cls_raw s, sr_snapshot = s, sr_nativeHash = clock_sha256 lib native, sr_verified = False\<rparr>
        in case marshal_record lib r of
             None \<Rightarrow> (Inl EncodeFailed, ss, fs)
           | Some d \<Rightarrow>
             (case atomicFile w1 (native_path i) native fs of
                (False, fs1) \<Rightarrow> (Inl (WriteFailedAt (native_path i)), ss, fs1)
              | (True, fs1) \<Rightarrow>
                (case atomicFile w2 (session_path i) d fs1 of
                   (False, fs2) \<Rightarrow> (Inl (WriteFailedAt (session_path i)), ss, fs2)
                 | (True, fs2) \<Rightarrow> (Inr i, ss\<lparr>ss_records := AList.update i r (ss_records ss)\<rparr>, fs2)))))"

definition session_get :: "string \<Rightarrow> sessions \<Rightarrow> sessionRecord option" where
  "session_get i ss = map_of (ss_records ss) i"

definition session_verify :: "write_end \<Rightarrow> sessionRecord \<Rightarrow> sessions \<times> clock_fs \<Rightarrow> bool \<times> sessions \<times> clock_fs" where
  "session_verify w r = (\<lambda>(ss, fs).
     (case atomicFile w (verified_path (sr_Session r)) (sr_nativeHash r) fs of
        (False, fs1) \<Rightarrow> (False, ss, fs1)
      | (True, fs1) \<Rightarrow>
        (True, ss\<lparr>ss_records := (case map_of (ss_records ss) (sr_Session r) of
            None \<Rightarrow> ss_records ss
          | Some q \<Rightarrow> AList.update (sr_Session r) (q\<lparr>sr_verified := True\<rparr>) (ss_records ss))\<rparr>, fs1)))"

definition session_commit :: "write_end \<Rightarrow> sessionRecord \<Rightarrow> clock_fs \<Rightarrow> bool \<times> clock_fs" where
  "session_commit w r fs = atomicFile w active_path (sr_Session r) fs"

definition lastGood :: "(string list \<Rightarrow> bool) \<Rightarrow> sessions \<times> clock_fs \<Rightarrow> session_error + ClockSnapshot option" where
  "lastGood bad = (\<lambda>(ss, fs).
     (case read_path bad fs active_path of
        FileMissing \<Rightarrow> Inr None
      | FileError \<Rightarrow> Inl ReadFailed
      | FileData i \<Rightarrow>
        (case session_get i ss of
           None \<Rightarrow> Inl BadLastGood
         | Some r \<Rightarrow> if \<not> sr_verified r then Inl BadLastGood else Inr (Some (sr_snapshot r)))))"

section \<open>The managed NATS connection\<close>

definition Cut :: "string \<Rightarrow> string \<times> string \<times> bool" where
  "Cut s = (takeWhile (\<lambda>c. c \<noteq> CHR ''='') s, drop 1 (dropWhile (\<lambda>c. c \<noteq> CHR ''='') s), CHR ''='' \<in> set s)"

fun nats_values :: "string list \<Rightarrow> string gomap \<Rightarrow> string gomap option" where
  "nats_values [] m = Some m"
| "nats_values (e # es) m =
     (case Cut e of (k, v, ok) \<Rightarrow>
      if \<not> is_prefix ''NATS_'' k then nats_values es m
      else if \<not> ok \<or> (k \<noteq> ''NATS_URL'' \<and> k \<noteq> ''NATS_AUTH_FILE'') \<or> (case map_of m k of None \<Rightarrow> False | Some w \<Rightarrow> w \<noteq> []) \<or> v = [] then None
      else nats_values es (AList.update k v m))"

definition nats_address_ok :: "session_lib \<Rightarrow> string \<Rightarrow> bool" where
  "nats_address_ok lib a =
     (case url_hostname lib (TrimSpace a) of
        None \<Rightarrow> False
      | Some u \<Rightarrow> url_Host u \<noteq> [] \<and> \<not> url_User u \<and> url_RawQuery u = [] \<and> url_Fragment u = []
          \<and> url_Scheme u \<in> set [''nats'', ''tls'', ''ws'', ''wss''])"

text \<open>\<open>regular\<close>: the path is an existing regular file.\<close>

definition ConnectorNATSAuthFile :: "session_lib \<Rightarrow> (string \<Rightarrow> bool) \<Rightarrow> ConnectorSpec \<Rightarrow> string option" where
  "ConnectorNATSAuthFile lib regular spec =
     (case nats_values (cs_Env spec) [] of
        None \<Rightarrow> None
      | Some m \<Rightarrow>
        let u = (case map_of m ''NATS_URL'' of None \<Rightarrow> [] | Some v \<Rightarrow> v); p = (case map_of m ''NATS_AUTH_FILE'' of None \<Rightarrow> [] | Some v \<Rightarrow> v) in
        if u = [] then None
        else if \<not> list_all (nats_address_ok lib) (Split CHR '','' u) then None
        else if \<not> IsAbs p \<or> list_ex (\<lambda>c. c \<in> set [CHR '':'', CHR 0x0D, CHR 0x0A]) p then None
        else if \<not> regular p then None
        else Some p)"

end
