(* ===== verification/Clock_Worker.thy ===== *)
theory Clock_Worker
  imports Clock_Sessions Mqtt_Connector
begin

text \<open>
  The clock gateway's state and its worker (\<open>internal/clocksync/gateway.go\<close>, \<open>internal/clocksync/run_context.go\<close>): the admission of commands, the
  binding of an event to its archived session, the classification of a frame against its run, and the
  processing of one delivery. What a delivery meets - the clock, the database, the ends of its writes - comes with it.
\<close>

section \<open>State\<close>

record RunContextConfig =
  rcc_ClockID :: string
  rcc_EnvelopeFile :: string
  rcc_LedgerFile :: string

text \<open>The binding holds the ledger and what its file holds.\<close>

record runBinding =
  rb_config :: RunContextConfig
  rb_ledger :: Ledger
  rb_disk :: "string option"

record clock_delivery =
  dl_Sequence :: "nat option"
  dl_Subject :: string
  dl_Headers :: "string list gomap"
  dl_Data :: string
  dl_now :: gotime
  dl_db :: "db_step \<Rightarrow> bool"
  dl_invalidate :: write_end
  dl_receipt :: write_end
  dl_quarantine :: write_end
  dl_unreadable :: "string list \<Rightarrow> bool"
  dl_settles :: bool

datatype settlement = DoubleAcked | Terminated | NakedLater

text \<open>What other goroutines do (a command leaves only after it entered): a command enters or leaves, the worker takes a delivery or finishes one, a stop is requested.\<close>

datatype inter = Enters bool | Leaves | Takes clock_delivery | Finishes clock_delivery | StopRequested

record answer =
  an_between :: "inter list"
  an_waits :: "inter list list"
  an_replies :: "string option list"
  an_infos :: "((nat \<times> nat) option \<times> inter list) list"
  an_random :: "string option"
  an_write :: write_end
  an_write2 :: write_end
  an_create :: create_end
  an_now :: gotime
  an_done :: bool

text \<open>
  The producer's record is the session it points to: the pointer is the one the store holds. \<open>gw_env\<close> answers the
  \<open>gw_tick\<close>-th time the code depends on its surroundings.
\<close>

record 'd Gateway =
  gw_run :: "runBinding option"
  gw_held :: bool
  gw_draining :: bool
  gw_active :: nat
  gw_commands :: nat
  gw_stopping :: bool
  gw_dir :: string
  gw_store :: sessions
  gw_fs :: clock_fs
  gw_buffer :: Buffer
  gw_recent :: "TelemetryFrame list"
  gw_settled :: "(clock_delivery \<times> settlement) list"
  gw_manager :: "'d Manager"
  gw_owner :: Exclusive
  gw_base :: ConnectorSpec
  gw_record :: "string option"
  gw_started :: bool
  gw_discovered :: bool
  gw_requests :: "(string \<times> string) list"
  gw_env :: "nat \<Rightarrow> answer"
  gw_tick :: nat

record 'd gw_params =
  gp_lib :: session_lib
  gp_codec :: codec
  gp_docker :: "'d ContainerClient"
  gp_config :: ManagerConfig
  gp_regular :: "string \<Rightarrow> bool"

section \<open>Admission\<close>

definition Enter :: "bool \<Rightarrow> 'd Gateway \<Rightarrow> bool \<times> 'd Gateway" where
  "Enter cancelled g = (if gw_held g \<or> cancelled then (False, g) else (True, g\<lparr>gw_commands := gw_commands g + 1\<rparr>))"

definition leave :: "'d Gateway \<Rightarrow> 'd Gateway" where
  "leave g = g\<lparr>gw_commands := gw_commands g - 1\<rparr>"

definition RequestStop :: "'d Gateway \<Rightarrow> 'd Gateway" where
  "RequestStop g = g\<lparr>gw_stopping := True, gw_held := True\<rparr>"

definition worker_allowed :: "'d Gateway \<Rightarrow> bool" where
  "worker_allowed g \<longleftrightarrow> \<not> gw_held g \<or> gw_draining g"

section \<open>Binding an event to its session\<close>

definition attr :: "string \<Rightarrow> string gomap \<Rightarrow> string" where
  "attr k m = (case map_of m k of None \<Rightarrow> [] | Some v \<Rightarrow> v)"

definition header :: "string \<Rightarrow> string list gomap \<Rightarrow> string" where
  "header k m = (case map_of m k of Some (v # vs) \<Rightarrow> v | _ \<Rightarrow> [])"

text \<open>The first equipment point with the event's address.\<close>

definition bound_point :: "Entry list \<Rightarrow> string \<Rightarrow> Entry option" where
  "bound_point es lid = find (\<lambda>e. ReleaseOf e = [] \<and> LocalID e = lid) es"

text \<open>Every clock the address follows must be the one the event names, at the snapshot's revision; without one there is no simulation attribute.\<close>

definition clocks_of :: "NativeClockConfig \<Rightarrow> string \<Rightarrow> NativeClock list" where
  "clocks_of n lid = filter (\<lambda>c. lid \<in> set (nc_PointLocalIDs c)) (ncc_Clocks n)"

definition clock_attributes_ok :: "ClockSnapshot \<Rightarrow> Event \<Rightarrow> bool" where
  "clock_attributes_ok s evt =
     (let cs = clocks_of (cls_native s) (evt_LocalID evt); a = evt_Attributes evt in
      if cs = [] then list_all (\<lambda>(k, _). \<not> is_prefix ''sim_'' k) a
      else list_all (\<lambda>c. attr ''sim_clock_id'' a = nc_ClockID c \<and> attr ''sim_config_revision'' a = Snapshot_Revision s \<and> attr ''sim_run_status'' a = ''absent'') cs)"

definition boundFrame :: "session_lib \<Rightarrow> ClockScope \<Rightarrow> Event \<Rightarrow> sessionRecord \<Rightarrow> TelemetryFrame option" where
  "boundFrame lib scope evt r =
     (let s = sr_snapshot r; a = evt_Attributes evt in
      if evt_Protocol evt \<noteq> ''bacnet'' \<or> evt_ConnectorID evt \<noteq> cs_ConnectorID scope \<or> evt_Timestamp evt = [] then None
      else if parse_time lib (evt_Timestamp evt) = None then None
      else if list_ex (\<lambda>k. map_of a k \<noteq> None) [''sim_run_id'', ''sim_step_id'', ''sim_context_generation''] then None
      else if attr ''sim_run_status'' a \<noteq> [] \<and> attr ''sim_run_status'' a \<noteq> ''absent'' then None
      else case bound_point (cls_entries s) (evt_LocalID evt) of
        None \<Rightarrow> None
      | Some p \<Rightarrow>
        if DeviceRef p \<noteq> evt_DeviceRef evt then None
        else if \<not> clock_attributes_ok s evt then None
        else (case encode_Event (json_lib.truncate lib) (evt\<lparr>evt_Attributes := sort_key fst a\<rparr>) of
           None \<Rightarrow> None
         | Some j \<Rightarrow>
           (case Normalize (json_lib.truncate lib) [] (json_write lib j) (Fixture_Resolve (NewFixture (cls_entries s))) (cs_GatewayID scope) of
              (f, OutcomeOK) \<Rightarrow> f
            | _ \<Rightarrow> None)))"

section \<open>Classification against the run\<close>

datatype bind_error = InvalidPoll | BindFailed

definition After :: "gotime \<Rightarrow> gotime \<Rightarrow> bool" where
  "After t u = Before u t"

definition poll_interval :: "session_lib \<Rightarrow> clock_delivery \<Rightarrow> TelemetryFrame \<Rightarrow> (gotime \<times> gotime) option" where
  "poll_interval lib d f =
     (case (parse_time lib (header ''Nexus-Poll-Started-At'' (dl_Headers d)), parse_time lib (header ''Nexus-Poll-Ended-At'' (dl_Headers d)),
            parse_time lib (Timestamp f)) of
        (Some start, Some finish, Some observed) \<Rightarrow>
          if Before finish start \<or> Before observed start \<or> After observed finish \<or> After finish (dl_now d) then None else Some (start, finish)
      | _ \<Rightarrow> None)"

definition frame_receipt :: "session_lib \<Rightarrow> clock_delivery \<Rightarrow> string \<Rightarrow> string list" where
  "frame_receipt lib d session =
     (let ident = json_write lib (JObj [(''Session'', JStr session), (''Start'', JStr (header ''Nexus-Poll-Started-At'' (dl_Headers d))),
            (''End'', JStr (header ''Nexus-Poll-Ended-At'' (dl_Headers d))), (''Raw'', JStr (base64_encode lib (dl_Data d)))])
      in [''run-frames'', clock_sha256 lib ident @ ''.pb''])"

text \<open>The attributes a classified frame carries.\<close>

definition classified :: "session_lib \<Rightarrow> clock_delivery \<Rightarrow> gotime \<times> gotime option \<Rightarrow> RunResult \<Rightarrow> TelemetryFrame \<Rightarrow> TelemetryFrame" where
  "classified lib d = (\<lambda>(committed, applied) res f.
     let a1 = AList.update ''sim_context_committed_at'' (time_format lib committed) (Attributes f);
         a2 = (case applied of None \<Rightarrow> a1 | Some t \<Rightarrow> AList.update ''sim_context_applied_at'' (time_format lib t) a1);
         a3 = AList.update ''sim_poll_started_at'' (header ''Nexus-Poll-Started-At'' (dl_Headers d)) a2;
         a4 = AList.update ''sim_poll_ended_at'' (header ''Nexus-Poll-Ended-At'' (dl_Headers d)) a3;
         a5 = AList.update ''sim_run_status'' (rr_Status res) a4;
         a6 = AList.delete ''sim_context_generation'' (AList.delete ''sim_run_id'' (AList.delete ''sim_run_reason'' a5));
         a7 = (if rr_Reason res \<noteq> [] then AList.update ''sim_run_reason'' (rr_Reason res) a6 else a6);
         a8 = (if rr_Status res = ''valid''
               then AList.update ''sim_context_generation'' (format_integer lib (rr_Generation res)) (AList.update ''sim_run_id'' (rr_RunID res) a7)
               else a7)
     in f\<lparr>Attributes := a8\<rparr>)"

text \<open>The verdict: the archive's, unless the ledger knows of a reset or has moved on to another run.\<close>

definition run_verdict :: "RunResult \<Rightarrow> bool \<Rightarrow> RunContext \<Rightarrow> RunContext \<Rightarrow> RunResult" where
  "run_verdict res invalidated current context =
     (if invalidated then run_invalid ''reset_detected''
      else if rc_RunID current \<noteq> rc_RunID context then run_unverified ''generation_history_unavailable''
      else res)"

text \<open>A reset seen in a frame invalidates the run of its archive in the ledger.\<close>

definition note_reset :: "session_lib \<Rightarrow> write_end \<Rightarrow> bool \<Rightarrow> Ledger \<Rightarrow> runBinding \<Rightarrow> bool \<times> runBinding" where
  "note_reset lib w reset archive rb =
     (if \<not> reset then (True, rb)
      else case CurrentEnvelope archive of
        Inl e \<Rightarrow> (False, rb)
      | Inr env \<Rightarrow>
        (case InvalidateContext (run_lib.truncate lib) w env (rb_ledger rb, rb_disk rb) of
           (e, l, disk) \<Rightarrow> (e = None, rb\<lparr>rb_ledger := l, rb_disk := disk\<rparr>)))"

definition classify :: "session_lib \<Rightarrow> clock_delivery \<Rightarrow> sessionRecord \<Rightarrow> gotime \<times> gotime \<Rightarrow> Ledger \<Rightarrow> RunContext \<Rightarrow> runBinding \<Rightarrow> TelemetryFrame \<Rightarrow> TelemetryFrame option" where
  "classify lib d r = (\<lambda>(start, finish) archive context rb f.
     let res = Ledger_Evaluate (Snapshot_Revision (sr_snapshot r)) start finish archive in
     case (Invalidated (rc_RunID context) (rb_ledger rb), Ledger_Current (rb_ledger rb), ReceiverTimes archive) of
       (Inr reset, Inr current, Inr stamps) \<Rightarrow> Some (classified lib d stamps (run_verdict res reset current context) f)
     | _ \<Rightarrow> None)"

text \<open>A new classification is written before it is used.\<close>

definition new_receipt :: "'d gw_params \<Rightarrow> clock_delivery \<Rightarrow> sessionRecord \<Rightarrow> gotime \<times> gotime \<Rightarrow> runBinding \<Rightarrow> TelemetryFrame \<Rightarrow> 'd Gateway
    \<Rightarrow> (bind_error + TelemetryFrame) \<times> 'd Gateway" where
  "new_receipt gp d r iv rb f g =
     (let lib = gp_lib gp; cp = run_context_path (sr_Session r) in
      case Ledger_Open (run_lib.truncate lib) (if dl_unreadable d cp then None else map_of (gw_fs g) cp)
             \<lparr>sc_GatewayID = cs_GatewayID (ss_scope (gw_store g)), sc_ClockID = sr_RunClockID r\<rparr> of
        Inl e \<Rightarrow> (Inl BindFailed, g)
      | Inr archive \<Rightarrow>
        (case Ledger_Current archive of
           Inl e \<Rightarrow> (Inl BindFailed, g)
         | Inr context \<Rightarrow>
           (case note_reset lib (dl_invalidate d) (attr ''sim_time_quality'' (Attributes f) = ''reset'') archive rb of
              (False, rb1) \<Rightarrow> (Inl BindFailed, g\<lparr>gw_run := Some rb1\<rparr>)
            | (True, rb1) \<Rightarrow>
              (case classify lib d r iv archive context rb1 f of
                 None \<Rightarrow> (Inl BindFailed, g\<lparr>gw_run := Some rb1\<rparr>)
               | Some f1 \<Rightarrow>
                 (case marshal (gp_codec gp) f1 of
                    None \<Rightarrow> (Inl BindFailed, g\<lparr>gw_run := Some rb1\<rparr>)
                  | Some raw \<Rightarrow>
                    (case atomicFile (dl_receipt d) (frame_receipt lib d (sr_Session r)) raw (gw_fs g) of
                       (ok, fs) \<Rightarrow> (if ok then Inr f1 else Inl BindFailed, g\<lparr>gw_run := Some rb1, gw_fs := fs\<rparr>)))))))"

definition bindRunFrame :: "'d gw_params \<Rightarrow> clock_delivery \<Rightarrow> sessionRecord \<Rightarrow> TelemetryFrame \<Rightarrow> 'd Gateway \<Rightarrow> (bind_error + TelemetryFrame) \<times> 'd Gateway" where
  "bindRunFrame gp d r f g =
     (if sr_RunClockID r = [] \<or> attr ''sim_clock_id'' (Attributes f) \<noteq> sr_RunClockID r then (Inr f, g)
      else case gw_run g of
        None \<Rightarrow> (Inl BindFailed, g)
      | Some rb \<Rightarrow>
        if sr_RunClockID r \<noteq> rcc_ClockID (rb_config rb) then (Inl BindFailed, g)
        else (case poll_interval (gp_lib gp) d f of
           None \<Rightarrow> (Inl InvalidPoll, g)
         | Some iv \<Rightarrow>
           (case read_path (dl_unreadable d) (gw_fs g) (frame_receipt (gp_lib gp) d (sr_Session r)) of
              FileData raw \<Rightarrow> (case unmarshal (gp_codec gp) raw of None \<Rightarrow> (Inl BindFailed, g) | Some original \<Rightarrow> (Inr original, g))
            | FileError \<Rightarrow> (Inl BindFailed, g)
            | FileMissing \<Rightarrow> new_receipt gp d r iv rb f g)))"

section \<open>One delivery\<close>

definition quarantine :: "'d gw_params \<Rightarrow> clock_delivery \<Rightarrow> nat \<Rightarrow> string \<Rightarrow> 'd Gateway \<Rightarrow> settlement \<times> 'd Gateway" where
  "quarantine gp d n reason g =
     (let lib = gp_lib gp;
          body = json_write lib (JObj [(''Reason'', JStr reason), (''Subject'', JStr (dl_Subject d)),
            (''Headers'', if dl_Headers d = [] then JNull else JObj (map (\<lambda>(k, vs). (k, JArr (map JStr vs))) (sort_key fst (dl_Headers d)))), (''Data'', JStr (base64_encode lib (dl_Data d)))])
      in case atomicFile (dl_quarantine d) [''quarantine'', format_integer lib (int n) @ ''.json''] body (gw_fs g) of
           (False, fs) \<Rightarrow> (NakedLater, g\<lparr>gw_fs := fs\<rparr>)
         | (True, fs) \<Rightarrow> (if dl_settles d then Terminated else NakedLater, g\<lparr>gw_fs := fs\<rparr>))"

text \<open>The record an event belongs to, when its session is verified and it was made at that session's revision.\<close>

definition event_record :: "session_lib \<Rightarrow> clock_delivery \<Rightarrow> sessions \<Rightarrow> (sessionRecord \<times> Event) option" where
  "event_record lib d ss =
     (case session_get (header ''Nexus-Session'' (dl_Headers d)) ss of
        None \<Rightarrow> None
      | Some r \<Rightarrow>
        if \<not> sr_verified r \<or> header ''Nexus-Config-Revision'' (dl_Headers d) \<noteq> Snapshot_Revision (sr_snapshot r) then None
        else map_option (\<lambda>e. (r, e)) (decode_Event (json_lib.truncate lib) (dl_Data d)))"

definition store_frame :: "'d gw_params \<Rightarrow> clock_delivery \<Rightarrow> TelemetryFrame \<Rightarrow> 'd Gateway \<Rightarrow> settlement \<times> 'd Gateway" where
  "store_frame gp d f g =
     (case Write (gp_codec gp) (dl_db d) f (gw_buffer g) of
        (Some e, b) \<Rightarrow> (NakedLater, g\<lparr>gw_buffer := b\<rparr>)
      | (None, b) \<Rightarrow> (if dl_settles d then DoubleAcked else NakedLater, g\<lparr>gw_buffer := b, gw_recent := gw_recent g @ [f]\<rparr>))"

definition process :: "'d gw_params \<Rightarrow> clock_delivery \<Rightarrow> 'd Gateway \<Rightarrow> settlement \<times> 'd Gateway" where
  "process gp d g =
     (case dl_Sequence d of
        None \<Rightarrow> (NakedLater, g)
      | Some n \<Rightarrow>
        (case event_record (gp_lib gp) d (gw_store g) of
           None \<Rightarrow> quarantine gp d n ''unknown or unverified session'' g
         | Some (r, evt) \<Rightarrow>
           (case boundFrame (gp_lib gp) (ss_scope (gw_store g)) evt r of
              None \<Rightarrow> quarantine gp d n ''event does not match its archived session'' g
            | Some f \<Rightarrow>
              (case bindRunFrame gp d r f g of
                 (Inl BindFailed, g1) \<Rightarrow> (NakedLater, g1)
               | (Inl InvalidPoll, g1) \<Rightarrow> quarantine gp d n ''event does not match its archived session'' g1
               | (Inr f1, g1) \<Rightarrow> store_frame gp d f1 g1))))"

section \<open>Other goroutines\<close>

definition take_delivery :: "clock_delivery \<Rightarrow> 'd Gateway \<Rightarrow> 'd Gateway" where
  "take_delivery d g = (if worker_allowed g then g\<lparr>gw_active := gw_active g + 1\<rparr> else g\<lparr>gw_settled := gw_settled g @ [(d, NakedLater)]\<rparr>)"

definition finish_delivery :: "'d gw_params \<Rightarrow> clock_delivery \<Rightarrow> 'd Gateway \<Rightarrow> 'd Gateway" where
  "finish_delivery gp d g =
     (if gw_active g = 0 then g
      else case process gp d g of (x, g1) \<Rightarrow> g1\<lparr>gw_active := gw_active g1 - 1, gw_settled := gw_settled g1 @ [(d, x)]\<rparr>)"

primrec inter_step :: "'d gw_params \<Rightarrow> inter \<Rightarrow> 'd Gateway \<Rightarrow> 'd Gateway" where
  "inter_step gp (Enters c) g = snd (Enter c g)"
| "inter_step gp Leaves g = leave g"
| "inter_step gp (Takes d) g = take_delivery d g"
| "inter_step gp (Finishes d) g = finish_delivery gp d g"
| "inter_step gp StopRequested g = RequestStop g"

definition inters :: "'d gw_params \<Rightarrow> inter list \<Rightarrow> 'd Gateway \<Rightarrow> 'd Gateway" where
  "inters gp is g = fold (inter_step gp) is g"

definition ask :: "'d gw_params \<Rightarrow> 'd Gateway \<Rightarrow> answer \<times> 'd Gateway" where
  "ask gp g = (let a = gw_env g (gw_tick g) in (a, inters gp (an_between a) (g\<lparr>gw_tick := gw_tick g + 1\<rparr>)))"

section \<open>The worker loop\<close>

text \<open>One message as the worker meets it.\<close>

definition worker_turn :: "'d gw_params \<Rightarrow> clock_delivery \<Rightarrow> 'd Gateway \<Rightarrow> 'd Gateway" where
  "worker_turn gp d g = (if worker_allowed g then finish_delivery gp d (take_delivery d g) else take_delivery d g)"

text \<open>
  A round: what others do before it, whether the fetch fails, the messages of the batch, whether the batch ends in an error that
  is neither a timeout nor the lack of messages, and whether the context is done. A worker that may not fetch waits for a
  change. At the end of the list the context is done.
\<close>

record worker_round =
  wr_others :: "inter list"
  wr_fetch_fails :: bool
  wr_messages :: "clock_delivery list"
  wr_batch_fails :: bool
  wr_done :: bool

datatype worker_end = WorkerCancelled | WorkerFetchFailed | WorkerBatchFailed

fun gw_Run :: "'d gw_params \<Rightarrow> worker_round list \<Rightarrow> 'd Gateway \<Rightarrow> worker_end \<times> 'd Gateway" where
  "gw_Run gp [] g = (WorkerCancelled, g)"
| "gw_Run gp (w # ws) g0 =
     (let g = inters gp (wr_others w) g0 in
      if \<not> worker_allowed g then (if wr_done w then (WorkerCancelled, g) else gw_Run gp ws g)
      else if wr_fetch_fails w then (if wr_done w then WorkerCancelled else WorkerFetchFailed, g)
      else
        let g1 = fold (worker_turn gp) (wr_messages w) g in
        if wr_batch_fails w then (WorkerBatchFailed, g1)
        else if wr_done w then (WorkerCancelled, g1)
        else gw_Run gp ws g1)"

end
