(* ===== verification/Clock_Gateway.thy ===== *)
theory Clock_Gateway
  imports Clock_Worker
begin

text \<open>
  The clock gateway as admission gate and as connector (\<open>internal/clocksync/gateway.go\<close>, \<open>internal/clocksync/connector.go\<close>, \<open>internal/clocksync/run_context.go\<close>): the
  operations the resolver runtime calls, over the state the worker shares. Wherever an operation waits or calls out, other
  goroutines run in between.
\<close>

section \<open>The managed connector\<close>

record runtimeReceipt =
  rp_Capability :: string
  rp_Session :: string
  rp_Revision :: string
  rp_Hash :: string
  rp_Paused :: "bool option"

definition receipt_fields :: "(string \<times> runtimeReceipt field_decoder) list" where
  "receipt_fields =
     [(''capability'', dec_string (\<lambda>s r. r\<lparr>rp_Capability := s\<rparr>)), (''session'', dec_string (\<lambda>s r. r\<lparr>rp_Session := s\<rparr>)),
      (''revision'', dec_string (\<lambda>s r. r\<lparr>rp_Revision := s\<rparr>)), (''native_sha256'', dec_string (\<lambda>s r. r\<lparr>rp_Hash := s\<rparr>)),
      (''paused'', \<lambda>j r. case j of JBool b \<Rightarrow> Some (r\<lparr>rp_Paused := Some b\<rparr>) | JNull \<Rightarrow> Some (r\<lparr>rp_Paused := None\<rparr>) | _ \<Rightarrow> None)]"

definition decode_receipt :: "session_lib \<Rightarrow> string \<Rightarrow> runtimeReceipt option" where
  "decode_receipt lib d =
     (case json_read lib d of
        None \<Rightarrow> None
      | Some j \<Rightarrow> dec_struct receipt_fields j \<lparr>rp_Capability = [], rp_Session = [], rp_Revision = [], rp_Hash = [], rp_Paused = None\<rparr>)"

definition receipt_ok :: "sessionRecord \<Rightarrow> runtimeReceipt \<Rightarrow> bool" where
  "receipt_ok r p \<longleftrightarrow> rp_Capability p = ''clock-runtime/1'' \<and> rp_Session p = sr_Session r \<and> rp_Revision p = Snapshot_Revision (sr_snapshot r)
     \<and> rp_Hash p = sr_nativeHash r \<and> rp_Paused p \<noteq> None"

definition request_data :: "session_lib \<Rightarrow> string \<Rightarrow> sessionRecord \<Rightarrow> string" where
  "request_data lib action r = json_write lib (JObj [(''action'', JStr action), (''native_sha256'', JStr (sr_nativeHash r)),
     (''revision'', JStr (Snapshot_Revision (sr_snapshot r))), (''session'', JStr (sr_Session r))])"

text \<open>The record the producer points to.\<close>

definition gw_current :: "'d Gateway \<Rightarrow> sessionRecord option" where
  "gw_current g = (case gw_record g of None \<Rightarrow> None | Some i \<Rightarrow> session_get i (gw_store g))"

text \<open>Requests are repeated until one is answered or the context is done, at the end of the replies. The receipt comes with whether the producer is paused.\<close>

definition first_reply :: "string option list \<Rightarrow> string option" where
  "first_reply rs = (case dropWhile (\<lambda>r. r = None) rs of [] \<Rightarrow> None | r # _ \<Rightarrow> r)"

definition gw_request :: "'d gw_params \<Rightarrow> string \<Rightarrow> 'd Gateway \<Rightarrow> (rt_error + string \<times> bool) \<times> 'd Gateway" where
  "gw_request gp action g =
     (case gw_current g of
        None \<Rightarrow> (Inl ConnectorFailed, g)
      | Some r \<Rightarrow>
        (case ask gp (g\<lparr>gw_requests := gw_requests g @ [(''cfg.bacnet.'' @ cs_ID (gw_base g) @ ''.runtime'', request_data (gp_lib gp) action r)]\<rparr>) of
           (a, g1) \<Rightarrow>
           (case first_reply (an_replies a) of
              None \<Rightarrow> (Inl ContextDone, g1)
            | Some d \<Rightarrow>
              (case decode_receipt (gp_lib gp) d of
                 None \<Rightarrow> (Inl ConnectorFailed, g1)
               | Some p \<Rightarrow> if \<not> receipt_ok r p then (Inl ConnectorFailed, g1) else (Inr (rp_Revision p, the (rp_Paused p)), g1)))))"

definition producer_Stop :: "'d gw_params \<Rightarrow> 'd Gateway rt_op" where
  "producer_Stop gp g0 =
     (case ask gp g0 of (_, g) \<Rightarrow>
      (case Exclusive_Stop (gp_docker gp) (gw_owner g) (gw_manager g) of
         (None, e, m) \<Rightarrow> (None, g\<lparr>gw_owner := e, gw_manager := m, gw_started := False, gw_discovered := True\<rparr>)
       | (Some _, e, m) \<Rightarrow> (Some ConnectorFailed, g\<lparr>gw_owner := e, gw_manager := m\<rparr>)))"

definition reserved_env :: "string list" where
  "reserved_env = [''BACNET_POINTS'', ''BACNET_CLOCK_CONFIG_FILE'', ''BACNET_MANAGED_SESSION'', ''BACNET_COV_ENABLED'', ''BACNET_DEVICE_ID'', ''CONNECTOR_ID'']"

definition managed_spec :: "session_lib \<Rightarrow> string \<Rightarrow> string \<Rightarrow> string \<Rightarrow> int \<Rightarrow> ConnectorSpec \<Rightarrow> ConnectorSpec" where
  "managed_spec lib dir session auth device base =
     base\<lparr>cs_Env := filter (\<lambda>e. fst (Cut e) \<notin> set reserved_env) (cs_Env base)
            @ [''BACNET_CLOCK_CONFIG_FILE='' @ path_join lib [dir, ''native'', session @ ''.json''], ''BACNET_MANAGED_SESSION='' @ session,
               ''BACNET_COV_ENABLED=false'', ''BACNET_DEVICE_ID='' @ format_integer lib device],
          cs_Permissions := (cs_Permissions base)\<lparr>cp_Mounts := cp_Mounts (cs_Permissions base) @ [path_join lib [dir, ''native''], auth]\<rparr>\<rparr>"

definition producer_Configure :: "'d gw_params \<Rightarrow> NativeClockConfig \<Rightarrow> 'd Gateway rt_op" where
  "producer_Configure gp n g =
     (case gw_current g of
        None \<Rightarrow> (Some ConnectorFailed, g)
      | Some r \<Rightarrow>
        if ncc_Revision n \<noteq> Snapshot_Revision (sr_snapshot r) then (Some ConnectorFailed, g)
        else (case ConnectorNATSAuthFile (gp_lib gp) (gp_regular gp) (gw_base g) of
           None \<Rightarrow> (Some ConnectorFailed, g)
         | Some auth \<Rightarrow>
           (case Configure (managed_spec (gp_lib gp) (gw_dir g) (sr_Session r) auth (ncc_DeviceID n) (gw_base g)) (gw_owner g) (gw_manager g) of
              (None, m) \<Rightarrow> (None, g\<lparr>gw_manager := m\<rparr>)
            | (Some _, m) \<Rightarrow> (Some ConnectorFailed, g\<lparr>gw_manager := m\<rparr>))))"

definition producer_Start :: "'d gw_params \<Rightarrow> 'd Gateway rt_op" where
  "producer_Start gp g0 =
     (if gw_stopping g0 then (Some GateFailed, g0)
      else case ask gp (g0\<lparr>gw_started := True\<rparr>) of (_, g) \<Rightarrow>
      (case Exclusive_Start (gp_docker gp) (gp_config gp) (gw_owner g) (gw_manager g) of
         (None, e, m) \<Rightarrow> (None, g\<lparr>gw_owner := e, gw_manager := m\<rparr>)
       | (Some _, e, m) \<Rightarrow> (Some ConnectorFailed, g\<lparr>gw_owner := e, gw_manager := m\<rparr>)))"

definition producer_Revision :: "'d gw_params \<Rightarrow> 'd Gateway \<Rightarrow> (rt_error + string) \<times> 'd Gateway" where
  "producer_Revision gp g =
     (case gw_request gp ''status'' g of
        (Inl e, g1) \<Rightarrow> (Inl e, g1)
      | (Inr (v, paused), g1) \<Rightarrow>
        if \<not> paused then (Inl ConnectorFailed, g1)
        else (case gw_current g1 of
           None \<Rightarrow> (Inl ConnectorFailed, g1)
         | Some r \<Rightarrow>
           (case ask gp g1 of (a, g2) \<Rightarrow>
            (case session_verify (an_write a) r (gw_store g2, gw_fs g2) of
               (False, ss, fs) \<Rightarrow> (Inl ConnectorFailed, g2\<lparr>gw_store := ss, gw_fs := fs\<rparr>)
             | (True, ss, fs) \<Rightarrow> (Inr v, g2\<lparr>gw_store := ss, gw_fs := fs\<rparr>)))))"

section \<open>The gate\<close>

text \<open>The wait for active operations: over when none is left; at the end of the list the context is done.\<close>

fun await_idle :: "'d gw_params \<Rightarrow> inter list list \<Rightarrow> 'd Gateway \<Rightarrow> bool \<times> 'd Gateway" where
  "await_idle gp [] g = (gw_active g = 0 \<and> gw_commands g = 0, g)"
| "await_idle gp (is # iss) g = (if gw_active g = 0 \<and> gw_commands g = 0 then (True, g) else await_idle gp iss (inters gp is g))"

definition quiesce :: "'d gw_params \<Rightarrow> 'd Gateway rt_op" where
  "quiesce gp g =
     (if \<not> gw_started g then (None, g)
      else case gw_request gp ''quiesce'' g of
        (Inl e, g1) \<Rightarrow> (Some e, snd (producer_Stop gp g1))
      | (Inr (_, paused), g1) \<Rightarrow> (if paused then None else Some ConnectorFailed, g1))"

definition gw_Hold :: "'d gw_params \<Rightarrow> 'd Gateway rt_op" where
  "gw_Hold gp g0 =
     (case ask gp (g0\<lparr>gw_held := True\<rparr>) of (a, g1) \<Rightarrow>
      (case await_idle gp (an_waits a) g1 of
         (False, g2) \<Rightarrow> (Some ContextDone, g2)
       | (True, g2) \<Rightarrow>
         if gw_discovered g2 then quiesce gp g2
         else (case producer_Stop gp g2 of
            (Some e, g3) \<Rightarrow> (Some e, g3)
          | (None, g3) \<Rightarrow> quiesce gp g3)))"

fun drain_loop :: "'d gw_params \<Rightarrow> ((nat \<times> nat) option \<times> inter list) list \<Rightarrow> 'd Gateway rt_op" where
  "drain_loop gp [] g = (Some ContextDone, g)"
| "drain_loop gp ((info, is) # xs) g =
     (case info of
        None \<Rightarrow> (Some GateFailed, g)
      | Some (pending, unacked) \<Rightarrow>
        if pending = 0 \<and> unacked = 0 \<and> gw_active g = 0 then (None, g) else drain_loop gp xs (inters gp is g))"

definition gw_Drain :: "'d gw_params \<Rightarrow> 'd Gateway rt_op" where
  "gw_Drain gp g0 =
     (case ask gp (g0\<lparr>gw_draining := True\<rparr>) of (a, g1) \<Rightarrow>
      (case drain_loop gp (an_infos a) g1 of (x, g2) \<Rightarrow> (x, g2\<lparr>gw_draining := False\<rparr>)))"

section \<open>Runs\<close>

definition config_fields :: "(string \<times> RunContextConfig field_decoder) list" where
  "config_fields = [(''clockId'', dec_string (\<lambda>s c. c\<lparr>rcc_ClockID := s\<rparr>)), (''envelopeFile'', dec_string (\<lambda>s c. c\<lparr>rcc_EnvelopeFile := s\<rparr>)),
     (''ledgerFile'', dec_string (\<lambda>s c. c\<lparr>rcc_LedgerFile := s\<rparr>))]"

definition decode_config :: "session_lib \<Rightarrow> string \<Rightarrow> RunContextConfig option" where
  "decode_config lib raw =
     (case json_first lib raw of
        None \<Rightarrow> None
      | Some (j, _) \<Rightarrow> dec_struct_strict config_fields j \<lparr>rcc_ClockID = [], rcc_EnvelopeFile = [], rcc_LedgerFile = []\<rparr>)"

text \<open>\<open>disk\<close> reads the operator's files, \<open>w\<close> is how the ledger's write ends, \<open>dirs\<close> whether the directories can be made; what the ledger's file holds afterwards is returned as well.\<close>

definition EnableRunContextFile :: "session_lib \<Rightarrow> (string \<Rightarrow> string option) \<Rightarrow> write_end \<Rightarrow> gotime \<Rightarrow> bool \<Rightarrow> string \<Rightarrow> 'd Gateway \<Rightarrow> bool \<times> 'd Gateway \<times> string option" where
  "EnableRunContextFile lib disk w now dirs path g =
     (if \<not> gw_held g \<or> gw_record g \<noteq> None \<or> gw_run g \<noteq> None then (False, g, None)
      else case Option.bind (disk path) (decode_config lib) of
        None \<Rightarrow> (False, g, None)
      | Some cfg \<Rightarrow>
        if rcc_ClockID cfg = [] \<or> \<not> IsAbs (rcc_EnvelopeFile cfg) \<or> \<not> IsAbs (rcc_LedgerFile cfg) then (False, g, None)
        else (case Ledger_Open (run_lib.truncate lib) (disk (rcc_LedgerFile cfg))
                    \<lparr>sc_GatewayID = cs_GatewayID (ss_scope (gw_store g)), sc_ClockID = rcc_ClockID cfg\<rparr> of
           Inl e \<Rightarrow> (False, g, disk (rcc_LedgerFile cfg))
         | Inr l \<Rightarrow>
           (case Option.bind (Option.bind (disk (rcc_EnvelopeFile cfg)) (json_read lib)) (\<lambda>j. dec_struct (envelope_fields (run_lib.truncate lib)) j []) of
              None \<Rightarrow> (False, g, disk (rcc_LedgerFile cfg))
            | Some env \<Rightarrow>
              (case Ledger_Commit (run_lib.truncate lib) w env now (l, disk (rcc_LedgerFile cfg)) of
                 (Some e, _, d1) \<Rightarrow> (False, g, d1)
               | (None, l1, d1) \<Rightarrow>
                 if \<not> dirs then (False, g, d1) else (True, g\<lparr>gw_run := Some \<lparr>rb_config = cfg, rb_ledger = l1, rb_disk = d1\<rparr>\<rparr>, d1)))))"

definition validateRunSnapshot :: "ClockSnapshot \<Rightarrow> 'd Gateway \<Rightarrow> bool" where
  "validateRunSnapshot s g =
     (case gw_run g of
        None \<Rightarrow> True
      | Some rb \<Rightarrow>
        (case Ledger_Current (rb_ledger rb) of
           Inl e \<Rightarrow> False
         | Inr c \<Rightarrow> rc_ProvisioningRevision c = Snapshot_Revision s \<and> rcc_ClockID (rb_config rb) \<in> nc_ClockID ` set (ncc_Clocks (cls_native s))))"

text \<open>The clock is set in the record the store holds, before the record is written.\<close>

definition set_run_clock :: "string \<Rightarrow> sessionRecord \<Rightarrow> 'd Gateway \<Rightarrow> 'd Gateway" where
  "set_run_clock clock r g =
     g\<lparr>gw_store := (gw_store g)\<lparr>ss_records := AList.update (sr_Session r) (r\<lparr>sr_RunClockID := clock\<rparr>) (ss_records (gw_store g))\<rparr>\<rparr>"

definition activateRunSession :: "'d gw_params \<Rightarrow> sessionRecord \<Rightarrow> 'd Gateway rt_op" where
  "activateRunSession gp r g =
     (case gw_run g of
        None \<Rightarrow> (None, g)
      | Some rb \<Rightarrow>
        let lib = gp_lib gp; a = gw_env g (gw_tick g) in
        (case Ledger_Apply (run_lib.truncate lib) (an_write a) (an_now a) (rb_ledger rb, rb_disk rb) of
           (Some e, l, d) \<Rightarrow> (Some GateFailed, g\<lparr>gw_run := Some (rb\<lparr>rb_ledger := l, rb_disk := d\<rparr>)\<rparr>)
         | (None, l, d) \<Rightarrow>
           let g1 = g\<lparr>gw_run := Some (rb\<lparr>rb_ledger := l, rb_disk := d\<rparr>)\<rparr>; cp = run_context_path (sr_Session r) in
           (case Archive (run_lib.truncate lib) (an_create a) (an_now a) l (map_of (gw_fs g1) cp) of
              (e, file) \<Rightarrow>
              let g2 = g1\<lparr>gw_fs := (case file of None \<Rightarrow> gw_fs g1 | Some raw \<Rightarrow> AList.update cp raw (gw_fs g1))\<rparr> in
              if e \<noteq> None then (Some GateFailed, g2)
              else
                let r1 = r\<lparr>sr_RunClockID := rcc_ClockID (rb_config rb)\<rparr>; g3 = set_run_clock (rcc_ClockID (rb_config rb)) r g2 in
                (case marshal_record lib r1 of
                   None \<Rightarrow> (Some GateFailed, g3)
                 | Some raw \<Rightarrow>
                   (case atomicFile (an_write2 a) (session_path (sr_Session r)) raw (gw_fs g3) of
                      (ok, fs) \<Rightarrow> (if ok then None else Some GateFailed, g3\<lparr>gw_fs := fs\<rparr>))))))"

section \<open>Preparation and resumption\<close>

definition gw_Prepare :: "'d gw_params \<Rightarrow> ClockSnapshot \<Rightarrow> 'd Gateway rt_op" where
  "gw_Prepare gp s g0 =
     (case ask gp g0 of (a, g) \<Rightarrow>
      if \<not> validateRunSnapshot s g then (Some PrepareFailed, g)
      else (case create (gp_lib gp) (an_random a) (an_write a) (an_write2 a) s (gw_store g, gw_fs g) of
         (Inl e, ss, fs) \<Rightarrow> (Some PrepareFailed, g\<lparr>gw_store := ss, gw_fs := fs\<rparr>)
       | (Inr i, ss, fs) \<Rightarrow> (None, g\<lparr>gw_store := ss, gw_fs := fs, gw_record := Some i\<rparr>)))"

text \<open>After the producer has resumed: the session becomes the last good one and the gate opens, unless a stop was requested.\<close>

definition open_gate :: "'d gw_params \<Rightarrow> 'd Gateway rt_op" where
  "open_gate gp g =
     (if gw_stopping g then (Some GateFailed, g)
      else case gw_current g of
        None \<Rightarrow> (Some ConnectorFailed, g)
      | Some r \<Rightarrow>
        (case session_commit (an_write (gw_env g (gw_tick g))) r (gw_fs g) of
           (False, fs) \<Rightarrow> (Some GateFailed, g\<lparr>gw_fs := fs\<rparr>)
         | (True, fs) \<Rightarrow>
           (case ask gp (g\<lparr>gw_fs := fs\<rparr>) of (_, g1) \<Rightarrow>
            if gw_stopping g1 then (Some GateFailed, g1) else (None, g1\<lparr>gw_held := False\<rparr>))))"

definition gw_Resume :: "'d gw_params \<Rightarrow> 'd Gateway rt_op" where
  "gw_Resume gp g0 =
     (case ask gp g0 of (_, g) \<Rightarrow>
      if gw_stopping g then (Some GateFailed, g)
      else case gw_current g of
        None \<Rightarrow> (Some ConnectorFailed, g)
      | Some r \<Rightarrow>
        (case activateRunSession gp r g of
           (Some e, g1) \<Rightarrow> (Some e, g1)
         | (None, g1) \<Rightarrow>
           (case gw_request gp ''resume'' g1 of
              (Inl e, g2) \<Rightarrow> (Some e, g2)
            | (Inr (_, paused), g2) \<Rightarrow> if paused then (Some ConnectorFailed, g2) else open_gate gp g2)))"

section \<open>The whole\<close>

definition gw_Done :: "'d gw_params \<Rightarrow> 'd Gateway \<Rightarrow> bool \<times> 'd Gateway" where
  "gw_Done gp g = (case ask gp g of (a, g1) \<Rightarrow> (an_done a, g1))"

definition gateway_ops :: "'d gw_params \<Rightarrow> 'd Gateway world_ops" where
  "gateway_ops gp = \<lparr>wo_Hold = gw_Hold gp, wo_Drain = gw_Drain gp, wo_Resume = gw_Resume gp, wo_Stop = producer_Stop gp, wo_Prepare = gw_Prepare gp,
     wo_Configure = producer_Configure gp, wo_Start = producer_Start gp, wo_Revision = producer_Revision gp, wo_Done = gw_Done gp\<rparr>"

definition Shutdown :: "'d gw_params \<Rightarrow> 'd Gateway rt_op" where
  "Shutdown gp g =
     (case gw_Hold gp (RequestStop g) of (hold, g1) \<Rightarrow>
      (case producer_Stop gp g1 of
         (Some e, g2) \<Rightarrow> (Some e, g2)
       | (None, g2) \<Rightarrow>
         (case gw_Done gp g2 of (over, g3) \<Rightarrow> if hold \<noteq> None \<and> over then (hold, g3) else gw_Drain gp g3)))"

definition gw_LastGood :: "(string list \<Rightarrow> bool) \<Rightarrow> 'd Gateway \<Rightarrow> session_error + ClockSnapshot option" where
  "gw_LastGood bad g = lastGood bad (gw_store g, gw_fs g)"

text \<open>\<open>client\<close>, \<open>setup_ok\<close>, \<open>consumer\<close>: there is a container engine, the directories can be made, the consumer is created.\<close>

definition NewGateway :: "'d gw_params \<Rightarrow> bool \<Rightarrow> bool \<Rightarrow> bool \<Rightarrow> (string list \<Rightarrow> bool) \<Rightarrow> 'd Manager \<Rightarrow> ConnectorSpec \<Rightarrow> string \<Rightarrow> ClockScope \<Rightarrow> clock_fs
    \<Rightarrow> Buffer \<Rightarrow> (nat \<Rightarrow> answer) \<Rightarrow> 'd Gateway option \<times> 'd Manager" where
  "NewGateway gp client setup_ok consumer bad m spec dir scope fs b env =
     (if cs_ID spec \<noteq> cs_ConnectorID scope \<or> ConnectorNATSAuthFile (gp_lib gp) (gp_regular gp) spec = None then (None, m)
      else case openSessions (gp_lib gp) setup_ok bad dir scope fs of
        Inl e \<Rightarrow> (None, m)
      | Inr ss \<Rightarrow>
        (case Claim client spec m of
           (Inl e, m1) \<Rightarrow> (None, m1)
         | (Inr owner, m1) \<Rightarrow>
           if \<not> consumer then (None, m1)
           else (Some \<lparr>gw_run = None, gw_held = True, gw_draining = False, gw_active = 0, gw_commands = 0, gw_stopping = False, gw_dir = dir,
                  gw_store = ss, gw_fs = fs, gw_buffer = b, gw_recent = [], gw_settled = [], gw_manager = m1, gw_owner = owner, gw_base = spec,
                  gw_record = None, gw_started = False, gw_discovered = False, gw_requests = [], gw_env = env, gw_tick = 0\<rparr>, m1)))"

end
