(* ===== verification/Clock_Controller_Facts.thy ===== *)
theory Clock_Controller_Facts
  imports Clock_Controller
begin

text \<open>
  What the clock provisioning transaction keeps. The contract of a runtime is a locale, in which the controller
  is shown to keep admission closed unless what it reports as applied is what the runtime serves; the contract
  of the gate and the connector is another, and gives the first for the resolver runtime.
\<close>

section \<open>Histories\<close>

text \<open>What happens to a controller: a synchronisation, the recovery of the last good snapshot, or something beside it.\<close>

datatype 'i ct_event = Synced bool "string \<Rightarrow> clock_error + ClockSnapshot option" | Restored "ClockSnapshot option" | Beside 'i

primrec ct_event_step :: "clock_lib \<Rightarrow> 'r Runtime \<Rightarrow> ('i \<Rightarrow> 'r \<Rightarrow> 'r) \<Rightarrow> 'i ct_event \<Rightarrow> 'r Controller \<Rightarrow> 'r Controller" where
  "ct_event_step lib rt other (Synced busy source) c = snd (Sync lib rt busy source c)"
| "ct_event_step lib rt other (Restored s) c = snd (RestoreLastGood lib s c)"
| "ct_event_step lib rt other (Beside i) c = c\<lparr>ct_rt := other i (ct_rt c)\<rparr>"

definition ct_history :: "clock_lib \<Rightarrow> 'r Runtime \<Rightarrow> ('i \<Rightarrow> 'r \<Rightarrow> 'r) \<Rightarrow> 'i ct_event list \<Rightarrow> 'r Controller \<Rightarrow> 'r Controller" where
  "ct_history lib rt other es c = fold (ct_event_step lib rt other) es c"

text \<open>
  What is reported as applied is the last good snapshot, and it is served; when nothing is, admission is closed, as
  it is before the first synchronisation.
\<close>

definition honest :: "('r \<Rightarrow> bool) \<Rightarrow> (ClockSnapshot \<Rightarrow> 'r \<Rightarrow> bool) \<Rightarrow> 'r Controller \<Rightarrow> bool" where
  "honest admits serves c \<longleftrightarrow>
     (if AppliedRevision c = [] then \<not> admits (ct_rt c)
      else ct_initialized c \<and> (\<exists>s. ct_good c = Some s \<and> serves s (ct_rt c) \<and> AppliedRevision c = Snapshot_Revision s))"

section \<open>Steps\<close>

lemmas ct_simps = ct_phase_def ct_update_def ct_fail_def AppliedRevision_def

text \<open>Every step leaves the controller's own data alone.\<close>

lemma ct_step_frame:
  "ct_step rt p f c = (x, c') \<Longrightarrow> ct_good c' = ct_good c \<and> AppliedRevision c' = AppliedRevision c \<and> ct_initialized c' = ct_initialized c"
  by (auto simp: ct_step_def ct_simps split: prod.splits bool.splits option.splits)

lemma ct_steps_frame:
  "ct_steps rt fs c = (x, c') \<Longrightarrow> ct_good c' = ct_good c \<and> AppliedRevision c' = AppliedRevision c \<and> ct_initialized c' = ct_initialized c"
proof (induction rt fs c rule: ct_steps.induct)
  case (2 rt p f fs c)
  then show ?case by (cases "ct_step rt p f c") (auto split: option.splits dest!: ct_step_frame)
qed simp

lemma ct_apply_frame:
  "ct_apply rt s c = (x, c') \<Longrightarrow> ct_good c' = ct_good c \<and> AppliedRevision c' = [] \<and> ct_initialized c' = ct_initialized c"
  unfolding ct_apply_def by (drule ct_steps_frame) (simp add: ct_simps)

lemma ct_step_ok:
  assumes "ct_step rt p f c = (None, c')"
  shows "fst (f (snd (rt_Done rt (ct_rt c)))) = None \<and> ct_rt c' = snd (f (snd (rt_Done rt (ct_rt c))))"
  using assms by (auto simp: ct_step_def ct_simps split: prod.splits bool.splits option.splits)

lemma ct_step_fails:
  assumes "ct_step rt p f c = (Some e, c')"
  shows "ct_rt c' = snd (rt_Done rt (ct_rt c)) \<or> ((\<exists>e. fst (f (snd (rt_Done rt (ct_rt c)))) = Some e) \<and> ct_rt c' = snd (f (snd (rt_Done rt (ct_rt c)))))"
  using assms by (auto simp: ct_step_def ct_simps split: prod.splits bool.splits option.splits)

text \<open>A sequence of steps, by its first.\<close>

lemma ct_steps_ok: "ct_steps rt ((p, f) # fs) c = (None, c') \<longleftrightarrow> (\<exists>c1. ct_step rt p f c = (None, c1) \<and> ct_steps rt fs c1 = (None, c'))"
  by (cases "ct_step rt p f c") (auto split: option.splits)

lemma ct_steps_fails:
  "ct_steps rt ((p, f) # fs) c = (Some e, c') \<longleftrightarrow> ct_step rt p f c = (Some e, c') \<or> (\<exists>c1. ct_step rt p f c = (None, c1) \<and> ct_steps rt fs c1 = (Some e, c'))"
  by (cases "ct_step rt p f c") (auto split: option.splits)

lemma rt_calls_ok: "rt_calls (f # fs) r = (None, r') \<longleftrightarrow> fst (f r) = None \<and> rt_calls fs (snd (f r)) = (None, r')"
  by (cases "f r") (auto split: option.splits)

section \<open>The contract of a runtime\<close>

text \<open>
  \<open>admits\<close>: admission is open. \<open>set_up\<close>, \<open>proven\<close> and \<open>serves\<close>: a snapshot is configured, verified and resumed. \<open>other\<close> is
  anything that happens beside the controller.
\<close>

locale clock_runtime =
  fixes rt :: "'r Runtime"
    and admits :: "'r \<Rightarrow> bool"
    and set_up :: "ClockSnapshot \<Rightarrow> 'r \<Rightarrow> bool"
    and proven :: "ClockSnapshot \<Rightarrow> 'r \<Rightarrow> bool"
    and serves :: "ClockSnapshot \<Rightarrow> 'r \<Rightarrow> bool"
    and other :: "'i \<Rightarrow> 'r \<Rightarrow> 'r"
  assumes hold_closes: "\<not> admits (snd (rt_Hold rt r))"
    and stop_closed: "\<not> admits r \<Longrightarrow> \<not> admits (snd (rt_Stop rt r))"
    and drain_closed: "\<not> admits r \<Longrightarrow> \<not> admits (snd (rt_Drain rt r))"
    and configure_closed: "\<not> admits r \<Longrightarrow> \<not> admits (snd (rt_Configure rt s r))"
    and start_closed: "\<not> admits r \<Longrightarrow> \<not> admits (snd (rt_Start rt r))"
    and verify_closed: "\<not> admits r \<Longrightarrow> \<not> admits (snd (rt_Verify rt v r))"
    and resume_closed: "\<not> admits r \<Longrightarrow> fst (rt_Resume rt r) = Some e \<Longrightarrow> \<not> admits (snd (rt_Resume rt r))"
    and done_closed: "\<not> admits r \<Longrightarrow> \<not> admits (snd (rt_Done rt r))"
    and other_closed: "\<not> admits r \<Longrightarrow> \<not> admits (other i r)"
    and configure_sets: "fst (rt_Configure rt s r) = None \<Longrightarrow> set_up s (snd (rt_Configure rt s r))"
    and start_keeps: "set_up s r \<Longrightarrow> fst (rt_Start rt r) = None \<Longrightarrow> set_up s (snd (rt_Start rt r))"
    and verify_proves: "set_up s r \<Longrightarrow> fst (rt_Verify rt (Snapshot_Revision s) r) = None \<Longrightarrow> proven s (snd (rt_Verify rt (Snapshot_Revision s) r))"
    and resume_serves: "proven s r \<Longrightarrow> fst (rt_Resume rt r) = None \<Longrightarrow> serves s (snd (rt_Resume rt r))"
    and done_set_up: "set_up s r \<Longrightarrow> set_up s (snd (rt_Done rt r))"
    and done_proven: "proven s r \<Longrightarrow> proven s (snd (rt_Done rt r))"
    and other_serves: "serves s r \<Longrightarrow> serves s (other i r)"
    and serves_revision: "serves s r \<Longrightarrow> Snapshot_Revision s \<noteq> []"
begin

text \<open>An apply that ends without an error leaves the snapshot served.\<close>

lemma ct_apply_ok:
  assumes "ct_apply rt s c = (None, c')"
  shows "serves s (ct_rt c')"
proof -
  from assms obtain c3 c4 c5 c6 where c:
    "ct_step rt ''configuring'' (rt_Configure rt s) c3 = (None, c4)" "ct_step rt ''starting'' (rt_Start rt) c4 = (None, c5)"
    "ct_step rt ''verifying'' (rt_Verify rt (Snapshot_Revision s)) c5 = (None, c6)" "ct_step rt ''resuming'' (rt_Resume rt) c6 = (None, c')"
    unfolding ct_apply_def ct_steps_ok by auto
  from ct_step_ok [OF c(1)] configure_sets have "set_up s (ct_rt c4)" by simp
  with ct_step_ok [OF c(2)] start_keeps [OF done_set_up] have "set_up s (ct_rt c5)" by simp
  with ct_step_ok [OF c(3)] verify_proves [OF done_set_up] have "proven s (ct_rt c6)" by simp
  with ct_step_ok [OF c(4)] resume_serves [OF done_proven] show ?thesis by simp
qed

text \<open>One that ends with an error after the gate was told to hold leaves admission closed.\<close>

lemma ct_steps_fail_closed:
  assumes "ct_steps rt fs c = (Some e, c')" "\<not> admits (ct_rt c)"
    "\<forall>(p, f) \<in> set fs. \<forall>r. \<not> admits r \<longrightarrow> fst (f r) \<noteq> None \<longrightarrow> \<not> admits (snd (f r))"
    "\<forall>(p, f) \<in> set (butlast fs). \<forall>r. \<not> admits r \<longrightarrow> \<not> admits (snd (f r))"
  shows "\<not> admits (ct_rt c')"
  using assms
proof (induction fs arbitrary: c)
  case (Cons pf fs)
  obtain p f where pf: "pf = (p, f)" by fastforce
  have d: "\<not> admits (snd (rt_Done rt (ct_rt c)))" using Cons.prems(2) by (rule done_closed)
  from Cons.prems(1) consider "ct_step rt p f c = (Some e, c')" | c1 where "ct_step rt p f c = (None, c1)" "ct_steps rt fs c1 = (Some e, c')"
    unfolding pf ct_steps_fails by blast
  then show ?case
  proof cases
    case 1
    from ct_step_fails [OF 1] d Cons.prems(3) pf show ?thesis by auto
  next
    case 2
    then have ne: "fs \<noteq> []" by auto
    with ct_step_ok [OF 2(1)] d Cons.prems(4) pf have "\<not> admits (ct_rt c1)" by auto
    with Cons.IH [OF 2(2)] Cons.prems(3,4) ne show ?thesis by simp
  qed
qed simp

lemma ct_apply_fails_closed:
  assumes "ct_apply rt s c = (Some e, c')" "e \<noteq> StepFailed ''holding'' ContextDone"
  shows "\<not> admits (ct_rt c')"
proof -
  let ?fs = "[(''stopping'', rt_Stop rt), (''draining'', rt_Drain rt), (''configuring'', rt_Configure rt s),
     (''starting'', rt_Start rt), (''verifying'', rt_Verify rt (Snapshot_Revision s)), (''resuming'', rt_Resume rt)]"
  from assms(1) consider c0 where "ct_step rt ''holding'' (rt_Hold rt) c0 = (Some e, c')"
    | c0 c1 where "ct_step rt ''holding'' (rt_Hold rt) c0 = (None, c1)" "ct_steps rt ?fs c1 = (Some e, c')"
    unfolding ct_apply_def ct_steps_fails by blast
  then show ?thesis
  proof cases
    case 1
    with assms(2) hold_closes show ?thesis
      by (auto simp: ct_step_def ct_simps split: prod.splits bool.splits option.splits) (metis snd_conv)
  next
    case 2
    from ct_step_ok [OF 2(1)] hold_closes have "\<not> admits (ct_rt c1)" by simp
    with 2(2) show ?thesis
      by (rule ct_steps_fail_closed)
        (auto simp: stop_closed drain_closed configure_closed start_closed verify_closed dest: resume_closed)
  qed
qed

text \<open>A rollback ends with the last good snapshot served, or with nothing applied and admission closed.\<close>

lemma rollback_fail_outcome:
  assumes "rollback_fail rt e c = (x, c')"
  shows "AppliedRevision c' = [] \<and> \<not> admits (ct_rt c') \<and> ct_good c' = ct_good c \<and> ct_initialized c' = ct_initialized c"
  using assms stop_closed [OF hold_closes] by (auto simp: rollback_fail_def ct_simps)

lemma three_calls_closed: "rt_calls [rt_Hold rt, rt_Stop rt, rt_Drain rt] r = (None, r') \<Longrightarrow> \<not> admits r'"
  unfolding rt_calls_ok by (auto simp: hold_closes stop_closed drain_closed)

lemma four_calls_serve:
  assumes "rt_calls [rt_Configure rt g, rt_Start rt, rt_Verify rt (Snapshot_Revision g), rt_Resume rt] r = (None, r')"
  shows "serves g r'"
  using assms unfolding rt_calls_ok by (auto intro: resume_serves verify_proves start_keeps configure_sets)

lemma ct_rollback_outcome:
  assumes "ct_rollback rt c = (x, c')" "AppliedRevision c = []"
  shows "ct_good c' = ct_good c \<and> ct_initialized c' = ct_initialized c
    \<and> (AppliedRevision c' = [] \<and> \<not> admits (ct_rt c') \<or> (\<exists>g. ct_good c = Some g \<and> serves g (ct_rt c') \<and> AppliedRevision c' = Snapshot_Revision g))"
proof -
  define c0 where "c0 = ct_phase ''rolling_back'' c"
  have c0: "ct_good c0 = ct_good c" "ct_initialized c0 = ct_initialized c" "AppliedRevision c0 = []"
    using assms(2) by (simp_all add: c0_def ct_simps)
  obtain y r where three: "rt_calls [rt_Hold rt, rt_Stop rt, rt_Drain rt] (ct_rt c0) = (y, r)" by fastforce
  note roll = assms(1) [unfolded ct_rollback_def Let_def c0_def [symmetric] three]
  show ?thesis
  proof (cases y)
    case (Some e)
    with roll have "rollback_fail rt e (c0\<lparr>ct_rt := r\<rparr>) = (x, c')" by simp
    from rollback_fail_outcome [OF this] c0 show ?thesis by simp
  next
    case None
    note closed = three_calls_closed [OF three [unfolded None]]
    show ?thesis
    proof (cases "ct_good c")
      case gn: None
      with roll None c0 closed show ?thesis by (auto simp: ct_simps)
    next
      case (Some g)
      obtain z r' where four: "rt_calls [rt_Configure rt g, rt_Start rt, rt_Verify rt (Snapshot_Revision g), rt_Resume rt] r = (z, r')" by fastforce
      show ?thesis
      proof (cases z)
        case (Some e)
        with roll None \<open>ct_good c = Some g\<close> c0 four have "rollback_fail rt e (c0\<lparr>ct_rt := r'\<rparr>) = (x, c')" by simp
        from rollback_fail_outcome [OF this] c0 show ?thesis by simp
      next
        case zn: None
        from four_calls_serve [OF four [unfolded zn]] roll None Some c0 four zn show ?thesis by (auto simp: ct_simps)
      qed
    qed
  qed
qed

section \<open>Synchronisations\<close>

lemma sync_apply_honest:
  assumes "honest admits serves c" "ct_initialized c" "sync_apply rt d c = (x, c')"
  shows "honest admits serves c'"
proof (cases "AppliedRevision c = Snapshot_Revision d")
  case True
  with assms show ?thesis by (auto simp: sync_apply_def honest_def ct_simps)
next
  case False
  obtain y c1 where ap: "ct_apply rt d (ct_phase ''staged'' c) = (y, c1)" by fastforce
  from ct_apply_frame [OF ap] assms(2) have c1: "AppliedRevision c1 = []" "ct_initialized c1" by (simp_all add: ct_simps)
  show ?thesis
  proof (cases y)
    case None
    from ct_apply_ok [OF ap [unfolded None]] serves_revision False assms(3) ap None c1 show ?thesis
      by (auto simp: sync_apply_def honest_def ct_simps)
  next
    case (Some e)
    obtain z c2 where rb: "ct_rollback rt c1 = (z, c2)" by fastforce
    have "honest admits serves c2"
      using ct_rollback_outcome [OF rb c1(1)] c1(2) by (auto simp: honest_def dest: serves_revision)
    with False assms(3) ap Some rb show ?thesis by (auto simp: sync_apply_def honest_def ct_simps split: option.splits)
  qed
qed

lemma sync_fetched_honest:
  assumes "honest admits serves c" "ct_initialized c" "sync_fetched lib rt got c = (x, c')"
  shows "honest admits serves c'"
proof -
  have fail: "honest admits serves (ct_fail e c)" for e using assms(1) by (auto simp: honest_def ct_simps split: if_splits)
  have want: "honest admits serves (ct_update (\<lambda>st. st\<lparr>sy_DesiredRevision := v\<rparr>) (c\<lparr>ct_desired := Some d\<rparr>))" for v d
    using assms(1) by (auto simp: honest_def ct_simps split: if_splits)
  have ini: "ct_initialized (ct_update f (c\<lparr>ct_desired := Some d\<rparr>))" for f d using assms(2) by (simp add: ct_simps)
  show ?thesis
    using assms(3) unfolding sync_fetched_def
    by (auto split: sum.splits option.splits intro: fail sync_apply_honest [OF assms(1,2)] sync_apply_honest [OF want ini])
qed

lemma ct_step_hold_honest:
  assumes "honest admits serves c" "\<not> ct_initialized c" "ct_step rt ''holding'' (rt_Hold rt) c = (x, c')"
  shows "AppliedRevision c' = [] \<and> \<not> admits (ct_rt c')"
proof -
  from assms(1,2) have a: "AppliedRevision c = []" "\<not> admits (ct_rt c)" by (auto simp: honest_def split: if_splits)
  show ?thesis
  proof (cases x)
    case None
    with ct_step_ok [OF assms(3) [unfolded None]] ct_step_frame [OF assms(3)] a hold_closes show ?thesis by simp
  next
    case (Some e)
    with ct_step_fails [OF assms(3) [unfolded Some]] ct_step_frame [OF assms(3)] a hold_closes done_closed show ?thesis by auto
  qed
qed

lemma Sync_honest:
  assumes "honest admits serves c" "Sync lib rt busy source c = (x, c')"
  shows "honest admits serves c'"
proof (cases "busy \<or> ct_initialized c")
  case True
  with assms show ?thesis by (auto simp: Sync_def Let_def split: if_splits intro: sync_fetched_honest)
next
  case False
  obtain y c1 where h: "ct_step rt ''holding'' (rt_Hold rt) c = (y, c1)" by fastforce
  note closed = ct_step_hold_honest [OF assms(1) _ h]
  have ready: "honest admits serves ((ct_phase ''waiting_snapshot'' c1)\<lparr>ct_initialized := True\<rparr>)"
    using closed False by (simp add: honest_def ct_simps)
  show ?thesis
  proof (cases y)
    case None
    with False assms(2) h have "sync_fetched lib rt (source (case ct_desired c of None \<Rightarrow> [] | Some d \<Rightarrow> Snapshot_Revision d))
        ((ct_phase ''waiting_snapshot'' c1)\<lparr>ct_initialized := True\<rparr>) = (x, c')" by (simp add: Sync_def Let_def)
    from sync_fetched_honest [OF ready _ this] show ?thesis by simp
  next
    case (Some e)
    with False assms(2) h closed show ?thesis by (auto simp: Sync_def Let_def honest_def ct_simps)
  qed
qed

lemma RestoreLastGood_honest:
  assumes "honest admits serves c"
  shows "honest admits serves (snd (RestoreLastGood lib s c))"
  using assms by (auto simp: RestoreLastGood_def honest_def ct_simps split: option.splits sum.splits if_splits)

theorem ct_history_honest:
  assumes "honest admits serves c"
  shows "honest admits serves (ct_history lib rt other es c)"
proof -
  have "honest admits serves (ct_event_step lib rt other e c)" if "honest admits serves c" for e c
  proof (cases e)
    case (Synced busy source)
    with Sync_honest [OF that] show ?thesis by (cases "Sync lib rt busy source c") auto
  next
    case (Restored s)
    with RestoreLastGood_honest [OF that] show ?thesis by simp
  next
    case (Beside i)
    with that show ?thesis by (auto simp: honest_def AppliedRevision_def other_closed other_serves split: if_splits)
  qed
  with assms show ?thesis unfolding ct_history_def by (induction es arbitrary: c) auto
qed

end

section \<open>The contract of gate and connector\<close>

definition rv_serving :: "ClockSnapshot \<Rightarrow> 'g ResolverRuntime \<Rightarrow> bool" where
  "rv_serving s r \<longleftrightarrow> rv_configuredRevision r = Snapshot_Revision s \<and> (\<exists>res. rv_resolver r = Synced_Update (cls_entries s) res)"

definition rv_set_up :: "(ClockSnapshot \<Rightarrow> 'g \<Rightarrow> bool) \<Rightarrow> ClockSnapshot \<Rightarrow> 'g ResolverRuntime \<Rightarrow> bool" where
  "rv_set_up carries s r \<longleftrightarrow> rv_serving s r \<and> carries s (rv_world r) \<and> (rv_stopped r \<or> Snapshot_Revision s \<noteq> [])"

definition rv_serves :: "(ClockSnapshot \<Rightarrow> 'g \<Rightarrow> bool) \<Rightarrow> ClockSnapshot \<Rightarrow> 'g ResolverRuntime \<Rightarrow> bool" where
  "rv_serves vouched s r \<longleftrightarrow> rv_serving s r \<and> vouched s (rv_world r) \<and> rv_verified r \<and> Snapshot_Revision s \<noteq> []"

definition rv_beside :: "('i \<Rightarrow> 'g \<Rightarrow> 'g) \<Rightarrow> 'i \<Rightarrow> 'g ResolverRuntime \<Rightarrow> 'g ResolverRuntime" where
  "rv_beside other i r = r\<lparr>rv_world := other i (rv_world r)\<rparr>"

text \<open>
  \<open>carries\<close>: the connector is to run this snapshot; \<open>vouched\<close>: it was seen to run it. Every operation keeps a closed gate
  closed, except a resumption that succeeds.
\<close>

locale admission =
  fixes ops :: "'g world_ops"
    and opened :: "'g \<Rightarrow> bool"
    and carries :: "ClockSnapshot \<Rightarrow> 'g \<Rightarrow> bool"
    and vouched :: "ClockSnapshot \<Rightarrow> 'g \<Rightarrow> bool"
    and other :: "'i \<Rightarrow> 'g \<Rightarrow> 'g"
  assumes gate_hold: "\<not> opened (snd (wo_Hold ops g))"
    and gate_drain: "\<not> opened g \<Longrightarrow> \<not> opened (snd (wo_Drain ops g))"
    and gate_stop: "\<not> opened g \<Longrightarrow> \<not> opened (snd (wo_Stop ops g))"
    and gate_prepare: "\<not> opened g \<Longrightarrow> \<not> opened (snd (wo_Prepare ops s g))"
    and gate_configure: "\<not> opened g \<Longrightarrow> \<not> opened (snd (wo_Configure ops n g))"
    and gate_start: "\<not> opened g \<Longrightarrow> \<not> opened (snd (wo_Start ops g))"
    and gate_revision: "\<not> opened g \<Longrightarrow> \<not> opened (snd (wo_Revision ops g))"
    and gate_resume: "\<not> opened g \<Longrightarrow> fst (wo_Resume ops g) = Some e \<Longrightarrow> \<not> opened (snd (wo_Resume ops g))"
    and gate_done: "\<not> opened g \<Longrightarrow> \<not> opened (snd (wo_Done ops g))"
    and gate_other: "\<not> opened g \<Longrightarrow> \<not> opened (other i g)"
    and prepare_carries: "fst (wo_Prepare ops s g) = None \<Longrightarrow> carries s (snd (wo_Prepare ops s g))"
    and configure_carries: "carries s g \<Longrightarrow> carries s (snd (wo_Configure ops n g))"
    and start_carries: "carries s g \<Longrightarrow> carries s (snd (wo_Start ops g))"
    and done_carries: "carries s g \<Longrightarrow> carries s (snd (wo_Done ops g))"
    and revision_vouches: "carries s g \<Longrightarrow> fst (wo_Revision ops g) = Inr v \<Longrightarrow> vouched s (snd (wo_Revision ops g))"
    and done_vouched: "vouched s g \<Longrightarrow> vouched s (snd (wo_Done ops g))"
    and resume_vouched: "vouched s g \<Longrightarrow> fst (wo_Resume ops g) = None \<Longrightarrow> vouched s (snd (wo_Resume ops g))"
    and other_vouched: "vouched s g \<Longrightarrow> vouched s (other i g)"

lemmas rv_ops = rv_Hold_def rv_Stop_def rv_Drain_def rv_Configure_def ConfigureSnapshot_def rv_Start_def rv_Verify_def rv_Resume_def rv_Done_def

lemmas rv_preds = rv_serving_def rv_set_up_def rv_serves_def rv_beside_def

sublocale admission < runtime: clock_runtime "gatewayRuntime ops" "\<lambda>r. opened (rv_world r)" "rv_set_up carries" "rv_serves vouched" "rv_serves vouched" "rv_beside other"
proof (unfold_locales, goal_cases)
  case (1 r)
  show ?case using gate_hold [of "rv_world r"] by (auto simp: gatewayRuntime_def rv_ops split: prod.splits option.splits)
next
  case (2 r)
  then show ?case using gate_stop [of "rv_world r"] by (auto simp: gatewayRuntime_def rv_ops split: prod.splits option.splits)
next
  case (3 r)
  then show ?case using gate_drain [of "rv_world r"] by (auto simp: gatewayRuntime_def rv_ops split: prod.splits option.splits)
next
  case (4 r s)
  obtain x g where p: "wo_Prepare ops s (rv_world r) = (x, g)" by fastforce
  with 4 gate_prepare have "\<not> opened g" by (metis snd_conv)
  then show ?case using 4 p gate_configure [of g "cls_native s"] by (auto simp: gatewayRuntime_def rv_ops split: prod.splits option.splits)
next
  case (5 r)
  then show ?case using gate_start [of "rv_world r"] by (auto simp: gatewayRuntime_def rv_ops split: prod.splits option.splits)
next
  case (6 r v)
  then show ?case using gate_revision [of "rv_world r"] by (auto simp: gatewayRuntime_def rv_ops Let_def split: prod.splits sum.splits)
next
  case (7 r e)
  then show ?case using gate_resume [of "rv_world r"] by (auto simp: gatewayRuntime_def rv_ops split: prod.splits option.splits if_splits)
next
  case (8 r)
  then show ?case using gate_done [of "rv_world r"] by (auto simp: gatewayRuntime_def rv_ops split: prod.splits)
next
  case (9 r i)
  then show ?case by (simp add: rv_preds gate_other)
next
  case (10 s r)
  obtain x g where p: "wo_Prepare ops s (rv_world r) = (x, g)" by fastforce
  with 10 have "x = None" by (cases x) (auto simp: gatewayRuntime_def rv_ops)
  with p prepare_carries [of s "rv_world r"] have "carries s g" by simp
  with 10 p \<open>x = None\<close> configure_carries [of s g "cls_native s"] show ?case
    by (auto simp: gatewayRuntime_def rv_ops rv_preds Snapshot_Revision_def split: prod.splits option.splits if_splits)
next
  case (11 s r)
  then show ?case using start_carries [of s "rv_world r"]
    by (auto simp: gatewayRuntime_def rv_ops rv_preds split: prod.splits if_splits)
next
  case (12 s r)
  then show ?case using revision_vouches [of s "rv_world r"]
    by (auto simp: gatewayRuntime_def rv_ops rv_preds Let_def split: prod.splits sum.splits if_splits)
next
  case (13 s r)
  then show ?case using resume_vouched [of s "rv_world r"]
    by (auto simp: gatewayRuntime_def rv_ops rv_preds split: prod.splits option.splits if_splits)
next
  case (14 s r)
  then show ?case using done_carries [of s "rv_world r"] by (auto simp: gatewayRuntime_def rv_ops rv_preds split: prod.splits)
next
  case (15 s r)
  then show ?case using done_vouched [of s "rv_world r"] by (auto simp: gatewayRuntime_def rv_ops rv_preds split: prod.splits)
next
  case (16 s r i)
  then show ?case by (auto simp: rv_preds other_vouched)
next
  case (17 s r)
  then show ?case by (simp add: rv_preds)
qed

end
