(* ===== verification/Clock_Gateway_Facts.thy ===== *)
theory Clock_Gateway_Facts
  imports Clock_Gateway Clock_Controller_Facts
begin

text \<open>
  What the clock gateway guarantees: it is an admission gate and a connector in the sense of \<open>admission\<close>, whatever the container
  engine, the producer, the disk and the other goroutines do; no command is in flight while the mapping is replaced;
  a frame is stored only for an event of a verified session, and classified once.
\<close>

section \<open>What others leave alone\<close>

text \<open>Journal, producer record and environment stay; a closed gate stays closed, and then no command appears.\<close>

definition keeps :: "'d Gateway \<Rightarrow> 'd Gateway \<Rightarrow> bool" where
  "keeps g g' \<longleftrightarrow> gw_store g' = gw_store g \<and> gw_record g' = gw_record g \<and> gw_env g' = gw_env g
     \<and> (gw_held g \<longrightarrow> gw_held g' \<and> (gw_commands g = 0 \<longrightarrow> gw_commands g' = 0))"

lemma keeps_refl: "keeps g g"
  by (simp add: keeps_def)

lemma keeps_trans [trans]: "keeps g h \<Longrightarrow> keeps h i \<Longrightarrow> keeps g i"
  by (auto simp: keeps_def)

lemma keeps_run: "keeps g (g\<lparr>gw_run := x\<rparr>)"
  by (simp add: keeps_def)

lemma keeps_run_fs: "keeps g (g\<lparr>gw_run := x, gw_fs := fs\<rparr>)"
  by (simp add: keeps_def)

lemma keeps_new_receipt: "keeps g (snd (new_receipt gp d r iv rb f g))"
  unfolding new_receipt_def Let_def
  by (simp add: keeps_refl keeps_run keeps_run_fs split: sum.split prod.split bool.split option.split)

lemma keeps_bindRunFrame: "keeps g (snd (bindRunFrame gp d r f g))"
  by (auto simp: bindRunFrame_def keeps_refl keeps_new_receipt split: option.splits file_read.splits)

lemma keeps_quarantine: "keeps g (snd (quarantine gp d n reason g))"
  by (auto simp: quarantine_def keeps_def Let_def split: prod.splits bool.splits)

lemma keeps_store_frame: "keeps g (snd (store_frame gp d f g))"
  by (auto simp: store_frame_def keeps_def split: prod.splits option.splits)

lemma keeps_process: "keeps g (snd (process gp d g))"
proof -
  have b: "keeps g g1" if "bindRunFrame gp d r f g = (x, g1)" for r f x g1 using keeps_bindRunFrame [of g gp d r f] that by simp
  show ?thesis
    by (auto simp: process_def keeps_refl keeps_quarantine split: option.splits prod.splits sum.splits bind_error.splits
        intro: keeps_trans [OF b keeps_quarantine] keeps_trans [OF b keeps_store_frame] b)
qed

lemma keeps_inter_step: "keeps g (inter_step gp i g)"
proof (cases i)
  case (Finishes d)
  show ?thesis
  proof (cases "gw_active g = 0")
    case False
    obtain x g1 where p: "process gp d g = (x, g1)" by fastforce
    with keeps_process [of g gp d] have "keeps g g1" by simp
    with False p Finishes show ?thesis by (simp add: finish_delivery_def keeps_def)
  qed (simp add: Finishes finish_delivery_def keeps_refl)
qed (auto simp: keeps_def Enter_def leave_def take_delivery_def RequestStop_def)

lemma keeps_inters: "keeps g (inters gp is g)"
  unfolding inters_def
proof (induction "is" arbitrary: g)
  case (Cons i "is")
  from keeps_trans [OF keeps_inter_step Cons] show ?case by simp
qed (simp add: keeps_refl)

lemma keeps_ask: "ask gp g = (a, g') \<Longrightarrow> keeps g g'"
  using keeps_inters [of "g\<lparr>gw_tick := gw_tick g + 1\<rparr>" gp "an_between (gw_env g (gw_tick g))"]
  by (auto simp: ask_def Let_def keeps_def)

lemma keeps_producer_Stop: "keeps g (snd (producer_Stop gp g))"
proof -
  obtain a g1 where "ask gp g = (a, g1)" by fastforce
  moreover from keeps_ask [OF this] have "keeps g g1" .
  ultimately show ?thesis by (auto simp: producer_Stop_def keeps_def split: prod.splits option.splits)
qed

lemma keeps_request: "keeps g (snd (gw_request gp action g))"
proof (cases "gw_current g")
  case (Some r)
  let ?g = "g\<lparr>gw_requests := gw_requests g @ [(''cfg.bacnet.'' @ cs_ID (gw_base g) @ ''.runtime'', request_data (gp_lib gp) action r)]\<rparr>"
  obtain a g1 where a: "ask gp ?g = (a, g1)" by fastforce
  from keeps_ask [OF a] have "keeps g g1" by (simp add: keeps_def)
  with Some a show ?thesis by (auto simp: gw_request_def split: option.splits)
qed (simp add: gw_request_def keeps_refl)

lemma keeps_quiesce: "keeps g (snd (quiesce gp g))"
proof (cases "gw_started g")
  case True
  obtain x g1 where r: "gw_request gp ''quiesce'' g = (x, g1)" by fastforce
  from keeps_request [of g gp "''quiesce''"] r have k: "keeps g g1" by simp
  with True r show ?thesis by (auto simp: quiesce_def split: sum.splits intro: keeps_trans [OF k keeps_producer_Stop])
qed (simp add: quiesce_def keeps_refl)

lemma keeps_await_idle: "await_idle gp iss g = (x, g') \<Longrightarrow> keeps g g' \<and> (x \<longrightarrow> gw_active g' = 0 \<and> gw_commands g' = 0)"
proof (induction gp iss g rule: await_idle.induct)
  case (2 gp "is" iss g)
  then show ?case using keeps_inters [of g gp "is"] by (auto simp: keeps_refl split: if_splits intro: keeps_trans)
qed (auto simp: keeps_refl)

lemma keeps_drain_loop: "keeps g (snd (drain_loop gp xs g))"
proof (induction xs arbitrary: g)
  case (Cons x xs)
  from keeps_trans [OF keeps_inters Cons] show ?case by (cases x) (auto simp: keeps_refl split: option.splits)
qed (simp add: keeps_refl)

text \<open>Holding closes the gate, and when it succeeds nothing is in flight.\<close>

lemma gw_Hold_outcome:
  assumes "gw_Hold gp g = (x, g')"
  shows "keeps (g\<lparr>gw_held := True\<rparr>) g' \<and> gw_held g' \<and> (x = None \<longrightarrow> gw_commands g' = 0)"
proof -
  obtain a g1 where a: "ask gp (g\<lparr>gw_held := True\<rparr>) = (a, g1)" by fastforce
  obtain b g2 where w: "await_idle gp (an_waits a) g1 = (b, g2)" by fastforce
  from keeps_await_idle [OF w] have w2: "keeps g1 g2" "b \<longrightarrow> gw_commands g2 = 0" by auto
  from keeps_trans [OF keeps_ask [OF a] w2(1)] have k2: "keeps (g\<lparr>gw_held := True\<rparr>) g2" .
  obtain y g3 where st: "producer_Stop gp g2 = (y, g3)" by fastforce
  from keeps_producer_Stop [of g2 gp] st have k3: "keeps g2 g3" by simp
  have "keeps g2 g'"
    using assms a w st k3 keeps_quiesce [of g2 gp] keeps_trans [OF k3 keeps_quiesce [of g3 gp]]
    by (auto simp: gw_Hold_def keeps_refl split: bool.splits if_splits option.splits)
  moreover have "x = None \<longrightarrow> b" using assms a w by (auto simp: gw_Hold_def split: bool.splits)
  ultimately show ?thesis using k2 w2(2) keeps_trans [OF k2] by (auto simp: keeps_def)
qed

lemma keeps_Drain: "keeps g (snd (gw_Drain gp g))"
proof -
  obtain a g1 where a: "ask gp (g\<lparr>gw_draining := True\<rparr>) = (a, g1)" by fastforce
  from keeps_trans [OF keeps_ask [OF a] keeps_drain_loop [of g1 gp "an_infos a"]] a show ?thesis
    by (auto simp: gw_Drain_def keeps_def split: prod.splits)
qed

lemma keeps_Configure: "keeps g (snd (producer_Configure gp n g))"
  by (auto simp: producer_Configure_def keeps_def split: option.splits prod.splits)

lemma keeps_Start: "keeps g (snd (producer_Start gp g))"
proof -
  obtain a g1 where a: "ask gp (g\<lparr>gw_started := True\<rparr>) = (a, g1)" by fastforce
  from keeps_ask [OF a] have "keeps g g1" by (simp add: keeps_def)
  with a show ?thesis by (auto simp: producer_Start_def keeps_def split: option.splits prod.splits)
qed

lemma keeps_Done: "keeps g (snd (gw_Done gp g))"
  using keeps_ask [of gp g] by (auto simp: gw_Done_def split: prod.splits)

lemma keeps_Shutdown: "keeps g (snd (Shutdown gp g))"
proof -
  obtain x g1 where h: "gw_Hold gp (RequestStop g) = (x, g1)" by fastforce
  from gw_Hold_outcome [OF h] have k1: "keeps g g1" by (auto simp: keeps_def RequestStop_def)
  obtain y g2 where st: "producer_Stop gp g1 = (y, g2)" by fastforce
  from keeps_trans [OF k1] keeps_producer_Stop [of g1 gp] st have k2: "keeps g g2" by simp
  obtain z g3 where d: "gw_Done gp g2 = (z, g3)" by fastforce
  from keeps_trans [OF k2] keeps_Done [of g2 gp] d have k3: "keeps g g3" by simp
  show ?thesis using h st d k2 k3 keeps_trans [OF k3 keeps_Drain] by (auto simp: Shutdown_def split: option.splits)
qed

section \<open>The operations that change the journal\<close>

text \<open>These keep the gate and the commands as the others do.\<close>

definition shut :: "'d Gateway \<Rightarrow> 'd Gateway \<Rightarrow> bool" where
  "shut g g' \<longleftrightarrow> (gw_held g \<longrightarrow> gw_held g' \<and> (gw_commands g = 0 \<longrightarrow> gw_commands g' = 0))"

lemma keeps_shut: "keeps g g' \<Longrightarrow> shut g g'"
  by (simp add: keeps_def shut_def)

definition carries :: "ClockSnapshot \<Rightarrow> 'd Gateway \<Rightarrow> bool" where
  "carries s g \<longleftrightarrow> (\<exists>r. gw_current g = Some r \<and> gw_record g = Some (sr_Session r) \<and> sr_snapshot r = s)"

definition vouched :: "ClockSnapshot \<Rightarrow> 'd Gateway \<Rightarrow> bool" where
  "vouched s g \<longleftrightarrow> (\<exists>r. gw_current g = Some r \<and> gw_record g = Some (sr_Session r) \<and> sr_snapshot r = s \<and> sr_verified r)"

lemma keeps_current: "keeps g g' \<Longrightarrow> gw_current g' = gw_current g"
  by (auto simp: keeps_def gw_current_def split: option.split)

lemma keeps_carries: "keeps g g' \<Longrightarrow> carries s g \<Longrightarrow> carries s g'"
  by (simp add: carries_def keeps_current) (simp add: keeps_def)

lemma keeps_vouched: "keeps g g' \<Longrightarrow> vouched s g \<Longrightarrow> vouched s g'"
  by (simp add: vouched_def keeps_current) (simp add: keeps_def)

lemma create_outcome:
  "create lib rnd w1 w2 s (ss, fs) = (Inr i, ss', fs') \<Longrightarrow> \<exists>r. session_get i ss' = Some r \<and> sr_Session r = i \<and> sr_snapshot r = s"
  by (auto simp: create_def session_get_def update_conv' Let_def split: option.splits prod.splits bool.splits)

lemma gw_Prepare_outcome:
  "gw_Prepare gp s g = (x, g') \<Longrightarrow> shut g g' \<and> (x = None \<longrightarrow> carries s g')"
  using keeps_ask [of gp g] create_outcome
  by (fastforce simp: gw_Prepare_def keeps_def shut_def carries_def gw_current_def split: prod.splits if_splits sum.splits)

lemma session_verify_outcome:
  assumes "session_verify w r (ss, fs) = (ok, ss', fs')"
  shows "(\<not> ok \<longrightarrow> ss' = ss) \<and> (ok \<longrightarrow> session_get (sr_Session r) ss' = map_option (\<lambda>q. q\<lparr>sr_verified := True\<rparr>) (session_get (sr_Session r) ss))"
  using assms by (auto simp: session_verify_def session_get_def update_conv' split: prod.splits bool.splits option.splits)

lemma producer_Revision_outcome:
  assumes "producer_Revision gp g = (x, g')"
  shows "shut g g' \<and> (carries s g \<longrightarrow> (\<forall>v. x = Inr v \<longrightarrow> vouched s g'))"
proof -
  obtain y g1 where rq: "gw_request gp ''status'' g = (y, g1)" by fastforce
  from keeps_request [of g gp "''status''"] rq have k1: "keeps g g1" by simp
  obtain a g2 where a: "ask gp g1 = (a, g2)" by fastforce
  from keeps_trans [OF k1 keeps_ask [OF a]] have k2: "keeps g g2" .
  have "shut g g'" using assms rq a keeps_shut [OF k1] keeps_shut [OF k2]
    by (auto simp: producer_Revision_def shut_def split: sum.splits option.splits prod.splits bool.splits if_splits)
  moreover have "vouched s g'" if c: "carries s g" and v: "x = Inr v" for v
  proof -
    from keeps_carries [OF k2 c] obtain r where r: "gw_current g2 = Some r" "gw_record g2 = Some (sr_Session r)" "sr_snapshot r = s"
      by (auto simp: carries_def)
    have r1: "gw_current g1 = Some r" using r(1) keeps_current [OF keeps_ask [OF a]] by simp
    obtain ok ss fs where sv: "session_verify (an_write a) r (gw_store g2, gw_fs g2) = (ok, ss, fs)" by (metis prod_cases3)
    from assms rq a r1 sv v have ok: "ok" "g' = g2\<lparr>gw_store := ss, gw_fs := fs\<rparr>"
      by (auto simp: producer_Revision_def split: sum.splits if_splits bool.splits)
    with session_verify_outcome [OF sv] r show ?thesis by (auto simp: vouched_def gw_current_def)
  qed
  ultimately show ?thesis by blast
qed

lemma activateRunSession_frame:
  assumes "activateRunSession gp r g = (x, g')"
  shows "gw_held g' = gw_held g \<and> gw_commands g' = gw_commands g \<and> gw_record g' = gw_record g
    \<and> (gw_store g' = gw_store g \<or> (\<exists>c. gw_store g' = gw_store (set_run_clock c r g)))"
  using assms unfolding activateRunSession_def
  by (auto simp: Let_def set_run_clock_def split: option.splits prod.splits if_splits)

lemma activateRunSession_vouched:
  assumes "activateRunSession gp r g = (x, g')" "gw_current g = Some r" "vouched s g"
  shows "vouched s g'"
  using activateRunSession_frame [OF assms(1)] assms(2,3)
  by (auto simp: vouched_def gw_current_def set_run_clock_def session_get_def update_conv')

lemma open_gate_outcome:
  assumes "open_gate gp g = (x, g')"
  shows "gw_store g' = gw_store g \<and> gw_record g' = gw_record g \<and> (x \<noteq> None \<longrightarrow> shut g g')"
proof -
  have k: "keeps h h'" if "ask gp h = (a, h')" for h a h' using keeps_ask [OF that] .
  show ?thesis
    using assms by (auto simp: open_gate_def shut_def keeps_def split: if_splits option.splits prod.splits bool.splits dest!: k)
qed

lemma gw_Resume_outcome:
  assumes "gw_Resume gp g = (x, g')"
  shows "(x \<noteq> None \<longrightarrow> shut g g') \<and> (vouched s g \<longrightarrow> x = None \<longrightarrow> vouched s g')"
proof -
  obtain a g0 where a: "ask gp g = (a, g0)" by fastforce
  note k0 = keeps_ask [OF a]
  show ?thesis
  proof (cases "gw_stopping g0 \<or> gw_current g0 = None")
    case True
    with assms a keeps_shut [OF k0] show ?thesis by (auto simp: gw_Resume_def split: if_splits)
  next
    case False
    then obtain r where r: "gw_current g0 = Some r" by auto
    obtain y g1 where act: "activateRunSession gp r g0 = (y, g1)" by fastforce
    from activateRunSession_frame [OF act] keeps_shut [OF k0] have s1: "shut g g1" by (simp add: shut_def)
    have v1: "vouched s g \<longrightarrow> vouched s g1" using activateRunSession_vouched [OF act r] keeps_vouched [OF k0] by blast
    obtain z g2 where rq: "gw_request gp ''resume'' g1 = (z, g2)" by fastforce
    from keeps_request [of g1 gp "''resume''"] rq have k2: "keeps g1 g2" by simp
    from keeps_shut [OF k2] s1 have s2: "shut g g2" by (simp add: shut_def)
    obtain w g3 where og: "open_gate gp g2 = (w, g3)" by fastforce
    from open_gate_outcome [OF og] s2 have s3: "w \<noteq> None \<longrightarrow> shut g g3" by (auto simp: shut_def)
    have v3: "vouched s g \<longrightarrow> vouched s g3"
      using v1 keeps_vouched [OF k2] open_gate_outcome [OF og] by (auto simp: vouched_def gw_current_def)
    show ?thesis using assms a False r act rq og s1 s2 s3 v3
      by (auto simp: gw_Resume_def split: option.splits sum.splits if_splits)
  qed
qed

section \<open>The gateway is an admission gate\<close>

text \<open>What happens beside the controller: other goroutines, and a shutdown.\<close>

datatype gw_beside = Others "inter list" | ShutDown

primrec gw_other :: "'d gw_params \<Rightarrow> gw_beside \<Rightarrow> 'd Gateway \<Rightarrow> 'd Gateway" where
  "gw_other gp (Others is) g = inters gp is g"
| "gw_other gp ShutDown g = snd (Shutdown gp g)"

lemma keeps_other: "keeps g (gw_other gp i g)"
  by (cases i) (simp_all add: keeps_inters keeps_Shutdown)

interpretation clock_gate: admission "gateway_ops gp" "\<lambda>g. \<not> gw_held g" carries vouched "gw_other gp"
  for gp :: "'d gw_params"
proof (unfold_locales, goal_cases)
  case (1 g)
  show ?case using gw_Hold_outcome [of gp g] by (cases "gw_Hold gp g") (simp add: gateway_ops_def)
next
  case (2 g)
  then show ?case using keeps_Drain [of g gp] by (simp add: gateway_ops_def keeps_def)
next
  case (3 g)
  then show ?case using keeps_producer_Stop [of g gp] by (simp add: gateway_ops_def keeps_def)
next
  case (4 g s)
  then show ?case using gw_Prepare_outcome [of gp s g] by (cases "gw_Prepare gp s g") (simp add: gateway_ops_def shut_def)
next
  case (5 g n)
  then show ?case using keeps_Configure [of g gp n] by (simp add: gateway_ops_def keeps_def)
next
  case (6 g)
  then show ?case using keeps_Start [of g gp] by (simp add: gateway_ops_def keeps_def)
next
  case (7 g)
  then show ?case using producer_Revision_outcome [of gp g] by (cases "producer_Revision gp g") (simp add: gateway_ops_def shut_def)
next
  case (8 g e)
  then show ?case using gw_Resume_outcome [of gp g] by (cases "gw_Resume gp g") (simp add: gateway_ops_def shut_def)
next
  case (9 g)
  then show ?case using keeps_Done [of g gp] by (simp add: gateway_ops_def keeps_def)
next
  case (10 g i)
  then show ?case using keeps_other [of g gp i] by (simp add: keeps_def)
next
  case (11 s g)
  then show ?case using gw_Prepare_outcome [of gp s g] by (cases "gw_Prepare gp s g") (simp add: gateway_ops_def)
next
  case (12 s g n)
  then show ?case using keeps_carries [OF keeps_Configure] by (simp add: gateway_ops_def)
next
  case (13 s g)
  then show ?case using keeps_carries [OF keeps_Start] by (simp add: gateway_ops_def)
next
  case (14 s g)
  then show ?case using keeps_carries [OF keeps_Done] by (simp add: gateway_ops_def)
next
  case (15 s g v)
  then show ?case using producer_Revision_outcome [of gp g _ _ s] by (cases "producer_Revision gp g") (simp add: gateway_ops_def)
next
  case (16 s g)
  then show ?case using keeps_vouched [OF keeps_Done] by (simp add: gateway_ops_def)
next
  case (17 s g)
  then show ?case using gw_Resume_outcome [of gp g _ _ s] by (cases "gw_Resume gp g") (simp add: gateway_ops_def)
next
  case (18 s g i)
  then show ?case by (rule keeps_vouched [OF keeps_other])
qed

end
