(* ===== verification/Text_Codec.thy ===== *)
theory Text_Codec
  imports Go_Lib
begin

text \<open>A concrete text form for JSON values, which reads back what it writes; it shows that what the development asks of a JSON library can hold.\<close>

text \<open>A simple text form of JSON values, to run the model on: every byte of a string is marked, lists are bracketed.\<close>

fun put_str :: "string \<Rightarrow> string" where
  "put_str [] = ''|''"
| "put_str (c # s) = CHR ''.'' # c # put_str s"

fun get_str :: "string \<Rightarrow> (string \<times> string) option" where
  "get_str (x # c # r) = (if x = CHR ''|'' then Some ([], c # r)
     else if x = CHR ''.'' then (case get_str r of None \<Rightarrow> None | Some (s, r') \<Rightarrow> Some (c # s, r')) else None)"
| "get_str [x] = (if x = CHR ''|'' then Some ([], []) else None)"
| "get_str [] = None"

lemma get_put_str [simp]: "get_str (put_str s @ r) = Some (s, r)"
  by (induction s) (cases r, simp_all)

fun put_json :: "json \<Rightarrow> string" where
  "put_json JNull = ''n''"
| "put_json (JBool b) = (if b then ''t'' else ''f'')"
| "put_json (JNum s) = CHR ''#'' # put_str s"
| "put_json (JStr s) = CHR ''s'' # put_str s"
| "put_json (JArr js) = CHR ''['' # concat (map put_json js) @ '']''"
| "put_json (JObj ms) = CHR ''{'' # concat (map (\<lambda>(k, v). CHR '','' # put_str k @ put_json v) ms) @ ''}''"

fun get_json :: "nat \<Rightarrow> string \<Rightarrow> (json \<times> string) option"
  and get_elements :: "nat \<Rightarrow> string \<Rightarrow> (json list \<times> string) option"
  and get_members :: "nat \<Rightarrow> string \<Rightarrow> ((string \<times> json) list \<times> string) option" where
  "get_json (Suc n) (c # r) =
     (if c = CHR ''n'' then Some (JNull, r)
      else if c = CHR ''t'' then Some (JBool True, r)
      else if c = CHR ''f'' then Some (JBool False, r)
      else if c = CHR ''#'' then map_option (apfst JNum) (get_str r)
      else if c = CHR ''s'' then map_option (apfst JStr) (get_str r)
      else if c = CHR ''['' then map_option (apfst JArr) (get_elements n r)
      else if c = CHR ''{'' then map_option (apfst JObj) (get_members n r)
      else None)"
| "get_json _ _ = None"
| "get_elements (Suc n) (c # r) =
     (if c = CHR '']'' then Some ([], r)
      else case get_json n (c # r) of None \<Rightarrow> None
        | Some (j, r') \<Rightarrow> (case get_elements n r' of None \<Rightarrow> None | Some (js, r'') \<Rightarrow> Some (j # js, r'')))"
| "get_elements _ _ = None"
| "get_members (Suc n) (c # r) =
     (if c = CHR ''}'' then Some ([], r)
      else if c \<noteq> CHR '','' then None
      else case get_str r of None \<Rightarrow> None
        | Some (k, r1) \<Rightarrow> (case get_json n r1 of None \<Rightarrow> None
            | Some (v, r2) \<Rightarrow> (case get_members n r2 of None \<Rightarrow> None | Some (ms, r3) \<Rightarrow> Some ((k, v) # ms, r3))))"
| "get_members _ _ = None"

lemma put_json_Cons: "\<exists>c r. put_json j = c # r \<and> c \<noteq> CHR '']''"
  by (cases j) auto

lemma get_put_json:
  "length (put_json j) \<le> n \<Longrightarrow> get_json n (put_json j @ r) = Some (j, r)"
proof (induction j arbitrary: n r rule: put_json.induct)
  case (5 js)
  then obtain m where n: "n = Suc m" by (cases n) auto
  have "get_elements m (concat (map put_json js') @ CHR '']'' # r) = Some (js', r)"
    if "set js' \<subseteq> set js" "length (concat (map put_json js')) < m" for js' m
    using that
  proof (induction js' arbitrary: m)
    case Nil
    then show ?case by (cases m) auto
  next
    case (Cons j js')
    obtain m' where m: "m = Suc m'" using Cons.prems by (cases m) auto
    obtain c s where c: "put_json j = c # s" "c \<noteq> CHR '']''" using put_json_Cons by blast
    have "get_json m' (put_json j @ concat (map put_json js') @ CHR '']'' # r) = Some (j, concat (map put_json js') @ CHR '']'' # r)"
      using Cons.prems m by (intro "5.IH") auto
    moreover have "get_elements m' (concat (map put_json js') @ CHR '']'' # r) = Some (js', r)"
      using Cons.prems m c by (intro Cons.IH) auto
    ultimately show ?case using m c by simp
  qed
  from this [of js m] 5 n show ?case by simp
next
  case (6 ms)
  then obtain m where n: "n = Suc m" by (cases n) auto
  let ?p = "\<lambda>(k, v). CHR '','' # put_str k @ put_json v"
  have "get_members m (concat (map ?p ms') @ CHR ''}'' # r) = Some (ms', r)"
    if "set ms' \<subseteq> set ms" "length (concat (map ?p ms')) < m" for ms' m
    using that
  proof (induction ms' arbitrary: m)
    case Nil
    then show ?case by (cases m) auto
  next
    case (Cons kv ms')
    obtain m' where m: "m = Suc m'" using Cons.prems by (cases m) auto
    obtain k v where kv: "kv = (k, v)" by (cases kv)
    have "get_json m' (put_json v @ concat (map ?p ms') @ CHR ''}'' # r) = Some (v, concat (map ?p ms') @ CHR ''}'' # r)"
      using Cons.prems m kv by (intro "6.IH") auto
    moreover have "get_members m' (concat (map ?p ms') @ CHR ''}'' # r) = Some (ms', r)"
      using Cons.prems m kv by (intro Cons.IH) auto
    ultimately show ?case using m kv by simp
  qed
  from this [of ms m] 6 n show ?case by simp
qed (auto dest!: Suc_le_D split: if_splits)


end
