(* ===== verification/Run_Ledger_Facts.thy ===== *)
theory Run_Ledger_Facts
  imports Run_Ledger Text_Codec
begin

text \<open>
  What the run ledger guarantees over any sequence of operations, failed writes and restarts: the file can
  always be opened again and gives back the ledger, the generation never goes down, and a run that was
  invalidated is never reported valid again.
\<close>

section \<open>What is relied on of the encoders\<close>

text \<open>Valid UTF-8, as \<open>utf8.ValidString\<close> decides it.\<close>

definition cont_in :: "nat \<Rightarrow> nat \<Rightarrow> char \<Rightarrow> bool" where
  "cont_in lo hi c = (let n = of_char c in lo \<le> n \<and> n \<le> hi)"

fun utf8_valid :: "string \<Rightarrow> bool" where
  "utf8_valid [] = True"
| "utf8_valid (c # s) =
     (let n = (of_char c :: nat); k = cont_in 0x80 0xBF in
      if n < 0x80 then utf8_valid s
      else case s of
        [] \<Rightarrow> False
      | c1 # s1 \<Rightarrow>
        if 0xC2 \<le> n \<and> n \<le> 0xDF then k c1 \<and> utf8_valid s1
        else case s1 of
          [] \<Rightarrow> False
        | c2 # s2 \<Rightarrow>
          if n = 0xE0 then cont_in 0xA0 0xBF c1 \<and> k c2 \<and> utf8_valid s2
          else if n = 0xED then cont_in 0x80 0x9F c1 \<and> k c2 \<and> utf8_valid s2
          else if 0xE1 \<le> n \<and> n \<le> 0xEF then k c1 \<and> k c2 \<and> utf8_valid s2
          else case s2 of
            [] \<Rightarrow> False
          | c3 # s3 \<Rightarrow>
            if n = 0xF0 then cont_in 0x90 0xBF c1 \<and> k c2 \<and> k c3 \<and> utf8_valid s3
            else if n = 0xF4 then cont_in 0x80 0x8F c1 \<and> k c2 \<and> k c3 \<and> utf8_valid s3
            else 0xF1 \<le> n \<and> n \<le> 0xF3 \<and> k c1 \<and> k c2 \<and> k c3 \<and> utf8_valid s3)"

declare utf8_valid.simps(2) [simp del]

definition runs_ok :: "bool gomap \<Rightarrow> bool" where
  "runs_ok m \<longleftrightarrow> sorted (map fst m) \<and> distinct (map fst m) \<and> list_all utf8_valid (map fst m)"

text \<open>
  \<open>encoding/json\<close> reads back the ledger states it writes, as long as their strings are UTF-8, and only reads strings that are; integers,
  base64 and UTC times read back; the zero time can be written.
\<close>

definition run_lib_ok :: "run_lib \<Rightarrow> bool" where
  "run_lib_ok lib \<longleftrightarrow>
     (\<forall>st j m. state_json lib st = Some j \<and> ls_InvalidRuns st = Some m \<and> runs_ok m
        \<and> utf8_valid (sc_GatewayID (ls_Scope st)) \<and> utf8_valid (sc_ClockID (ls_Scope st))
        \<longrightarrow> json_read (json_lib.truncate lib) (json_write (json_lib.truncate lib) j) = Some j)
     \<and> (\<forall>raw ms k v. json_read (json_lib.truncate lib) raw = Some (JObj ms) \<and> (k, JStr v) \<in> set ms \<longrightarrow> utf8_valid v)
     \<and> (\<forall>n. \<bar>n\<bar> < 2 ^ 63 \<longrightarrow> parse_go_int lib (format_integer lib n) = Some n)
     \<and> (\<forall>t s. gt_off t = 0 \<and> format_time lib t = Some s \<longrightarrow> parse_time lib s = Some t)
     \<and> (\<forall>p. base64_decode lib (base64_encode lib p) = Some p)
     \<and> format_time lib zero_time \<noteq> None"

lemma run_lib_okD:
  assumes "run_lib_ok lib"
  shows "state_json lib st = Some j \<Longrightarrow> ls_InvalidRuns st = Some m \<Longrightarrow> runs_ok m \<Longrightarrow> utf8_valid (sc_GatewayID (ls_Scope st))
      \<Longrightarrow> utf8_valid (sc_ClockID (ls_Scope st)) \<Longrightarrow> json_read (json_lib.truncate lib) (json_write (json_lib.truncate lib) j) = Some j"
    and "json_read (json_lib.truncate lib) raw = Some (JObj ms) \<Longrightarrow> (k, JStr v) \<in> set ms \<Longrightarrow> utf8_valid v"
    and "parse_go_int lib (format_integer lib 2) = Some 2"
    and "gt_off t = 0 \<Longrightarrow> format_time lib t = Some s \<Longrightarrow> parse_time lib s = Some t"
    and "base64_decode lib (base64_encode lib p) = Some p"
    and "format_time lib zero_time \<noteq> None"
proof -
  have "\<forall>n. \<bar>n\<bar> < 2 ^ 63 \<longrightarrow> parse_go_int lib (format_integer lib n) = Some n" using assms unfolding run_lib_ok_def by blast
  from this [rule_format, of 2] show "parse_go_int lib (format_integer lib 2) = Some 2" by simp
qed (use assms in \<open>(unfold run_lib_ok_def, blast)+\<close>)

section \<open>The map of invalid runs\<close>

lemma sort_keys: "distinct (map fst (sort_key fst xs)) = distinct (map fst xs)" "set (sort_key fst xs) = set xs"
  for xs :: "bool gomap"
proof -
  have "mset (map fst (sort_key fst xs)) = mset (map fst xs)" by (simp only: mset_map mset_sort)
  then show "distinct (map fst (sort_key fst xs)) = distinct (map fst xs)" by (rule mset_eq_imp_distinct_iff)
qed simp

lemma runs_update_lookup: "distinct (map fst m) \<Longrightarrow> map_of (runs_update k b m) = (map_of m)(k \<mapsto> b)"
proof -
  assume d: "distinct (map fst m)"
  have "map_of (sort_key fst xs) = map_of xs" if "distinct (map fst xs)" for xs :: "bool gomap"
    using that by (subst map_of_inject_set) (simp_all add: sort_keys)
  with d show ?thesis by (simp add: runs_update_def distinct_update update_conv')
qed

lemma runs_update_ok: "runs_ok m \<Longrightarrow> utf8_valid k \<Longrightarrow> runs_ok (runs_update k b m)"
proof -
  assume ok: "runs_ok m" and k: "utf8_valid k"
  have "fst ` set (AList.update k b m) = insert k (fst ` set m)" by (induction m) auto
  with ok k show ?thesis by (simp add: runs_ok_def runs_update_def sort_keys distinct_update list_all_iff)
qed

text \<open>Entries that come in order are appended.\<close>

lemma update_fresh: "k \<notin> fst ` set m \<Longrightarrow> AList.update k v m = m @ [(k, v)]"
  by (induction m) auto

lemma dec_bool_members_sorted:
  assumes "sorted (map fst (m @ ms))" "distinct (map fst (m @ ms))"
  shows "dec_bool_members (map (\<lambda>(k, b). (k, JBool b)) ms) m = Some (m @ ms)"
  using assms
proof (induction ms arbitrary: m)
  case (Cons kb ms)
  obtain k b where kb: "kb = (k, b)" by (cases kb)
  have "runs_update k b m = m @ [(k, b)]"
    using Cons.prems kb by (simp add: runs_update_def update_fresh sort_key_id_if_sorted sorted_append)
  with Cons.prems Cons.IH [of "m @ [(k, b)]"] kb show ?case by simp
qed simp

section \<open>Ledger states and their file\<close>

text \<open>The context of a state: what its envelope says.\<close>

definition context_of :: "run_lib \<Rightarrow> ledger_state \<Rightarrow> RunContext option" where
  "context_of lib st = (case ls_Envelope st of None \<Rightarrow> None | Some e \<Rightarrow> (case verify lib (ls_Scope st) e of Inl _ \<Rightarrow> None | Inr c \<Rightarrow> Some c))"

definition state_ok :: "run_lib \<Rightarrow> run_scope \<Rightarrow> ledger_state \<Rightarrow> bool" where
  "state_ok lib scope st \<longleftrightarrow> ls_Version st = ledgerVersion \<and> ls_Scope st = scope \<and> (\<exists>m. ls_InvalidRuns st = Some m \<and> runs_ok m)
     \<and> gt_off (ls_CommittedAt st) = 0 \<and> (\<forall>a. ls_AppliedAt st = Some a \<longrightarrow> gt_off a = 0)
     \<and> (if ls_Envelope st = None then ls_CommittedAt st = zero_time \<and> ls_AppliedAt st = None
        else \<exists>c. context_of lib st = Some c \<and> \<not> Before (ls_CommittedAt st) (rc_IssuedAt c) \<and> Before (ls_CommittedAt st) (rc_ExpiresAt c)
          \<and> (\<forall>a. ls_AppliedAt st = Some a \<longrightarrow> \<not> Before a (ls_CommittedAt st) \<and> Before a (rc_ExpiresAt c)))"

definition scope_ok :: "run_scope \<Rightarrow> bool" where
  "scope_ok scope \<longleftrightarrow> utf8_valid (sc_GatewayID scope) \<and> utf8_valid (sc_ClockID scope) \<and> sc_GatewayID scope \<noteq> [] \<and> sc_ClockID scope \<noteq> []"

lemma decode_encode_state:
  assumes lib: "run_lib_ok lib" and st: "state_ok lib scope st" and sc: "scope_ok scope" and enc: "encode_state lib st = Some raw"
  shows "decode_state lib raw = Some st"
proof -
  obtain j where j: "state_json lib st = Some j" "raw = json_write (json_lib.truncate lib) j" using enc by (auto simp: encode_state_def)
  obtain m where m: "ls_InvalidRuns st = Some m" "runs_ok m" using st by (auto simp: state_ok_def)
  obtain cm where cm: "format_time lib (ls_CommittedAt st) = Some cm" using j(1) by (auto simp: state_json_def split: option.splits)
  have ap: "case ls_AppliedAt st of None \<Rightarrow> True | Some a \<Rightarrow> \<exists>s. format_time lib a = Some s"
    using j(1) by (auto simp: state_json_def split: option.splits)
  have r: "json_read (json_lib.truncate lib) raw = Some j"
    using run_lib_okD(1) [OF lib j(1) m] st sc j(2) by (simp add: state_ok_def scope_ok_def)
  have v: "ls_Version st = 2" using st by (simp add: state_ok_def ledgerVersion_def)
  have t: "parse_time lib cm = Some (ls_CommittedAt st)" using st cm by (auto simp: state_ok_def intro: run_lib_okD(4) [OF lib])
  have a: "\<And>x s. ls_AppliedAt st = Some x \<Longrightarrow> format_time lib x = Some s \<Longrightarrow> parse_time lib s = Some x"
    using st by (auto simp: state_ok_def intro: run_lib_okD(4) [OF lib])
  have b: "dec_bool_members (map (\<lambda>(k, b). (k, JBool b)) m) [] = Some m"
    using m(2) by (intro dec_bool_members_sorted [of "[]", simplified]) (simp_all add: runs_ok_def)
  show ?thesis
    using j(1) cm ap a t v b m(1) r
    by (cases st, cases "ls_Scope st"; cases "ls_Envelope st"; cases "ls_AppliedAt st")
      (auto simp: decode_state_def state_json_def dec_struct_strict_def zero_state_def find_field_def state_fields_def
        scope_fields_def envelope_fields_def dec_string_def dec_time_def run_lib_okD(3,5) [OF lib])
qed

lemma Open_encoded:
  assumes "run_lib_ok lib" "state_ok lib scope st" "scope_ok scope" "encode_state lib st = Some raw"
  shows "Ledger_Open lib (Some raw) scope = Inr \<lparr>lg_failed = False, lg_data = st, lg_context = context_of lib st\<rparr>"
proof -
  have d: "decode_state lib raw = Some st" using assms by (rule decode_encode_state)
  show ?thesis
  proof (cases "ls_Envelope st")
    case None
    with d assms(2) show ?thesis by (auto simp: Ledger_Open_def state_ok_def context_of_def zero_time_def IsZero_def)
  next
    case (Some e)
    with assms(2) obtain c where "verify lib scope e = Inr c" by (auto simp: state_ok_def context_of_def split: sum.splits)
    with d Some assms(2) show ?thesis by (auto simp: Ledger_Open_def state_ok_def context_of_def split: option.split)
  qed
qed

section \<open>Runs of the ledger\<close>

text \<open>The calls that change the ledger, each with how its write ends, and a restart of the process. Times are taken in UTC.\<close>

datatype ledger_event = EvCommit write_end Envelope int | EvApply write_end int | EvInvalidateRun write_end string
  | EvInvalidateContext write_end Envelope | EvReopen

definition utc :: "int \<Rightarrow> gotime" where
  "utc n = \<lparr>gt_ns = n, gt_off = 0\<rparr>"

fun ledger_step :: "run_lib \<Rightarrow> run_scope \<Rightarrow> ledger_event \<Rightarrow> Ledger \<times> string option \<Rightarrow> Ledger \<times> string option" where
  "ledger_step lib scope (EvCommit w e n) s = snd (Ledger_Commit lib w e (utc n) s)"
| "ledger_step lib scope (EvApply w n) s = snd (Ledger_Apply lib w (utc n) s)"
| "ledger_step lib scope (EvInvalidateRun w r) s = snd (InvalidateRun lib w r s)"
| "ledger_step lib scope (EvInvalidateContext w e) s = snd (InvalidateContext lib w e s)"
| "ledger_step lib scope EvReopen s =
     (case Ledger_Open lib (snd s) scope of Inr l \<Rightarrow> (l, snd s) | Inl _ \<Rightarrow> ((fst s)\<lparr>lg_failed := True\<rparr>, snd s))"

text \<open>The file holds a good state, which is that of the ledger unless it failed.\<close>

definition sys_at :: "run_lib \<Rightarrow> run_scope \<Rightarrow> ledger_state \<Rightarrow> Ledger \<times> string option \<Rightarrow> bool" where
  "sys_at lib scope st = (\<lambda>(l, disk). encode_state lib st \<noteq> None \<and> disk = encode_state lib st \<and> state_ok lib scope st
     \<and> (lg_failed l \<or> lg_data l = st \<and> lg_context l = context_of lib st))"

definition generation_of :: "run_lib \<Rightarrow> ledger_state \<Rightarrow> int" where
  "generation_of lib st = (case context_of lib st of None \<Rightarrow> 0 | Some c \<Rightarrow> rc_Generation c)"

text \<open>What a later state keeps of an earlier one.\<close>

definition later :: "run_lib \<Rightarrow> ledger_state \<Rightarrow> ledger_state \<Rightarrow> bool" where
  "later lib st st' \<longleftrightarrow> (\<forall>r. is_invalid st r \<longrightarrow> is_invalid st' r) \<and> generation_of lib st \<le> generation_of lib st'
     \<and> (generation_of lib st = generation_of lib st' \<longrightarrow> context_of lib st = context_of lib st')"

lemma later_refl [simp]: "later lib st st"
  by (simp add: later_def)

lemma later_trans: "later lib a b \<Longrightarrow> later lib b c \<Longrightarrow> later lib a c"
  by (auto simp: later_def)

lemma mark_invalid_facts:
  assumes "state_ok lib scope st"
  shows "is_invalid (mark_invalid r st) q \<longleftrightarrow> q = r \<or> is_invalid st q"
    "context_of lib (mark_invalid r st) = context_of lib st"
    "utf8_valid r \<Longrightarrow> state_ok lib scope (mark_invalid r st)"
    "later lib st (mark_invalid r st)"
proof -
  obtain m where m: "ls_InvalidRuns st = Some m" "runs_ok m" using assms by (auto simp: state_ok_def)
  then have l: "map_of (runs_update r True m) = (map_of m)(r \<mapsto> True)" by (intro runs_update_lookup) (simp add: runs_ok_def)
  show i: "is_invalid (mark_invalid r st) q \<longleftrightarrow> q = r \<or> is_invalid st q" for q
    using m l by (simp add: is_invalid_def mark_invalid_def)
  show c: "context_of lib (mark_invalid r st) = context_of lib st" by (simp add: context_of_def mark_invalid_def split: option.split)
  show "state_ok lib scope (mark_invalid r st)" if "utf8_valid r"
    using assms m c runs_update_ok [OF m(2) that, of True] by (auto simp: state_ok_def mark_invalid_def)
  show "later lib st (mark_invalid r st)" using i c by (auto simp: later_def generation_of_def)
qed

lemma persist_cases:
  assumes "sys_at lib scope st (l, disk)" "persist lib w nxt (l, disk) = (r, l', disk')"
  obtains "r \<noteq> None" "lg_failed l'" "disk' = disk"
  | "r \<noteq> None" "lg_failed l'" "disk' = encode_state lib nxt" "encode_state lib nxt \<noteq> None"
  | "r = None" "l' = l\<lparr>lg_data := nxt\<rparr>" "disk' = encode_state lib nxt" "encode_state lib nxt \<noteq> None"
  using assms by (auto simp: persist_def split: option.splits write_end.splits)

lemma persist_step:
  assumes "sys_at lib scope st (l, disk)" "\<not> lg_failed l" "state_ok lib scope nxt" "later lib st nxt" "context_of lib nxt = context_of lib st"
  shows "\<exists>st'. sys_at lib scope st' (snd (persist lib w nxt (l, disk))) \<and> later lib st st'"
proof -
  obtain r l' disk' where p: "persist lib w nxt (l, disk) = (r, l', disk')" by (metis surj_pair)
  from assms(1) p show ?thesis
  proof (cases rule: persist_cases)
    case 1
    with assms p show ?thesis by (intro exI [of _ st]) (auto simp: sys_at_def)
  next
    case 2
    with assms p show ?thesis by (intro exI [of _ nxt]) (auto simp: sys_at_def)
  next
    case 3
    with assms p show ?thesis by (intro exI [of _ nxt]) (auto simp: sys_at_def)
  qed
qed

lemma find_field_in: "find_field fs k = Some d \<Longrightarrow> d \<in> snd ` set fs"
  by (force simp: find_field_def dest: map_of_SomeD split: option.splits)

lemma dec_members_strict_keeps:
  assumes "dec_members_strict fs ms x = Some y" "P x" "\<forall>d \<in> snd ` set fs. \<forall>v x y. d v x = Some y \<and> P x \<and> Q v \<longrightarrow> P y" "\<forall>(k, v) \<in> set ms. Q v"
  shows "P y"
  using assms
proof (induction fs ms x rule: dec_members_strict.induct)
  case (2 fs k v ms x)
  then obtain d z where d: "find_field fs k = Some d" "d v x = Some z" "dec_members_strict fs ms z = Some y"
    by (auto split: option.splits)
  have "d \<in> snd ` set fs" using d(1) by (rule find_field_in)
  then have "P z" using 2(3-5) d(2) by auto
  then show ?case using 2(1) [OF d] 2(4,5) by simp
qed simp

lemma verify_utf8:
  assumes "run_lib_ok lib" "verify lib scope e = Inr c"
  shows "utf8_valid (rc_RunID c)"
proof -
  obtain j where j: "json_read (json_lib.truncate lib) e = Some j" "dec_struct_strict (RunContext_fields lib) j zero_RunContext = Some c"
    using assms(2) by (auto simp: verify_def split: option.splits if_splits)
  let ?Q = "\<lambda>v. \<forall>s. v = JStr s \<longrightarrow> utf8_valid s"
  show ?thesis
  proof (cases j)
    case (JObj ms)
    have "\<forall>(k, v) \<in> set ms. ?Q v" using run_lib_okD(2) [OF assms(1)] j(1) JObj by blast
    moreover have "utf8_valid (rc_RunID zero_RunContext)" by (simp add: zero_RunContext_def)
    moreover have "\<forall>d \<in> snd ` set (RunContext_fields lib). \<forall>v x y. d v x = Some y \<and> utf8_valid (rc_RunID x) \<and> ?Q v \<longrightarrow> utf8_valid (rc_RunID y)"
      by (auto simp: RunContext_fields_def dec_string_def dec_time_def split: json.splits)
    ultimately show ?thesis using j(2) JObj dec_members_strict_keeps [of "RunContext_fields lib" ms zero_RunContext c "\<lambda>c. utf8_valid (rc_RunID c)" ?Q]
      by (simp add: dec_struct_strict_def)
  qed (use j(2) in \<open>auto simp: dec_struct_strict_def zero_RunContext_def\<close>)
qed

lemma Apply_step:
  assumes "sys_at lib scope st s"
  shows "\<exists>st'. sys_at lib scope st' (snd (Ledger_Apply lib w (utc n) s)) \<and> later lib st st'"
proof (cases s)
  case (Pair l disk)
  show ?thesis
  proof (cases "fst (Ledger_Apply lib w (utc n) s) = None \<and> ls_AppliedAt (lg_data l) = None \<or> snd (Ledger_Apply lib w (utc n) s) \<noteq> s")
    case True
    then have c: "\<not> lg_failed l" "ls_AppliedAt (lg_data l) = None"
      "snd (Ledger_Apply lib w (utc n) s) = snd (persist lib w ((lg_data l)\<lparr>ls_AppliedAt := Some (utc n)\<rparr>) (l, disk))"
      "\<exists>c. lg_context l = Some c \<and> \<not> Before (utc n) (ls_CommittedAt (lg_data l)) \<and> Before (utc n) (rc_ExpiresAt c)"
      using Pair by (auto simp: Ledger_Apply_def split: if_splits option.splits)
    let ?nxt = "(lg_data l)\<lparr>ls_AppliedAt := Some (utc n)\<rparr>"
    have d: "lg_data l = st" "lg_context l = context_of lib st" "state_ok lib scope st" using assms c(1) Pair by (auto simp: sys_at_def)
    have e: "context_of lib ?nxt = context_of lib st" using d by (simp add: context_of_def split: option.split)
    moreover have "later lib st ?nxt" using d e by (simp add: later_def is_invalid_def generation_of_def)
    moreover have "state_ok lib scope ?nxt"
      using d c(4) e by (auto simp: state_ok_def utc_def context_of_def split: if_splits option.splits)
    ultimately show ?thesis using c(1,3) assms Pair persist_step [of lib scope st l disk ?nxt w] by simp
  qed (use assms in \<open>auto intro: exI [of _ st]\<close>)
qed

lemma mark_step:
  assumes "sys_at lib scope st (l, disk)" "\<not> lg_failed l" "utf8_valid r"
  shows "\<exists>st'. sys_at lib scope st' (snd (persist lib w (mark_invalid r (lg_data l)) (l, disk))) \<and> later lib st st'"
proof -
  have "lg_data l = st" "state_ok lib scope st" using assms(1,2) by (auto simp: sys_at_def)
  with assms show ?thesis by (intro persist_step) (simp_all add: mark_invalid_facts)
qed

lemma context_of_verify: "context_of lib st = Some c \<Longrightarrow> \<exists>e. verify lib (ls_Scope st) e = Inr c"
  by (auto simp: context_of_def split: option.splits sum.splits)

lemma InvalidateRun_step:
  assumes "run_lib_ok lib" "sys_at lib scope st s"
  shows "\<exists>st'. sys_at lib scope st' (snd (InvalidateRun lib w r s)) \<and> later lib st st'"
proof (cases s)
  case (Pair l disk)
  show ?thesis
  proof (cases "lg_failed l \<or> map_option rc_RunID (lg_context l) \<noteq> Some r")
    case True
    with Pair assms(2) show ?thesis by (auto simp: InvalidateRun_def intro: exI [of _ st])
  next
    case False
    then obtain c where "context_of lib st = Some c" "rc_RunID c = r" using assms(2) Pair by (auto simp: sys_at_def)
    then have "utf8_valid r" using context_of_verify verify_utf8 [OF assms(1)] by blast
    with False Pair assms(2) show ?thesis by (auto simp: InvalidateRun_def intro: mark_step)
  qed
qed

lemma InvalidateContext_step:
  assumes "run_lib_ok lib" "sys_at lib scope st s"
  shows "\<exists>st'. sys_at lib scope st' (snd (InvalidateContext lib w e s)) \<and> later lib st st'"
proof -
  obtain l disk where s: "s = (l, disk)" by fastforce
  have "\<And>c. verify lib (ls_Scope (lg_data l)) e = Inr c \<Longrightarrow> utf8_valid (rc_RunID c)" using verify_utf8 [OF assms(1)] by blast
  with s assms(2) show ?thesis
    by (auto simp: InvalidateContext_def intro: mark_step exI [of _ st] split: bool.split option.split sum.split)
qed

lemma Reopen_step:
  assumes "run_lib_ok lib" "scope_ok scope" "sys_at lib scope st s"
  shows "ledger_step lib scope EvReopen s = (\<lparr>lg_failed = False, lg_data = st, lg_context = context_of lib st\<rparr>, snd s)
    \<and> sys_at lib scope st (ledger_step lib scope EvReopen s)"
  using assms Open_encoded [of lib scope st] by (cases s) (auto simp: sys_at_def)

lemma Commit_step:
  assumes "run_lib_ok lib" "sys_at lib scope st s"
  shows "\<exists>st'. sys_at lib scope st' (snd (Ledger_Commit lib w e (utc n) s)) \<and> later lib st st'"
proof (cases s)
  case (Pair l disk)
  show ?thesis
  proof (cases "snd (Ledger_Commit lib w e (utc n) s) = s")
    case False
    obtain c where nf: "\<not> lg_failed l" and v: "verify lib (ls_Scope (lg_data l)) e = Inr c"
      and t: "\<not> Before (utc n) (rc_IssuedAt c)" "Before (utc n) (rc_ExpiresAt c)"
      using False Pair by (auto simp: Ledger_Commit_def split: if_splits sum.splits)
    let ?n1 = "(lg_data l)\<lparr>ls_Envelope := Some e, ls_CommittedAt := utc n, ls_AppliedAt := None\<rparr>"
    let ?nxt = "if rc_Status c = ''revoked'' then mark_invalid (rc_RunID c) ?n1 else ?n1"
    have d: "lg_data l = st" "lg_context l = context_of lib st" "state_ok lib scope st" using assms(2) nf Pair by (auto simp: sys_at_def)
    have "1 \<le> rc_Generation c" using v by (auto simp: verify_def split: if_splits option.splits)
    then have g: "generation_of lib st < rc_Generation c"
      using False Pair nf v t d(2) by (auto simp: Ledger_Commit_def Let_def generation_of_def split: if_splits option.splits)
    have c1: "context_of lib ?n1 = Some c" using v by (simp add: context_of_def)
    then have ok1: "state_ok lib scope ?n1" using d t by (auto simp: state_ok_def utc_def)
    have l1: "later lib st ?n1" using d(1) g c1 by (simp add: later_def is_invalid_def generation_of_def)
    have u: "utf8_valid (rc_RunID c)" using verify_utf8 [OF assms(1) v] .
    have ok: "state_ok lib scope ?nxt" "context_of lib ?nxt = Some c" "later lib st ?nxt"
      using ok1 c1 l1 u mark_invalid_facts [OF ok1] later_trans [OF l1] by auto
    obtain r l' disk' where p: "persist lib w ?nxt (l, disk) = (r, l', disk')" by (metis surj_pair)
    have q: "snd (Ledger_Commit lib w e (utc n) s) = (case r of Some _ \<Rightarrow> (l', disk') | None \<Rightarrow> (l'\<lparr>lg_context := Some c\<rparr>, disk'))"
      using False Pair nf v t p unfolding Ledger_Commit_def Let_def by (auto split: if_splits option.splits)
    from assms(2) [unfolded Pair] p show ?thesis
    proof (cases rule: persist_cases)
      case 1
      with q assms(2) Pair show ?thesis by (intro exI [of _ st]) (auto simp: sys_at_def)
    next
      case 2
      with q ok show ?thesis by (intro exI [of _ ?nxt]) (auto simp: sys_at_def)
    next
      case 3
      with q ok nf show ?thesis by (intro exI [of _ ?nxt]) (auto simp: sys_at_def)
    qed
  qed (use assms in \<open>auto intro: exI [of _ st]\<close>)
qed

lemma ledger_step_at:
  assumes "run_lib_ok lib" "scope_ok scope" "sys_at lib scope st s"
  shows "\<exists>st'. sys_at lib scope st' (ledger_step lib scope ev s) \<and> later lib st st'"
proof (cases ev)
  case EvReopen
  have "sys_at lib scope st (ledger_step lib scope EvReopen s)" using Reopen_step [OF assms] by (rule conjunct2)
  with EvReopen show ?thesis by (intro exI [of _ st]) (simp only: later_refl)
qed (use assms in \<open>simp_all add: Commit_step Apply_step InvalidateRun_step InvalidateContext_step\<close>)

lemma ledger_run_at:
  assumes "run_lib_ok lib" "scope_ok scope" "sys_at lib scope st s"
  shows "\<exists>st'. sys_at lib scope st' (fold (ledger_step lib scope) evs s) \<and> later lib st st'"
  using assms(3)
proof (induction evs arbitrary: st s)
  case (Cons ev evs)
  obtain st1 where "sys_at lib scope st1 (ledger_step lib scope ev s)" "later lib st st1"
    using ledger_step_at [OF assms(1,2) Cons.prems] by blast
  with Cons.IH [of st1 "ledger_step lib scope ev s"] show ?case by (auto intro: later_trans)
qed auto

lemma Initialize_at:
  assumes "run_lib_ok lib" "scope_ok scope" "Initialize lib CreateOK scope disk = (Inr l, disk')"
  shows "\<exists>st. sys_at lib scope st (l, disk')"
proof -
  let ?d = "zero_state\<lparr>ls_Version := ledgerVersion, ls_InvalidRuns := Some [], ls_Scope := scope\<rparr>"
  obtain cm where "format_time lib zero_time = Some cm" using run_lib_okD(6) [OF assms(1)] by blast
  then have "encode_state lib ?d \<noteq> None" by (simp add: encode_state_def state_json_def zero_state_def)
  moreover have "state_ok lib scope ?d"
    by (simp add: state_ok_def zero_state_def runs_ok_def context_of_def ledgerVersion_def zero_time_def)
  ultimately show ?thesis
    using assms(2,3) by (intro exI [of _ ?d]) (auto simp: Initialize_def scope_ok_def Let_def sys_at_def context_of_def zero_state_def split: option.splits)
qed

text \<open>A ledger from its creation on.\<close>

definition ledger_run :: "run_lib \<Rightarrow> run_scope \<Rightarrow> ledger_event list \<Rightarrow> Ledger \<times> string option \<Rightarrow> bool" where
  "ledger_run lib scope evs s \<longleftrightarrow>
     (case Initialize lib CreateOK scope None of (Inr l, disk) \<Rightarrow> fold (ledger_step lib scope) evs (l, disk) = s | _ \<Rightarrow> False)"

lemma ledger_run_state:
  assumes "run_lib_ok lib" "scope_ok scope" "ledger_run lib scope evs s"
  shows "\<exists>st. sys_at lib scope st s"
proof -
  obtain l disk where "Initialize lib CreateOK scope None = (Inr l, disk)" "fold (ledger_step lib scope) evs (l, disk) = s"
    using assms(3) unfolding ledger_run_def by (cases "Initialize lib CreateOK scope None"; cases "fst (Initialize lib CreateOK scope None)") auto
  with Initialize_at [OF assms(1,2)] ledger_run_at [OF assms(1,2)] show ?thesis by blast
qed

text \<open>A library to run the ledger with: numbers and times in unary, payloads as they are.\<close>

definition text_members :: "json \<Rightarrow> bool" where
  "text_members j = (case j of JObj ms \<Rightarrow> list_all (\<lambda>(k, v). case v of JStr s \<Rightarrow> utf8_valid s | _ \<Rightarrow> True) ms | _ \<Rightarrow> True)"

definition text_lib :: run_lib where
  "text_lib = \<lparr>json_read = (\<lambda>s. case get_json (length s) s of Some (j, []) \<Rightarrow> if text_members j then Some j else None | _ \<Rightarrow> None),
     json_write = put_json, parse_float = (\<lambda>_. None), format_float = (\<lambda>_. []),
     parse_uint64 = (\<lambda>s. Some (int (length s))),
     format_integer = (\<lambda>n. if n < 0 then CHR ''-'' # replicate (nat (- n)) CHR ''1'' else replicate (nat n) CHR ''1''),
     parse_go_int = (\<lambda>s. if s \<noteq> [] \<and> hd s = CHR ''-'' then Some (- int (length (tl s))) else Some (int (length s))),
     parse_time = (\<lambda>s. Some \<lparr>gt_ns = int (length s), gt_off = 0\<rparr>),
     format_time = (\<lambda>t. if gt_ns t < 0 \<or> gt_off t \<noteq> 0 then None else Some (replicate (nat (gt_ns t)) CHR ''1'')),
     base64_decode = Some, base64_encode = id\<rparr>"

lemma utf8_ones: "utf8_valid (replicate n CHR ''1'')"
  by (induction n) (simp_all add: utf8_valid.simps(2))

lemma text_lib_ok: "run_lib_ok text_lib"
  unfolding run_lib_ok_def
proof (intro conjI allI impI)
  fix st j m
  assume a: "state_json text_lib st = Some j \<and> ls_InvalidRuns st = Some m \<and> runs_ok m \<and> utf8_valid (sc_GatewayID (ls_Scope st))
    \<and> utf8_valid (sc_ClockID (ls_Scope st))"
  then have "text_members j"
    by (auto simp: state_json_def text_lib_def text_members_def utf8_ones split: option.splits if_splits)
  then show "json_read (json_lib.truncate text_lib) (json_write (json_lib.truncate text_lib) j) = Some j"
    using get_put_json [of j "length (put_json j)" "[]"] by (simp add: text_lib_def json_lib.truncate_def)
next
  fix raw ms k v
  assume "json_read (json_lib.truncate text_lib) raw = Some (JObj ms) \<and> (k, JStr v) \<in> set ms"
  then show "utf8_valid v"
    by (auto simp: text_lib_def json_lib.truncate_def text_members_def list_all_iff split: option.splits list.splits if_splits prod.splits)
qed (auto simp: text_lib_def zero_time_def split: if_splits)

definition small_scope :: run_scope where
  "small_scope = \<lparr>sc_GatewayID = ''g'', sc_ClockID = ''k''\<rparr>"

text \<open>A context of a run, valid from 1 to 9.\<close>

definition small_context :: "string \<Rightarrow> nat \<Rightarrow> Envelope" where
  "small_context run gen = put_json (JObj
     [(''schemaVersion'', JStr run_schema), (''gatewayId'', JStr ''g''), (''clockId'', JStr ''k''), (''provisioningRevision'', JStr ''v''),
      (''runId'', JStr run), (''generation'', JNum (replicate gen CHR ''1'')), (''status'', JStr ''active''),
      (''issuedAt'', JStr ''1''), (''validFrom'', JStr ''1''), (''expiresAt'', JStr ''111111111'')])"

lemma small_scope_ok: "scope_ok small_scope"
  by (simp add: scope_ok_def small_scope_def utf8_valid.simps(2))

definition small_events :: "ledger_event list" where
  "small_events = [EvCommit WriteOK (small_context ''r'' 1) 2, EvApply WriteOK 3, EvInvalidateRun WriteOK ''r'']"

definition small_more :: "ledger_event list" where
  "small_more = [EvCommit FailsAfter (small_context ''q'' 2) 4, EvReopen, EvApply WriteOK 5]"

definition small_ledger :: "ledger_event list \<Rightarrow> Ledger \<times> string option" where
  "small_ledger evs = (case Initialize text_lib CreateOK small_scope None of (Inr l, disk) \<Rightarrow> fold (ledger_step text_lib small_scope) evs (l, disk))"

definition small_check :: "Ledger \<times> string option \<Rightarrow> Ledger \<times> string option \<Rightarrow> bool" where
  "small_check s s' \<longleftrightarrow> Invalidated ''r'' (fst s) = Inr True \<and> \<not> isl (Ledger_Current (fst s)) \<and> \<not> lg_failed (fst s')
     \<and> map_option rc_RunID (lg_context (fst s')) = Some ''q'' \<and> \<not> isl (Ledger_Current (fst s'))
     \<and> rr_Status (Ledger_Evaluate ''v'' (utc 6) (utc 7) (fst s')) = ''valid''"

lemma small_checked: "small_check (small_ledger small_events) (small_ledger (small_events @ small_more))"
  by code_simp

lemmas small_values = small_checked [unfolded small_check_def]

lemma small_ledger_run: "ledger_run text_lib small_scope evs (small_ledger evs)"
  by (simp add: ledger_run_def small_ledger_def Initialize_def small_scope_def Let_def)

text \<open>C26: The ledger never locks itself out. After any sequence of commits, applications, invalidations, failed writes and restarts since
  its creation its file opens, and gives the ledger as it is in memory unless a write failed.\<close>

theorem ledger_reopens:
  assumes "run_lib_ok lib" "scope_ok scope" "ledger_run lib scope evs (l, disk)"
  shows "\<exists>l'. Ledger_Open lib disk scope = Inr l' \<and> \<not> lg_failed l' \<and> (lg_failed l \<or> l' = l)"
proof -
  obtain st where "sys_at lib scope st (l, disk)" using ledger_run_state [OF assms] by blast
  with Open_encoded [OF assms(1) _ assms(2), of st] show ?thesis by (cases l) (auto simp: sys_at_def)
qed

theorem ledger_reopens_witness:
  "\<exists>l'. Ledger_Open text_lib (snd (small_ledger (small_events @ small_more))) small_scope = Inr l' \<and> map_option rc_RunID (lg_context l') = Some ''q''"
proof -
  let ?s = "small_ledger (small_events @ small_more)"
  have "\<not> lg_failed (fst ?s) \<and> map_option rc_RunID (lg_context (fst ?s)) = Some ''q''" using small_values by blast
  with ledger_reopens [OF text_lib_ok small_scope_ok, of "small_events @ small_more" "fst ?s" "snd ?s"] small_ledger_run [of "small_events @ small_more"]
  show ?thesis by auto
qed

lemma ledger_run_on:
  assumes "run_lib_ok lib" "scope_ok scope" "ledger_run lib scope evs (l, disk)" "fold (ledger_step lib scope) evs' (l, disk) = (l', disk')"
  obtains st st' where "sys_at lib scope st (l, disk)" "sys_at lib scope st' (l', disk')" "later lib st st'"
proof -
  obtain st where "sys_at lib scope st (l, disk)" using ledger_run_state [OF assms(1-3)] by blast
  with ledger_run_at [OF assms(1,2) this, of evs'] assms(4) that show ?thesis by auto
qed

text \<open>C9: A run that the ledger calls invalidated is never reported valid again, whatever is committed, applied or invalidated afterwards,
  whichever writes fail and however often the process restarts.\<close>

theorem invalidated_for_good:
  assumes "run_lib_ok lib" "scope_ok scope" "ledger_run lib scope evs (l, disk)" "Invalidated r l = Inr True"
    and "fold (ledger_step lib scope) evs' (l, disk) = (l', disk')" "rr_Status (Ledger_Evaluate revision start stop l') = ''valid''"
  shows "rr_RunID (Ledger_Evaluate revision start stop l') \<noteq> r"
proof -
  obtain st st' where st: "sys_at lib scope st (l, disk)" "sys_at lib scope st' (l', disk')" "later lib st st'"
    using assms(1-3,5) by (rule ledger_run_on)
  have "is_invalid st r" using st(1) assms(4) by (auto simp: sys_at_def Invalidated_def split: if_splits)
  then have "is_invalid st' r" using st(3) by (simp add: later_def)
  with st(2) assms(6) show ?thesis
    by (auto simp: Ledger_Evaluate_def run_invalid_def run_unverified_def sys_at_def split: if_splits option.splits)
qed

theorem invalidated_for_good_witness:
  "let l' = fst (small_ledger (small_events @ small_more)); res = Ledger_Evaluate ''v'' (utc 6) (utc 7) l'
   in Invalidated ''r'' (fst (small_ledger small_events)) = Inr True \<and> rr_Status res = ''valid'' \<and> rr_RunID res \<noteq> ''r''"
proof -
  let ?l = "small_ledger small_events" and ?l' = "small_ledger (small_events @ small_more)"
  have i: "Invalidated ''r'' (fst ?l) = Inr True" using small_values by blast
  have v: "rr_Status (Ledger_Evaluate ''v'' (utc 6) (utc 7) (fst ?l')) = ''valid''" using small_values by blast
  have f: "fold (ledger_step text_lib small_scope) small_more ?l = ?l'"
    by (simp add: small_ledger_def Initialize_def small_scope_def Let_def)
  from invalidated_for_good [OF text_lib_ok small_scope_ok, of small_events "fst ?l" "snd ?l" "''r''" small_more "fst ?l'" "snd ?l'"]
    i v f small_ledger_run [of small_events] show ?thesis by (simp add: Let_def)
qed

text \<open>C30: The generation of the ledger's context never goes down, over failed writes and restarts, and of one generation the ledger only ever
  holds one context.\<close>

theorem one_context_per_generation:
  assumes "run_lib_ok lib" "scope_ok scope" "ledger_run lib scope evs (l, disk)" "fold (ledger_step lib scope) evs' (l, disk) = (l', disk')"
    and "Ledger_Current l = Inr c" "Ledger_Current l' = Inr c'"
  shows "rc_Generation c \<le> rc_Generation c' \<and> (rc_Generation c = rc_Generation c' \<longrightarrow> c = c')"
proof -
  obtain st st' where "sys_at lib scope st (l, disk)" "sys_at lib scope st' (l', disk')" "later lib st st'"
    using assms(1-4) by (rule ledger_run_on)
  with assms(5,6) show ?thesis
    by (auto simp: Ledger_Current_def sys_at_def later_def generation_of_def split: bool.splits option.splits)
qed

theorem one_context_per_generation_witness:
  "\<exists>c c'. Ledger_Current (fst (small_ledger small_events)) = Inr c \<and> Ledger_Current (fst (small_ledger (small_events @ small_more))) = Inr c'
     \<and> rc_Generation c \<le> rc_Generation c'"
proof -
  let ?l = "small_ledger small_events" and ?l' = "small_ledger (small_events @ small_more)"
  have "\<not> isl (Ledger_Current (fst ?l))" "\<not> isl (Ledger_Current (fst ?l'))" using small_values by blast+
  then obtain c c' where r: "Ledger_Current (fst ?l) = Inr c" "Ledger_Current (fst ?l') = Inr c'" by (metis isl_def sum.exhaust)
  have f: "fold (ledger_step text_lib small_scope) small_more ?l = ?l'"
    by (simp add: small_ledger_def Initialize_def small_scope_def Let_def)
  from one_context_per_generation [OF text_lib_ok small_scope_ok, of small_events "fst ?l" "snd ?l" small_more "fst ?l'" "snd ?l'"]
    r f small_ledger_run [of small_events] show ?thesis by auto
qed

text \<open>The operations that invalidate record it, and an archive opens to the ledger's context with its own time of application.\<close>

lemma persist_None: "persist lib w nxt s = (None, s') \<Longrightarrow> fst s' = (fst s)\<lparr>lg_data := nxt\<rparr>"
  by (cases s) (auto simp: persist_def split: option.splits write_end.splits)

lemma invalidation_recorded:
  assumes "sys_at lib scope st (l, disk)"
  shows "InvalidateRun lib w r (l, disk) = (None, s') \<Longrightarrow> Invalidated r (fst s') = Inr True"
    and "verify lib scope e = Inr c \<Longrightarrow> InvalidateContext lib w e (l, disk) = (None, s') \<Longrightarrow> Invalidated (rc_RunID c) (fst s') = Inr True"
proof -
  have i: "is_invalid (mark_invalid q (lg_data l)) q" if "\<not> lg_failed l" for q
    using that assms mark_invalid_facts(1) [of lib scope st q q] by (auto simp: sys_at_def)
  then show "InvalidateRun lib w r (l, disk) = (None, s') \<Longrightarrow> Invalidated r (fst s') = Inr True"
    by (auto simp: InvalidateRun_def Invalidated_def dest: persist_None split: if_splits)
  have "ls_Scope (lg_data l) = scope" if "\<not> lg_failed l" using that assms by (auto simp: sys_at_def state_ok_def)
  with i show "verify lib scope e = Inr c \<Longrightarrow> InvalidateContext lib w e (l, disk) = (None, s') \<Longrightarrow> Invalidated (rc_RunID c) (fst s') = Inr True"
    by (auto simp: InvalidateContext_def Invalidated_def dest: persist_None split: if_splits bool.splits option.splits)
qed

lemma Archive_opens:
  assumes "run_lib_ok lib" "scope_ok scope" "sys_at lib scope st (l, disk)" "Archive lib w (utc n) l file = (None, file')"
  shows "Ledger_Open lib file' scope = Inr (l\<lparr>lg_data := (lg_data l)\<lparr>ls_AppliedAt := Some (utc n)\<rparr>\<rparr>)"
proof -
  let ?st = "(lg_data l)\<lparr>ls_AppliedAt := Some (utc n)\<rparr>"
  obtain c a raw where l: "\<not> lg_failed l" "lg_context l = Some c" "ls_AppliedAt (lg_data l) = Some a" "encode_state lib ?st = Some raw" "file' = Some raw"
    and t: "\<not> Before (utc n) (ls_CommittedAt (lg_data l))" "Before (utc n) (rc_ExpiresAt c)"
    using assms(4) by (auto simp: Archive_def split: bool.splits option.splits if_splits create_end.splits)
  have d: "lg_data l = st" "state_ok lib scope st" "context_of lib st = Some c" using l assms(3) by (auto simp: sys_at_def)
  have e: "context_of lib ?st = Some c" using d by (simp add: context_of_def split: option.splits)
  have "state_ok lib scope ?st" using d e t by (auto simp: state_ok_def utc_def context_of_def split: if_splits option.splits)
  from Open_encoded [OF assms(1) this assms(2) l(4)] l(1,2,5) e show ?thesis by (cases l) simp
qed

end
