(* ===== verification/Clock_Stage_Facts.thy ===== *)
theory Clock_Stage_Facts
  imports Clock_Stage Run_Ledger_Facts
begin

text \<open>
  A staged snapshot is coherent: the native configuration and the Point List speak of the same points, every point has its own
  address, no clock is a point, every point follows at most one clock, and every release has a writable target of its own.
\<close>

section \<open>Coherence\<close>

definition native_point :: "Entry \<Rightarrow> NativeClockPoint" where
  "native_point e = \<lparr>np_LocalID = LocalID e, np_DeviceRef = DeviceRef e, np_Unit = EntryUnit e, np_Writable = Writable e\<rparr>"

definition equipment_points :: "Entry list \<Rightarrow> Entry list" where
  "equipment_points es = filter (\<lambda>e. ReleaseOf e = []) es"

definition coherent_points :: "ClockScope \<Rightarrow> NativeClockPoint list \<Rightarrow> Entry list \<Rightarrow> bool" where
  "coherent_points scope ps es \<longleftrightarrow>
     ps = map native_point (equipment_points es) \<and> distinct (map PointID es) \<and> [] \<notin> PointID ` set es \<and> distinct (map np_LocalID ps)
     \<and> (\<forall>e \<in> set es. ConnectorID e = cs_ConnectorID scope \<and> Protocol e = ''bacnet'')"

definition coherent_clocks :: "NativeClock list \<Rightarrow> NativeClockPoint list \<Rightarrow> bool" where
  "coherent_clocks cs ps \<longleftrightarrow>
     distinct (map nc_ClockID cs) \<and> distinct (map nc_LocalID cs) \<and> set (map nc_LocalID cs) \<inter> set (map np_LocalID ps) = {}
     \<and> distinct (concat (map nc_PointLocalIDs cs)) \<and> set (concat (map nc_PointLocalIDs cs)) \<subseteq> set (map np_LocalID ps)"

definition coherent_releases :: "Entry list \<Rightarrow> bool" where
  "coherent_releases es \<longleftrightarrow>
     (let rs = filter (\<lambda>e. ReleaseOf e \<noteq> []) es in
      distinct (map ReleaseOf rs) \<and> (\<forall>r \<in> set rs. \<exists>t \<in> set (equipment_points es). PointID t = ReleaseOf r \<and> Writable t))"

section \<open>Entries of the mapper\<close>

lemma bacnet_protocol: "ToLower (TrimSpace ''bacnet'') = ''bacnet''"
  by code_simp

lemma clock_entry_facts:
  assumes "dto_Protocol p = ''bacnet''" "cs_ConnectorID scope \<noteq> []"
  shows "PointID (clock_entry lib scope p) = dto_PointID p" "ReleaseOf (clock_entry lib scope p) = dto_ReleaseOf p"
    "ConnectorID (clock_entry lib scope p) = cs_ConnectorID scope" "Protocol (clock_entry lib scope p) = ''bacnet''"
  using assms bacnet_protocol
  by (auto simp: clock_entry_def mapDTO_def clock_mapper_def Let_def dto_protocol_def connectorFor_def map_get_def split: prod.split)

section \<open>The loops\<close>

lemma stage_clocks_ok:
  assumes "stage_clocks lib scope cs acc = Inr res" "coherent_clocks acc []"
  shows "coherent_clocks res []"
  using assms
proof (induction lib scope cs acc rule: stage_clocks.induct)
  case (2 lib scope c cs acc)
  then show ?case by (auto simp: coherent_clocks_def split: if_splits)
qed simp

lemma stage_bindings_ok:
  assumes "stage_bindings clocks bs m = Inr m'" "\<forall>(e, c) \<in> set m. c \<in> set clocks"
  shows "\<forall>(e, c) \<in> set m'. c \<in> set clocks"
  using assms
proof (induction clocks bs m rule: stage_bindings.induct)
  case (2 clocks b bs m)
  have "set (AList.update k v m) \<subseteq> insert (k, v) (set m)" for k v by (induction m) auto
  with 2 show ?case by (fastforce split: if_splits)
qed simp

text \<open>What the loop over the points keeps; \<open>cs\<close> are the clocks before it.\<close>

definition points_inv :: "ClockScope \<Rightarrow> NativeClock list \<Rightarrow> stage_state \<Rightarrow> bool" where
  "points_inv scope cs st \<longleftrightarrow>
     coherent_points scope (st_points st) (st_entries st) \<and> coherent_clocks (st_clocks st) (st_points st)
     \<and> map nc_ClockID (st_clocks st) = map nc_ClockID cs \<and> map PointID (st_entries st) = rev (st_ids st)
     \<and> set (st_writable st) = PointID ` {e \<in> set (equipment_points (st_entries st)). Writable e}
     \<and> map dto_ReleaseOf (st_releases st) = map ReleaseOf (filter (\<lambda>e. ReleaseOf e \<noteq> []) (st_entries st))"

lemma stage_release_inv:
  assumes "stage_release lib scope p st = Inr st'" "points_inv scope cs st" "cs_ConnectorID scope \<noteq> []" "dto_ReleaseOf p \<noteq> []"
  shows "points_inv scope cs st'"
proof -
  have p: "dto_Protocol p = ''bacnet''" "dto_PointID p \<noteq> []" "dto_PointID p \<notin> set (st_ids st)"
    and st': "st' = st\<lparr>st_ids := dto_PointID p # st_ids st, st_releases := st_releases st @ [p], st_entries := st_entries st @ [clock_entry lib scope p]\<rparr>"
    using assms(1) by (auto simp: stage_release_def split: if_splits)
  have "dto_PointID p \<notin> PointID ` set (st_entries st)"
    using assms(2) p(3) by (metis points_inv_def set_map set_rev)
  with assms(2-4) p clock_entry_facts [OF p(1) assms(3), of lib] show ?thesis
    by (auto simp: st' points_inv_def coherent_points_def equipment_points_def)
qed

lemma add_to_clock_ids [simp]:
  "map nc_ClockID (add_to_clock c lid cs) = map nc_ClockID cs" "map nc_LocalID (add_to_clock c lid cs) = map nc_LocalID cs"
  by (simp_all add: add_to_clock_def)

lemma add_to_clock_other: "c \<notin> nc_ClockID ` set cs \<Longrightarrow> add_to_clock c lid cs = cs"
  unfolding add_to_clock_def by (rule map_idI) auto

lemma add_to_clock_points:
  assumes "distinct (map nc_ClockID cs)"
  shows "mset (concat (map nc_PointLocalIDs (add_to_clock c lid cs)))
    = mset (concat (map nc_PointLocalIDs cs)) + (if c \<in> nc_ClockID ` set cs then {#lid#} else {#})"
  using assms
proof (induction cs)
  case Nil
  then show ?case by (simp add: add_to_clock_def)
next
  case (Cons x cs)
  have "add_to_clock c lid (x # cs) = (if nc_ClockID x = c then x\<lparr>nc_PointLocalIDs := nc_PointLocalIDs x @ [lid]\<rparr> else x) # add_to_clock c lid cs"
    by (simp add: add_to_clock_def)
  with Cons show ?case by (auto simp: add_to_clock_other)
qed

lemma add_to_clock_coherent:
  assumes "coherent_clocks cs ps" "np_LocalID q \<notin> set (map np_LocalID ps)" "np_LocalID q \<notin> set (map nc_LocalID cs)"
  shows "coherent_clocks cs (ps @ [q])" "coherent_clocks (add_to_clock c (np_LocalID q) cs) (ps @ [q])"
proof -
  let ?pts = "\<lambda>cs. concat (map nc_PointLocalIDs cs)" and ?cs = "add_to_clock c (np_LocalID q) cs"
  have "mset (?pts ?cs) = mset (np_LocalID q # ?pts cs) \<or> mset (?pts ?cs) = mset (?pts cs)"
    using assms(1) by (subst (1 2) add_to_clock_points) (auto simp: coherent_clocks_def)
  moreover have "distinct (np_LocalID q # ?pts cs)" using assms(1,2) by (auto simp: coherent_clocks_def)
  ultimately have "distinct (?pts ?cs)" "set (?pts ?cs) \<subseteq> insert (np_LocalID q) (set (?pts cs))"
    using mset_eq_imp_distinct_iff [of "?pts ?cs"] mset_eq_setD [of "?pts ?cs"] by (metis distinct.simps(2), metis list.simps(15) set_eq_subset subset_insertI)
  moreover from this(2) have "set (?pts ?cs) \<subseteq> set (map np_LocalID (ps @ [q]))"
    using assms(1) unfolding coherent_clocks_def by (simp del: set_concat) blast
  ultimately show "coherent_clocks ?cs (ps @ [q])"
    using assms unfolding coherent_clocks_def add_to_clock_ids by simp
  show "coherent_clocks cs (ps @ [q])" using assms by (auto simp: coherent_clocks_def)
qed

lemma stage_device_result:
  assumes "stage_device n bindings p lid st = Inr st'"
  shows "\<exists>eq cs'. st' = st\<lparr>st_equipment := eq, st_clocks := cs'\<rparr> \<and> (cs' = st_clocks st \<or> (\<exists>c. cs' = add_to_clock c lid (st_clocks st)))"
  using assms by (cases st) (auto simp: stage_device_def Let_def split: option.splits if_splits)

lemma stage_point_inv:
  assumes "stage_point lib scope n bindings p st = Inr st'" "points_inv scope cs st" "cs_ConnectorID scope \<noteq> []"
  shows "points_inv scope cs st'"
proof (cases "dto_ReleaseOf p = []")
  case False
  with assms show ?thesis by (auto simp: stage_point_def intro: stage_release_inv)
next
  case True
  let ?e = "clock_entry lib scope p"
  let ?st = "st\<lparr>st_ids := dto_PointID p # st_ids st, st_writable := (if Writable ?e then [dto_PointID p] else []) @ st_writable st,
      st_points := st_points st @ [native_point ?e], st_entries := st_entries st @ [?e]\<rparr>"
  have p: "dto_Protocol p = ''bacnet''" "dto_PointID p \<noteq> []" "dto_PointID p \<notin> set (st_ids st)"
    and l: "LocalID ?e \<notin> set (map np_LocalID (st_points st))" "LocalID ?e \<notin> set (map nc_LocalID (st_clocks st))"
    and d: "stage_device n bindings p (LocalID ?e) ?st = Inr st'"
    using assms(1) True by (auto simp: stage_point_def Let_def native_point_def split: option.splits if_splits)
  obtain eq cs' where st': "st' = ?st\<lparr>st_equipment := eq, st_clocks := cs'\<rparr>"
    and cs': "cs' = st_clocks st \<or> (\<exists>c. cs' = add_to_clock c (LocalID ?e) (st_clocks st))"
    using stage_device_result [OF d] by auto
  have i: "dto_PointID p \<notin> PointID ` set (st_entries st)" using assms(2) p(3) by (metis points_inv_def set_map set_rev)
  have ids: "map nc_ClockID cs' = map nc_ClockID (st_clocks st)" using cs' by auto
  have c: "coherent_clocks cs' (st_points st @ [native_point ?e])"
    using cs' l assms(2) add_to_clock_coherent [of "st_clocks st" "st_points st" "native_point ?e"] by (auto simp: points_inv_def native_point_def)
  note f = clock_entry_facts [OF p(1) assms(3), of lib]
  have cp: "coherent_points scope (st_points st @ [native_point ?e]) (st_entries st @ [?e])"
    using assms(2) i l(1) f p(2,3) True by (auto simp: points_inv_def coherent_points_def equipment_points_def native_point_def)
  have w: "set (st_writable ?st) = PointID ` {e \<in> set (equipment_points (st_entries st @ [?e])). Writable e}"
    using assms(2) f(1,2) True
    by (simp add: points_inv_def equipment_points_def Collect_conj_eq Collect_disj_eq Int_Un_distrib2 image_Un insert_compr [symmetric] conj_disj_distribR)
  show ?thesis
    unfolding points_inv_def
    using c cp w ids assms(2) f True by (simp add: st' points_inv_def)
qed

lemma stage_points_inv:
  assumes "stage_points lib scope n bindings ps st = Inr st'" "points_inv scope cs st" "cs_ConnectorID scope \<noteq> []"
  shows "points_inv scope cs st'"
  using assms
  by (induction lib scope n bindings ps st rule: stage_points.induct) (auto split: sum.splits intro: stage_point_inv)

text \<open>C20: A snapshot that passes staging is coherent: the native points are the equipment points of the Point List, with distinct ids and
  distinct addresses, all of the one connector; the clocks are distinct, none is a point, each has at
  least one point, and no point follows two; every release has a writable equipment point of its own.\<close>

theorem StageClockSnapshot_coherent:
  assumes "StageClockSnapshot lib raw scope = Inr (cfg, es)"
  shows "coherent_points scope (ncc_Points cfg) es \<and> coherent_clocks (ncc_Clocks cfg) (ncc_Points cfg) \<and> coherent_releases es
    \<and> list_all (\<lambda>c. nc_PointLocalIDs c \<noteq> []) (ncc_Clocks cfg)"
proof -
  obtain s where s: "stage_document lib scope s = Inr (cfg, es)" and c: "cs_ConnectorID scope \<noteq> []"
    using assms by (auto simp: StageClockSnapshot_def split: option.splits prod.splits if_splits)
  let ?st0 = "\<lambda>clocks. \<lparr>st_ids = [], st_points = [], st_clocks = clocks, st_entries = [], st_equipment = [], st_writable = [], st_releases = []\<rparr>"
  obtain clocks bindings st where k: "stage_clocks lib scope (cks_ClockSources s) [] = Inr clocks"
    and p: "stage_points lib scope (length (cks_ClockSources s)) bindings (cks_Points s) (?st0 clocks) = Inr st"
    and r: "releases_ok st" "\<not> list_ex (\<lambda>c. nc_PointLocalIDs c = []) (st_clocks st)"
    and res: "ncc_Points cfg = st_points st" "ncc_Clocks cfg = st_clocks st" "es = st_entries st"
    using s by (auto simp: stage_document_def split: if_splits sum.splits)
  have "coherent_clocks clocks []" using k by (rule stage_clocks_ok) (simp add: coherent_clocks_def)
  then have "points_inv scope clocks (?st0 clocks)" by (simp add: points_inv_def coherent_points_def equipment_points_def)
  with p have i: "points_inv scope clocks st" using c by (rule stage_points_inv)
  have rel: "coherent_releases es"
    unfolding coherent_releases_def Let_def
  proof (intro conjI ballI)
    show "distinct (map ReleaseOf (filter (\<lambda>e. ReleaseOf e \<noteq> []) es))" using i r(1) res(3) by (metis points_inv_def releases_ok_def)
    fix x assume "x \<in> set (filter (\<lambda>e. ReleaseOf e \<noteq> []) es)"
    then have "ReleaseOf x \<in> set (map dto_ReleaseOf (st_releases st))" using i res(3) by (simp add: points_inv_def)
    then have "ReleaseOf x \<in> set (st_writable st)" using r(1) by (auto simp: releases_ok_def list_all_iff)
    then show "\<exists>t\<in>set (equipment_points es). PointID t = ReleaseOf x \<and> Writable t" using i res(3) by (auto simp: points_inv_def)
  qed
  with i r(2) res show ?thesis by (auto simp: points_inv_def list_ex_iff list_all_iff)
qed

text \<open>A snapshot with one clock, a point that follows it and a release of that point.\<close>

definition small_clock_scope :: ClockScope where
  "small_clock_scope = \<lparr>cs_GatewayID = ''g'', cs_ConnectorID = ''b'', cs_DeviceID = 1\<rparr>"

definition small_document :: json where
  "small_document = JObj
     [(''schemaVersion'', JStr ''clock-provisioning/1-draft''), (''gatewayId'', JStr ''g''), (''revision'', JStr ''\"sha256:h\"''),
      (''points'', JArr
        [JObj [(''pointId'', JStr ''p''), (''protocol'', JStr ''bacnet''), (''writable'', JBool True),
           (''native'', JObj [(''protocol'', JStr ''bacnet''), (''deviceId'', JStr ''1''), (''objectType'', JStr ''av''), (''instanceNo'', JStr ''1'')]),
           (''device'', JObj [(''dtId'', JStr ''d''), (''id'', JStr ''x'')])],
         JObj [(''pointId'', JStr ''r''), (''protocol'', JStr ''bacnet''), (''writable'', JBool True), (''releaseOf'', JStr ''p'')]]),
      (''clockSources'', JArr
        [JObj [(''clockId'', JStr ''k''), (''clockDomain'', JStr ''simulation''), (''unit'', JStr ''s''), (''readOnly'', JBool True),
           (''acquisitionMode'', JStr ''poll''),
           (''native'', JObj [(''protocol'', JStr ''bacnet''), (''gatewayId'', JStr ''g''), (''connectorId'', JStr ''b''),
              (''deviceInstance'', JNum ''1''), (''objectType'', JStr ''analogValue''), (''objectInstance'', JNum ''1''),
              (''property'', JStr ''presentValue''), (''unit'', JStr ''seconds'')])]]),
      (''clockBindings'', JArr [JObj [(''equipmentId'', JStr ''d''), (''clockId'', JStr ''k'')]])]"

text \<open>A library that reads one text, as this snapshot, and hashes everything alike.\<close>

definition text_clock_lib :: clock_lib where
  "text_clock_lib = run_lib.extend text_lib
     (clock_lib.fields (\<lambda>s. if s = ''S'' then Some (small_document, False) else None) (\<lambda>_. []) (\<lambda>_. ''h'') (\<lambda>s. Some (int (length s))))"

theorem StageClockSnapshot_coherent_witness:
  "\<exists>cfg es. StageClockSnapshot text_clock_lib ''S'' small_clock_scope = Inr (cfg, es) \<and> coherent_clocks (ncc_Clocks cfg) (ncc_Points cfg)"
proof -
  have "\<not> isl (StageClockSnapshot text_clock_lib ''S'' small_clock_scope)" by code_simp
  then obtain cfg es where s: "StageClockSnapshot text_clock_lib ''S'' small_clock_scope = Inr (cfg, es)" by (metis isl_def sum.exhaust surj_pair)
  with StageClockSnapshot_coherent [OF s] show ?thesis by blast
qed

end
