(* ===== verification/Clock_Admission.thy ===== *)
theory Clock_Admission
  imports Clock_Gateway_Facts Clock_Stage_Facts
begin

text \<open>
  The clock provisioning transaction over the gateway, as a whole: what an open gate tells, and that no command is
  under way while the mapping is replaced. A small gateway, whose one snapshot is applied, shows that the gate does open.
\<close>

section \<open>Histories of a gateway\<close>

definition clock_history :: "'d gw_params \<Rightarrow> clock_lib \<Rightarrow> gw_beside ct_event list \<Rightarrow> 'd Gateway ResolverRuntime Controller \<Rightarrow> 'd Gateway ResolverRuntime Controller" where
  "clock_history gp lib es c = ct_history lib (gatewayRuntime (gateway_ops gp)) (rv_beside (gw_other gp)) es c"

lemma NewGateway_held: "NewGateway gp client setup_ok consumer bad m spec dir scope fs b env = (Some g, m') \<Longrightarrow> gw_held g"
  by (auto simp: NewGateway_def split: if_splits sum.splits prod.splits)

lemma NewController_honest:
  "NewController scope timeout (NewResolverRuntime g res) = Some c \<Longrightarrow> gw_held g \<Longrightarrow> honest (\<lambda>r. \<not> gw_held (rv_world r)) (rv_serves vouched) c"
  by (auto simp: NewController_def NewResolverRuntime_def honest_def AppliedRevision_def split: if_splits)


section \<open>Commands and reconfiguration\<close>

text \<open>The calls a runtime gets, in any order.\<close>

datatype rv_call = CallHold | CallStop | CallDrain | CallConfigure ClockSnapshot | CallStart | CallVerify string | CallResume | CallDone | CallBeside gw_beside

primrec rv_step :: "'d gw_params \<Rightarrow> rv_call \<Rightarrow> 'd Gateway ResolverRuntime \<Rightarrow> 'd Gateway ResolverRuntime" where
  "rv_step gp CallHold r = snd (rv_Hold (gateway_ops gp) r)"
| "rv_step gp CallStop r = snd (rv_Stop (gateway_ops gp) r)"
| "rv_step gp CallDrain r = snd (rv_Drain (gateway_ops gp) r)"
| "rv_step gp (CallConfigure s) r = snd (ConfigureSnapshot (gateway_ops gp) s r)"
| "rv_step gp CallStart r = snd (rv_Start (gateway_ops gp) r)"
| "rv_step gp (CallVerify v) r = snd (rv_Verify (gateway_ops gp) v r)"
| "rv_step gp CallResume r = snd (rv_Resume (gateway_ops gp) r)"
| "rv_step gp CallDone r = snd (rv_Done (gateway_ops gp) r)"
| "rv_step gp (CallBeside i) r = rv_beside (gw_other gp) i r"

definition rv_run :: "'d gw_params \<Rightarrow> rv_call list \<Rightarrow> 'd Gateway ResolverRuntime \<Rightarrow> 'd Gateway ResolverRuntime" where
  "rv_run gp cs r = fold (rv_step gp) cs r"

text \<open>While the runtime holds, the gate is closed and no command is in flight.\<close>

definition quiet :: "'d Gateway ResolverRuntime \<Rightarrow> bool" where
  "quiet r \<longleftrightarrow> (rv_held r \<longrightarrow> gw_held (rv_world r) \<and> gw_commands (rv_world r) = 0)"

lemma quiet_keeps: "quiet r \<Longrightarrow> keeps (rv_world r) g \<Longrightarrow> rv_held r' = rv_held r \<Longrightarrow> rv_world r' = g \<Longrightarrow> quiet r'"
  by (auto simp: quiet_def keeps_def)

lemma quiet_shut: "quiet r \<Longrightarrow> shut (rv_world r) g \<Longrightarrow> rv_held r' = rv_held r \<Longrightarrow> rv_world r' = g \<Longrightarrow> quiet r'"
  by (auto simp: quiet_def shut_def)

lemma quiet_Hold: "quiet r \<Longrightarrow> quiet (snd (rv_Hold (gateway_ops gp) r))"
proof -
  assume q: "quiet r"
  obtain x g where h: "gw_Hold gp (rv_world r) = (x, g)" by fastforce
  from gw_Hold_outcome [OF h] q show ?thesis
    by (cases x) (auto simp: rv_Hold_def gateway_ops_def h quiet_def keeps_def)
qed

lemma quiet_Configure:
  assumes "quiet r" "ConfigureSnapshot (gateway_ops gp) s r = (x, r')"
  shows "quiet r' \<and> (rv_resolver r' \<noteq> rv_resolver r \<longrightarrow> rv_held r \<and> rv_held r')"
proof -
  obtain y g where p: "gw_Prepare gp s (rv_world r) = (y, g)" by fastforce
  from gw_Prepare_outcome [OF p] have sg: "shut (rv_world r) g" by simp
  obtain z g' where c: "producer_Configure gp (cls_native s) g = (z, g')" by fastforce
  from keeps_shut [OF keeps_Configure [of g gp "cls_native s"]] c sg have "shut (rv_world r) g'" by (auto simp: shut_def)
  with sg assms p c show ?thesis
    by (auto simp: ConfigureSnapshot_def rv_Configure_def gateway_ops_def quiet_def shut_def split: option.splits if_splits)
qed

lemma quiet_step: "quiet r \<Longrightarrow> quiet (rv_step gp c r)"
proof (cases c)
  case CallResume
  assume "quiet r"
  obtain x g where h: "gw_Resume gp (rv_world r) = (x, g)" by fastforce
  from gw_Resume_outcome [OF h] \<open>quiet r\<close> CallResume h show ?thesis
    by (cases x) (auto simp: rv_Resume_def gateway_ops_def quiet_def shut_def)
next
  case (CallVerify v)
  assume "quiet r"
  obtain x g where h: "producer_Revision gp (rv_world r) = (x, g)" by fastforce
  from producer_Revision_outcome [OF h] \<open>quiet r\<close> CallVerify h show ?thesis
    by (cases x) (auto simp: rv_Verify_def Let_def gateway_ops_def quiet_def shut_def)
next
  case (CallConfigure s)
  assume "quiet r"
  with CallConfigure quiet_Configure show ?thesis by (metis prod.collapse rv_step.simps(4))
next
  case CallHold
  assume "quiet r"
  with CallHold quiet_Hold show ?thesis by simp
next
  case CallStop
  assume "quiet r"
  with CallStop keeps_producer_Stop [of "rv_world r" gp] show ?thesis
    by (auto simp: rv_Stop_def gateway_ops_def split: prod.splits option.splits elim: quiet_keeps)
next
  case CallDrain
  assume "quiet r"
  with CallDrain keeps_Drain [of "rv_world r" gp] show ?thesis
    by (auto simp: rv_Drain_def gateway_ops_def split: prod.splits option.splits elim: quiet_keeps)
next
  case CallStart
  assume "quiet r"
  with CallStart keeps_Start [of "rv_world r" gp] show ?thesis
    by (auto simp: rv_Start_def gateway_ops_def split: prod.splits elim: quiet_keeps)
next
  case CallDone
  assume "quiet r"
  with CallDone keeps_Done [of "rv_world r" gp] show ?thesis
    by (auto simp: rv_Done_def gateway_ops_def split: prod.splits elim: quiet_keeps)
next
  case (CallBeside i)
  assume "quiet r"
  with CallBeside keeps_other [of "rv_world r" gp i] show ?thesis
    by (auto simp: rv_beside_def elim: quiet_keeps)
qed

lemma quiet_run: "quiet r \<Longrightarrow> quiet (rv_run gp cs r)"
  unfolding rv_run_def by (induction cs arbitrary: r) (auto intro: quiet_step)

text \<open>C12: No command overlaps a reconfiguration. Whatever calls the runtime has had, in whatever order and with whatever
  other goroutines in between: a configuration that replaces the resolver's mapping does so with the gate closed and no
  command between its admission and its reply, before it and after it.\<close>

theorem no_command_during_reconfiguration:
  assumes "r = rv_run gp cs (NewResolverRuntime g res)"
    and "ConfigureSnapshot (gateway_ops gp) s r = (x, r')"
    and "rv_resolver r' \<noteq> rv_resolver r"
  shows "gw_held (rv_world r) \<and> gw_commands (rv_world r) = 0 \<and> gw_held (rv_world r') \<and> gw_commands (rv_world r') = 0"
proof -
  have "quiet (NewResolverRuntime g res)" by (simp add: quiet_def NewResolverRuntime_def)
  from quiet_run [OF this] assms(1) have q: "quiet r" by simp
  from quiet_Configure [OF q assms(2)] assms(3) q show ?thesis by (simp add: quiet_def)
qed

section \<open>A gateway whose gate opens\<close>

definition small_session :: string where
  "small_session = EncodeToString (replicate 16 CHR ''a'')"

text \<open>A library in which every reply is the receipt of this session, paused or not, and every address is good.\<close>

definition small_receipt :: "bool \<Rightarrow> json" where
  "small_receipt paused = JObj [(''capability'', JStr ''clock-runtime/1''), (''session'', JStr small_session), (''revision'', JStr ''\"sha256:h\"''),
     (''native_sha256'', JStr ''h''), (''paused'', JBool paused)]"

definition small_session_lib :: session_lib where
  "small_session_lib = clock_lib.extend (text_clock_lib\<lparr>json_read := (\<lambda>s. Some (small_receipt (s = ''p''))), json_write := (\<lambda>_. [])\<rparr>)
     (session_lib.fields Some (\<lambda>_ _. []) concat (\<lambda>_. Some \<lparr>url_Scheme = ''nats'', url_Host = ''h'', url_User = False, url_RawQuery = [], url_Fragment = []\<rparr>) (\<lambda>_. []))"

text \<open>An engine without containers, on which everything succeeds.\<close>

definition small_engine :: "unit ContainerClient" where
  "small_engine = \<lparr>ContainerCreate = (\<lambda>_ d. (Some ''c'', d)), ContainerStart = (\<lambda>_ d. (True, d)), ContainerStop = (\<lambda>_ d. (True, d)),
     ContainerRemove = (\<lambda>_ d. (True, d)), ContainerInspect = (\<lambda>_ d. (InspectNotFound, d)), ImagePull = (\<lambda>_ d. (True, d)), ImageInspect = (\<lambda>_ d. (True, d))\<rparr>"

definition small_params :: "unit gw_params" where
  "small_params = \<lparr>gp_lib = small_session_lib, gp_codec = sample_codec, gp_docker = small_engine,
     gp_config = \<lparr>mgc_NATSURL = [], mgc_ConnectorNetwork = []\<rparr>, gp_regular = (\<lambda>_. True)\<rparr>"

definition small_spec :: ConnectorSpec where
  "small_spec = \<lparr>cs_ID = ''b'', cs_Image = ''i'', cs_PrevImage = [], cs_Env = [''NATS_URL=n'', ''NATS_AUTH_FILE=/a''], cs_Permissions = no_permissions\<rparr>"

text \<open>Surroundings in which the producer is paused until it is asked to resume, and a command comes in between.\<close>

definition small_answer :: "nat \<Rightarrow> answer" where
  "small_answer n = \<lparr>an_between = [Enters False, Leaves], an_waits = [], an_replies = [None, Some (if n < 16 then ''p'' else [])], an_infos = [(Some (0, 0), [])],
     an_random = Some (replicate 16 CHR ''a''), an_write = WriteOK, an_write2 = WriteOK, an_create = CreateOK, an_now = zero_time, an_done = False\<rparr>"

definition small_gateway :: "unit Gateway option" where
  "small_gateway = fst (NewGateway small_params True True True (\<lambda>_. False) (NewManager () []) small_spec ''/d'' small_clock_scope [] sample_buffer small_answer)"

definition small_runtime :: "unit Gateway ResolverRuntime" where
  "small_runtime = NewResolverRuntime (the small_gateway) (NewSynced None)"

definition small_source :: "string \<Rightarrow> clock_error + ClockSnapshot option" where
  "small_source known = Inr (Some \<lparr>cls_raw = ''S'', cls_native = \<lparr>ncc_Revision = [], ncc_ConnectorID = [], ncc_DeviceID = 0, ncc_Points = [], ncc_Clocks = []\<rparr>, cls_entries = []\<rparr>)"

definition small_opens :: bool where
  "small_opens \<longleftrightarrow> small_gateway \<noteq> None \<and>
     (case NewController small_clock_scope 1 small_runtime of
        None \<Rightarrow> False
      | Some c \<Rightarrow> \<not> gw_held (rv_world (ct_rt (clock_history small_params text_clock_lib [Synced False small_source] c))))"

definition small_snapshot :: ClockSnapshot where
  "small_snapshot = \<lparr>cls_raw = ''S'', cls_native = \<lparr>ncc_Revision = ''v'', ncc_ConnectorID = ''b'', ncc_DeviceID = 1, ncc_Points = [], ncc_Clocks = []\<rparr>,
     cls_entries = [zero_Entry\<lparr>PointID := ''p''\<rparr>]\<rparr>"

definition small_held :: "unit Gateway ResolverRuntime" where
  "small_held = rv_run small_params [CallHold, CallStop, CallDrain] small_runtime"

definition small_replaces :: bool where
  "small_replaces \<longleftrightarrow> rv_resolver (snd (ConfigureSnapshot (gateway_ops small_params) small_snapshot small_held)) \<noteq> rv_resolver small_held"

lemma small_evaluated: "small_opens \<and> small_replaces"
  by code_simp


theorem no_command_during_reconfiguration_witness: "gw_held (rv_world small_held) \<and> gw_commands (rv_world small_held) = 0"
proof -
  obtain x r' where k: "ConfigureSnapshot (gateway_ops small_params) small_snapshot small_held = (x, r')" by fastforce
  have "rv_resolver r' \<noteq> rv_resolver small_held" using small_evaluated k by (simp add: small_replaces_def)
  from no_command_during_reconfiguration [OF small_held_def [unfolded small_runtime_def] k this] show ?thesis by blast
qed

end
