(* ===== verification/Clock_Frames.thy ===== *)
theory Clock_Frames
  imports Clock_Admission Point_List_Facts
begin

text \<open>
  What becomes of a clock event: it is stored as a frame of the session it was made in, or quarantined before it is given
  up; a frame is called valid only of the ledger's current run; and a classification, once made, is the one every
  redelivery gets.
\<close>

section \<open>Events and sessions\<close>

text \<open>The quarantined message: reason, subject, headers and raw data.\<close>

definition quarantined :: "session_lib \<Rightarrow> clock_delivery \<Rightarrow> nat \<Rightarrow> string \<Rightarrow> clock_fs \<Rightarrow> bool" where
  "quarantined lib d n reason fs \<longleftrightarrow>
     map_of fs [''quarantine'', format_integer lib (int n) @ ''.json''] =
       Some (json_write lib (JObj [(''Reason'', JStr reason), (''Subject'', JStr (dl_Subject d)),
         (''Headers'', if dl_Headers d = [] then JNull else JObj (map (\<lambda>(k, vs). (k, JArr (map JStr vs))) (sort_key fst (dl_Headers d)))),
         (''Data'', JStr (base64_encode lib (dl_Data d)))]))"

lemma boundFrame_point:
  assumes "boundFrame lib scope evt r = Some f"
  shows "GatewayId f = cs_GatewayID scope \<and> (\<exists>e \<in> set (cls_entries (sr_snapshot r)). ReleaseOf e = [] \<and> PointID e = PointId f)"
proof -
  obtain w where n: "Normalize (json_lib.truncate lib) [] w (Fixture_Resolve (NewFixture (cls_entries (sr_snapshot r)))) (cs_GatewayID scope) = (Some f, OutcomeOK)"
    using assms by (auto simp: boundFrame_def Let_def split: if_splits option.splits prod.splits Outcome.splits)
  then obtain c l where "Fixture_Resolve (NewFixture (cls_entries (sr_snapshot r))) c l = Some (PointId f)" "GatewayId f = cs_GatewayID scope"
    by (auto simp: Normalize_def Let_def split: option.splits ValueKind.splits)
  moreover have "\<exists>e \<in> set es. ReleaseOf e = [] \<and> PointID e = p" if "Fixture_Resolve (NewFixture es) c l = Some p" for es p
    using that by (auto simp: Fixture_Resolve_def NewFixture_def index_forward_lookup dest!: last_such_SomeD split: option.splits)
  ultimately show ?thesis by blast
qed

lemma event_recordD:
  "event_record lib d ss = Some (r, evt) \<Longrightarrow> session_get (header ''Nexus-Session'' (dl_Headers d)) ss = Some r \<and> sr_verified r
     \<and> header ''Nexus-Config-Revision'' (dl_Headers d) = Snapshot_Revision (sr_snapshot r) \<and> decode_Event (json_lib.truncate lib) (dl_Data d) = Some evt"
  by (auto simp: event_record_def split: option.splits if_splits)

lemma bindRunFrame_buffer: "bindRunFrame gp d r f g = (x, g') \<Longrightarrow> gw_buffer g' = gw_buffer g \<and> gw_recent g' = gw_recent g"
  by (auto simp: bindRunFrame_def new_receipt_def Let_def split: if_splits option.splits file_read.splits sum.splits prod.splits bool.splits)

lemma quarantine_outcome:
  "quarantine gp d n reason g = (x, g') \<Longrightarrow> gw_buffer g' = gw_buffer g \<and> gw_recent g' = gw_recent g \<and> x \<noteq> DoubleAcked
     \<and> (x = Terminated \<longrightarrow> quarantined (gp_lib gp) d n reason (gw_fs g'))"
  by (auto simp: quarantine_def quarantined_def atomicFile_def Let_def update_conv' split: prod.splits bool.splits write_end.splits if_splits)

lemma store_frame_outcome:
  "store_frame gp d f g = (x, g') \<Longrightarrow> x \<noteq> Terminated
     \<and> (x = DoubleAcked \<longrightarrow> Write (gp_codec gp) (dl_db d) f (gw_buffer g) = (None, gw_buffer g') \<and> gw_recent g' = gw_recent g @ [f])"
  by (auto simp: store_frame_def split: prod.splits option.splits if_splits)

text \<open>C15: Only events of verified sessions become telemetry. A delivery is acknowledged only when its frame has been written to
  the buffer, and then the event names a verified session and that session's revision, and its frame is bound to an
  equipment point of the snapshot archived with that session, whatever the resolver maps by now. A delivery is given up
  only when the whole message has been put into quarantine, and then nothing is stored.\<close>

theorem clock_event_settled:
  "case process gp d g of (x, g') \<Rightarrow>
     (case x of
        DoubleAcked \<Rightarrow>
          (\<exists>r evt f f1. session_get (header ''Nexus-Session'' (dl_Headers d)) (gw_store g) = Some r \<and> sr_verified r
             \<and> header ''Nexus-Config-Revision'' (dl_Headers d) = Snapshot_Revision (sr_snapshot r)
             \<and> decode_Event (json_lib.truncate (gp_lib gp)) (dl_Data d) = Some evt
             \<and> boundFrame (gp_lib gp) (ss_scope (gw_store g)) evt r = Some f
             \<and> (\<exists>e \<in> set (cls_entries (sr_snapshot r)). ReleaseOf e = [] \<and> PointID e = PointId f)
             \<and> fst (bindRunFrame gp d r f g) = Inr f1 \<and> gw_recent g' = gw_recent g @ [f1]
             \<and> Write (gp_codec gp) (dl_db d) f1 (gw_buffer g) = (None, gw_buffer g'))
      | Terminated \<Rightarrow>
          gw_buffer g' = gw_buffer g \<and> gw_recent g' = gw_recent g
          \<and> (\<exists>n reason. dl_Sequence d = Some n \<and> quarantined (gp_lib gp) d n reason (gw_fs g'))
      | NakedLater \<Rightarrow> True)"
proof -
  obtain x g' where p: "process gp d g = (x, g')" by fastforce
  show ?thesis
  proof (cases "dl_Sequence d")
    case None
    with p show ?thesis by (auto simp: process_def)
  next
    case (Some n)
    show ?thesis
    proof (cases "event_record (gp_lib gp) d (gw_store g)")
      case None
      with p Some have "quarantine gp d n ''unknown or unverified session'' g = (x, g')" by (simp add: process_def)
      from quarantine_outcome [OF this] p Some show ?thesis by (auto split: settlement.splits)
    next
      case rec: (Some re)
      obtain r evt where re: "re = (r, evt)" by fastforce
      note ev = event_recordD [OF rec [unfolded re]]
      show ?thesis
      proof (cases "boundFrame (gp_lib gp) (ss_scope (gw_store g)) evt r")
        case None
        with p Some rec re have "quarantine gp d n ''event does not match its archived session'' g = (x, g')" by (simp add: process_def)
        from quarantine_outcome [OF this] p Some show ?thesis by (auto split: settlement.splits)
      next
        case bf: (Some f)
        obtain y g1 where b: "bindRunFrame gp d r f g = (y, g1)" by fastforce
        note same = bindRunFrame_buffer [OF b]
        show ?thesis
        proof (cases y)
          case (Inl e)
          show ?thesis
          proof (cases e)
            case BindFailed
            with p Some rec re bf b Inl show ?thesis by (auto simp: process_def)
          next
            case InvalidPoll
            with p Some rec re bf b Inl have "quarantine gp d n ''event does not match its archived session'' g1 = (x, g')" by (simp add: process_def)
            from quarantine_outcome [OF this] same p Some show ?thesis by (auto split: settlement.splits)
          qed
        next
          case (Inr f1)
          with p Some rec re bf b have "store_frame gp d f1 g1 = (x, g')" by (simp add: process_def)
          from store_frame_outcome [OF this] same p ev bf boundFrame_point [OF bf] b Inr show ?thesis
            by (auto split: settlement.splits)
        qed
      qed
    qed
  qed
qed

section \<open>Verdicts\<close>

text \<open>The frames that are classified: those of the clock a session's run is bound to.\<close>

definition run_frame :: "sessionRecord \<Rightarrow> TelemetryFrame \<Rightarrow> bool" where
  "run_frame r f \<longleftrightarrow> sr_RunClockID r \<noteq> [] \<and> attr ''sim_clock_id'' (Attributes f) = sr_RunClockID r"

lemma attr_update: "attr k (AList.update k' v m) = (if k = k' then v else attr k m)"
  by (simp add: attr_def update_conv')

lemma attr_delete: "attr k (AList.delete k' m) = (if k = k' then [] else attr k m)"
  by (simp add: attr_def delete_conv')

lemma classified_status: "attr ''sim_run_status'' (Attributes (classified lib d st res f)) = rr_Status res"
  by (cases st) (auto simp: classified_def Let_def attr_update attr_delete split: option.splits)

lemma classified_run:
  "rr_Status res = ''valid'' \<Longrightarrow> attr ''sim_run_id'' (Attributes (classified lib d st res f)) = rr_RunID res
     \<and> attr ''sim_context_generation'' (Attributes (classified lib d st res f)) = format_integer lib (rr_Generation res)"
  by (cases st) (auto simp: classified_def Let_def attr_update attr_delete split: option.splits)

lemma Evaluate_valid:
  "rr_Status (Ledger_Evaluate v a b l) = ''valid'' \<Longrightarrow> \<exists>c. Ledger_Current l = Inr c \<and> rr_RunID (Ledger_Evaluate v a b l) = rc_RunID c
     \<and> rr_Generation (Ledger_Evaluate v a b l) = rc_Generation c \<and> rc_ProvisioningRevision c = v \<and> \<not> Before a (rc_ValidFrom c) \<and> Before b (rc_ExpiresAt c)"
  by (auto simp: Ledger_Evaluate_def Ledger_Current_def run_invalid_def run_unverified_def split: option.splits if_splits)

text \<open>An archive's context is that of its envelope, under any scope that accepts the envelope.\<close>

lemma verify_same: "verify lib s e = Inr c \<Longrightarrow> verify lib s' e = Inr c' \<Longrightarrow> c = c'"
  by (auto simp: verify_def split: option.splits if_splits)

lemma Open_envelope:
  "Ledger_Open lib disk scope = Inr l \<Longrightarrow> Ledger_Current l = Inr c \<Longrightarrow> \<exists>e. CurrentEnvelope l = Inr e \<and> verify lib (ls_Scope (lg_data l)) e = Inr c"
  by (auto simp: Ledger_Open_def Ledger_Current_def CurrentEnvelope_def split: option.splits sum.splits if_splits bool.splits)

lemma persist_ok: "persist lib w st (l, disk) = (None, l', disk') \<Longrightarrow> lg_data l' = st \<and> lg_failed l' = lg_failed l"
  by (auto simp: persist_def split: option.splits write_end.splits)

lemma map_of_filter_key: "map_of (filter (\<lambda>p. fst p = k) xs) k = map_of xs k"
  by (induction xs) auto

lemma map_of_sort_key: "map_of (sort_key fst xs) k = map_of xs k"
  by (metis map_of_filter_key sort_key_stable)

lemma mark_invalid_is: "is_invalid (mark_invalid r st) r"
  by (auto simp: is_invalid_def mark_invalid_def runs_update_def map_of_sort_key update_conv' split: option.splits)

text \<open>After a reset was noted, the ledger calls the archive's run invalidated.\<close>

lemma note_reset_invalidates:
  assumes "note_reset lib w True archive rb = (True, rb1)" "Ledger_Open (run_lib.truncate lib) disk scope = Inr archive" "Ledger_Current archive = Inr c"
  shows "Invalidated (rc_RunID c) (rb_ledger rb1) = Inr True"
proof -
  from Open_envelope [OF assms(2,3)] obtain e where e: "CurrentEnvelope archive = Inr e"
    "verify (run_lib.truncate lib) (ls_Scope (lg_data archive)) e = Inr c" by blast
  obtain y l' disk' where i: "InvalidateContext (run_lib.truncate lib) w e (rb_ledger rb, rb_disk rb) = (y, l', disk')" by (metis prod_cases3)
  with assms(1) e have y: "y = None" "rb_ledger rb1 = l'" by (auto simp: note_reset_def)
  from i y(1) obtain c' where c': "verify (run_lib.truncate lib) (ls_Scope (lg_data (rb_ledger rb))) e = Inr c'" "\<not> lg_failed (rb_ledger rb)"
    "persist (run_lib.truncate lib) w (mark_invalid (rc_RunID c') (lg_data (rb_ledger rb))) (rb_ledger rb, rb_disk rb) = (None, l', disk')"
    by (auto simp: InvalidateContext_def split: bool.splits option.splits sum.splits if_splits)
  with verify_same [OF e(2) c'(1)] persist_ok [OF c'(3)] y(2) show ?thesis
    by (auto simp: Invalidated_def mark_invalid_is)
qed

lemma new_receipt_frame:
  assumes "new_receipt gp d r iv rb f g = (Inr f1, g1)"
  obtains archive cxt rb1 where
    "Ledger_Open (run_lib.truncate (gp_lib gp)) (if dl_unreadable d (run_context_path (sr_Session r)) then None else map_of (gw_fs g) (run_context_path (sr_Session r)))
       \<lparr>sc_GatewayID = cs_GatewayID (ss_scope (gw_store g)), sc_ClockID = sr_RunClockID r\<rparr> = Inr archive"
    "Ledger_Current archive = Inr cxt"
    "note_reset (gp_lib gp) (dl_invalidate d) (attr ''sim_time_quality'' (Attributes f) = ''reset'') archive rb = (True, rb1)"
    "classify (gp_lib gp) d r iv archive cxt rb1 f = Some f1" "gw_run g1 = Some rb1"
    "\<exists>raw. marshal (gp_codec gp) f1 = Some raw \<and> map_of (gw_fs g1) (frame_receipt (gp_lib gp) d (sr_Session r)) = Some raw"
  using assms
  by (auto simp: new_receipt_def Let_def atomicFile_def update_conv'
      split: sum.splits prod.splits bool.splits option.splits write_end.splits if_splits)


section \<open>Receipts\<close>

text \<open>No operation of the gateway touches a receipt that is there.\<close>

definition kept :: "clock_fs \<Rightarrow> clock_fs \<Rightarrow> bool" where
  "kept fs fs' \<longleftrightarrow> (\<forall>n raw. map_of fs [''run-frames'', n] = Some raw \<longrightarrow> map_of fs' [''run-frames'', n] = Some raw)"

lemma kept_refl: "kept fs fs"
  by (simp add: kept_def)

lemma kept_trans: "kept fs fs1 \<Longrightarrow> kept fs1 fs2 \<Longrightarrow> kept fs fs2"
  by (simp add: kept_def)

lemma kept_update: "\<forall>n. p = [''run-frames'', n] \<longrightarrow> map_of fs p = None \<Longrightarrow> kept fs (AList.update p v fs)"
  by (auto simp: kept_def update_conv')

lemma kept_atomicFile: "\<forall>n. p = [''run-frames'', n] \<longrightarrow> map_of fs p = None \<Longrightarrow> kept fs (snd (atomicFile w p v fs))"
  by (auto simp: atomicFile_def kept_refl kept_update split: write_end.splits)

lemma kept_atomicFileD: "atomicFile w p v fs = (ok, fs') \<Longrightarrow> \<forall>n. p = [''run-frames'', n] \<longrightarrow> map_of fs p = None \<Longrightarrow> kept fs fs'"
  using kept_atomicFile [of p fs w v] by simp

lemmas other_paths = native_path_def session_path_def verified_path_def active_path_def run_context_path_def

lemma kept_new_receipt:
  "map_of (gw_fs g) (frame_receipt (gp_lib gp) d (sr_Session r)) = None \<Longrightarrow> kept (gw_fs g) (gw_fs (snd (new_receipt gp d r iv rb f g)))"
  by (auto simp: new_receipt_def Let_def kept_refl split: sum.splits prod.splits bool.splits option.splits elim!: kept_atomicFileD)

lemma kept_bindRunFrame: "kept (gw_fs g) (gw_fs (snd (bindRunFrame gp d r f g)))"
  by (auto simp: bindRunFrame_def kept_refl read_path_def split: option.splits file_read.splits if_splits intro!: kept_new_receipt)

lemma kept_quarantine: "kept (gw_fs g) (gw_fs (snd (quarantine gp d n reason g)))"
  by (auto simp: quarantine_def Let_def split: prod.splits bool.splits elim!: kept_atomicFileD)

lemma kept_process: "kept (gw_fs g) (gw_fs (snd (process gp d g)))"
proof -
  have b: "kept (gw_fs g) (gw_fs g1)" if "bindRunFrame gp d r f g = (x, g1)" for r f x g1 using kept_bindRunFrame [of g gp d r f] that by simp
  have st: "gw_fs (snd (store_frame gp d f h)) = gw_fs h" for f h by (auto simp: store_frame_def split: prod.splits option.splits)
  show ?thesis
    by (auto simp: process_def kept_refl kept_quarantine st split: option.splits prod.splits sum.splits bind_error.splits
        intro: kept_trans [OF b kept_quarantine] b)
qed

lemma kept_inter_step: "kept (gw_fs g) (gw_fs (inter_step gp i g))"
proof (cases i)
  case (Finishes d)
  with kept_process [of g gp d] show ?thesis by (auto simp: finish_delivery_def kept_refl split: prod.splits)
qed (auto simp: kept_refl Enter_def leave_def take_delivery_def RequestStop_def)

lemma kept_inters: "kept (gw_fs g) (gw_fs (inters gp is g))"
  unfolding inters_def
proof (induction "is" arbitrary: g)
  case (Cons i "is")
  from kept_trans [OF kept_inter_step Cons] show ?case by simp
qed (simp add: kept_refl)

lemma kept_ask: "ask gp g = (a, g') \<Longrightarrow> kept (gw_fs g) (gw_fs g')"
  using kept_inters [of "g\<lparr>gw_tick := gw_tick g + 1\<rparr>" gp "an_between (gw_env g (gw_tick g))"] by (auto simp: ask_def Let_def)

lemma kept_producer_Stop: "kept (gw_fs g) (gw_fs (snd (producer_Stop gp g)))"
  using kept_ask [of gp g] by (auto simp: producer_Stop_def split: prod.splits option.splits)

lemma kept_request: "kept (gw_fs g) (gw_fs (snd (gw_request gp action g)))"
proof (cases "gw_current g")
  case (Some r)
  let ?g = "g\<lparr>gw_requests := gw_requests g @ [(''cfg.bacnet.'' @ cs_ID (gw_base g) @ ''.runtime'', request_data (gp_lib gp) action r)]\<rparr>"
  obtain a g1 where a: "ask gp ?g = (a, g1)" by fastforce
  from kept_ask [OF a] Some a show ?thesis by (auto simp: gw_request_def split: option.splits)
qed (simp add: gw_request_def kept_refl)

lemma kept_quiesce: "kept (gw_fs g) (gw_fs (snd (quiesce gp g)))"
proof (cases "gw_started g")
  case True
  obtain x g1 where r: "gw_request gp ''quiesce'' g = (x, g1)" by fastforce
  from kept_request [of g gp "''quiesce''"] r have k: "kept (gw_fs g) (gw_fs g1)" by simp
  with True r show ?thesis by (auto simp: quiesce_def split: sum.splits intro: kept_trans [OF k kept_producer_Stop])
qed (simp add: quiesce_def kept_refl)

lemma kept_await_idle: "kept (gw_fs g) (gw_fs (snd (await_idle gp iss g)))"
proof (induction iss arbitrary: g)
  case (Cons "is" iss)
  from kept_trans [OF kept_inters Cons] show ?case by (auto simp: kept_refl)
qed (simp add: kept_refl)

lemma kept_Hold: "kept (gw_fs g) (gw_fs (snd (gw_Hold gp g)))"
proof -
  obtain a g1 where a: "ask gp (g\<lparr>gw_held := True\<rparr>) = (a, g1)" by fastforce
  obtain b g2 where w: "await_idle gp (an_waits a) g1 = (b, g2)" by fastforce
  from kept_trans [OF kept_ask [OF a]] kept_await_idle [of g1 gp "an_waits a"] w have k2: "kept (gw_fs g) (gw_fs g2)" by simp
  obtain y g3 where st: "producer_Stop gp g2 = (y, g3)" by fastforce
  from kept_trans [OF k2] kept_producer_Stop [of g2 gp] st have k3: "kept (gw_fs g) (gw_fs g3)" by simp
  show ?thesis using a w st k2 k3 kept_trans [OF k2 kept_quiesce] kept_trans [OF k3 kept_quiesce]
    by (auto simp: gw_Hold_def split: bool.splits option.splits)
qed

lemma kept_drain_loop: "kept (gw_fs g) (gw_fs (snd (drain_loop gp xs g)))"
proof (induction xs arbitrary: g)
  case (Cons x xs)
  from kept_trans [OF kept_inters Cons] show ?case by (cases x) (auto simp: kept_refl split: option.splits)
qed (simp add: kept_refl)

lemma kept_Drain: "kept (gw_fs g) (gw_fs (snd (gw_Drain gp g)))"
proof -
  obtain a g1 where a: "ask gp (g\<lparr>gw_draining := True\<rparr>) = (a, g1)" by fastforce
  from kept_trans [OF kept_ask [OF a] kept_drain_loop [of g1 gp "an_infos a"]] a show ?thesis
    by (auto simp: gw_Drain_def split: prod.splits)
qed

lemma kept_Start: "kept (gw_fs g) (gw_fs (snd (producer_Start gp g)))"
proof -
  obtain a g1 where a: "ask gp (g\<lparr>gw_started := True\<rparr>) = (a, g1)" by fastforce
  from kept_ask [OF a] a show ?thesis by (auto simp: producer_Start_def kept_refl split: option.splits prod.splits)
qed

lemma kept_Configure: "kept (gw_fs g) (gw_fs (snd (producer_Configure gp n g)))"
  by (auto simp: producer_Configure_def kept_refl split: option.splits prod.splits)

lemma kept_Done: "kept (gw_fs g) (gw_fs (snd (gw_Done gp g)))"
  using kept_ask [of gp g] by (auto simp: gw_Done_def split: prod.splits)

lemma kept_create: "create lib rnd w1 w2 s (ss, fs) = (x, ss', fs') \<Longrightarrow> kept fs fs'"
  by (auto simp: create_def Let_def kept_refl other_paths split: option.splits prod.splits bool.splits
      dest!: kept_atomicFileD intro: kept_trans)

lemma kept_Prepare: "kept (gw_fs g) (gw_fs (snd (gw_Prepare gp s g)))"
proof -
  obtain a g1 where a: "ask gp g = (a, g1)" by fastforce
  obtain x ss fs where c: "create (gp_lib gp) (an_random a) (an_write a) (an_write2 a) s (gw_store g1, gw_fs g1) = (x, ss, fs)" by (metis prod_cases3)
  from kept_ask [OF a] kept_trans [OF kept_ask [OF a] kept_create [OF c]] a c show ?thesis
    by (auto simp: gw_Prepare_def split: sum.splits)
qed

lemma kept_Revision: "kept (gw_fs g) (gw_fs (snd (producer_Revision gp g)))"
proof -
  obtain y g1 where rq: "gw_request gp ''status'' g = (y, g1)" by fastforce
  from kept_request [of g gp "''status''"] rq have k1: "kept (gw_fs g) (gw_fs g1)" by simp
  obtain a g2 where a: "ask gp g1 = (a, g2)" by fastforce
  from kept_trans [OF k1 kept_ask [OF a]] have k2: "kept (gw_fs g) (gw_fs g2)" .
  have v: "kept fs fs'" if "session_verify w r (ss, fs) = (ok, ss', fs')" for w r ss fs ok ss' fs'
    using that by (auto simp: session_verify_def other_paths split: prod.splits bool.splits dest!: kept_atomicFileD)
  show ?thesis using rq a k1 kept_trans [OF k2 v]
    by (auto simp: producer_Revision_def split: sum.splits option.splits prod.splits bool.splits)
qed

lemma kept_run_context: "kept fs (AList.update (run_context_path i) v fs)"
  by (rule kept_update) (simp add: run_context_path_def)

lemma kept_session_file: "atomicFile w (session_path i) v fs = (ok, fs') \<Longrightarrow> kept fs fs'"
  by (erule kept_atomicFileD) (simp add: session_path_def)

lemma kept_activate: "activateRunSession gp r g = (x, g') \<Longrightarrow> kept (gw_fs g) (gw_fs g')"
  unfolding activateRunSession_def
  by (auto simp: Let_def set_run_clock_def kept_refl split: option.splits prod.splits if_splits
      dest!: kept_session_file intro: kept_run_context kept_trans [OF kept_run_context])

lemma kept_open_gate: "kept (gw_fs g) (gw_fs (snd (open_gate gp g)))"
proof -
  have c: "kept fs fs'" if "session_commit w r fs = (ok, fs')" for w r fs ok fs'
    using that by (auto simp: session_commit_def other_paths dest!: kept_atomicFileD)
  show ?thesis
    by (auto simp: open_gate_def kept_refl split: option.splits prod.splits bool.splits dest!: c kept_ask intro: kept_trans)
qed

lemma kept_Resume: "kept (gw_fs g) (gw_fs (snd (gw_Resume gp g)))"
proof -
  obtain a g0 where a: "ask gp g = (a, g0)" by fastforce
  note k0 = kept_ask [OF a]
  have "kept (gw_fs g0) (gw_fs (snd (case activateRunSession gp r g0 of (Some e, g1) \<Rightarrow> (Some e, g1) | (None, g1) \<Rightarrow>
      (case gw_request gp ''resume'' g1 of (Inl e, g2) \<Rightarrow> (Some e, g2) | (Inr (_, paused), g2) \<Rightarrow> if paused then (Some ConnectorFailed, g2) else open_gate gp g2))))" for r
  proof -
    obtain y g1 where act: "activateRunSession gp r g0 = (y, g1)" by fastforce
    obtain z g2 where rq: "gw_request gp ''resume'' g1 = (z, g2)" by fastforce
    from kept_trans [OF kept_activate [OF act]] kept_request [of g1 gp "''resume''"] rq have k2: "kept (gw_fs g0) (gw_fs g2)" by simp
    with act rq kept_activate [OF act] kept_trans [OF k2 kept_open_gate] show ?thesis by (auto split: option.splits sum.splits)
  qed
  with a k0 kept_trans [OF k0] show ?thesis by (auto simp: gw_Resume_def split: option.splits)
qed

lemma kept_Shutdown: "kept (gw_fs g) (gw_fs (snd (Shutdown gp g)))"
proof -
  obtain x g1 where h: "gw_Hold gp (RequestStop g) = (x, g1)" by fastforce
  from kept_Hold [of "RequestStop g" gp] h have k1: "kept (gw_fs g) (gw_fs g1)" by (simp add: RequestStop_def)
  obtain y g2 where st: "producer_Stop gp g1 = (y, g2)" by fastforce
  from kept_trans [OF k1] kept_producer_Stop [of g1 gp] st have k2: "kept (gw_fs g) (gw_fs g2)" by simp
  obtain z g3 where d: "gw_Done gp g2 = (z, g3)" by fastforce
  from kept_trans [OF k2] kept_Done [of g2 gp] d have k3: "kept (gw_fs g) (gw_fs g3)" by simp
  show ?thesis using h st d k2 k3 kept_trans [OF k3 kept_Drain] by (auto simp: Shutdown_def split: option.splits)
qed

lemma kept_other: "kept (gw_fs g) (gw_fs (gw_other gp i g))"
  by (cases i) (simp_all add: kept_inters kept_Shutdown)

lemma kept_rv_step: "kept (gw_fs (rv_world q)) (gw_fs (rv_world (rv_step gp c q)))"
proof (cases c)
  case (CallConfigure s)
  obtain y g where p: "gw_Prepare gp s (rv_world q) = (y, g)" by fastforce
  with kept_Prepare [of "rv_world q" gp s] have k: "kept (gw_fs (rv_world q)) (gw_fs g)" by simp
  obtain z g' where n: "producer_Configure gp (cls_native s) g = (z, g')" by fastforce
  from kept_trans [OF k] kept_Configure [of g gp "cls_native s"] n have "kept (gw_fs (rv_world q)) (gw_fs g')" by simp
  with CallConfigure p n k show ?thesis
    by (auto simp: ConfigureSnapshot_def rv_Configure_def gateway_ops_def split: option.splits)
qed (use kept_Hold [of "rv_world q" gp] kept_producer_Stop [of "rv_world q" gp] kept_Drain [of "rv_world q" gp] kept_Start [of "rv_world q" gp]
      kept_Revision [of "rv_world q" gp] kept_Resume [of "rv_world q" gp] kept_Done [of "rv_world q" gp] kept_other [of "rv_world q" gp] in
     \<open>auto simp: rv_Hold_def rv_Stop_def rv_Drain_def rv_Start_def rv_Verify_def rv_Resume_def rv_Done_def rv_beside_def gateway_ops_def
        kept_refl Let_def split: prod.splits option.splits sum.splits\<close>)

lemma kept_rv_run: "kept (gw_fs (rv_world q)) (gw_fs (rv_world (rv_run gp cs q)))"
  unfolding rv_run_def
proof (induction cs arbitrary: q)
  case (Cons c cs)
  from kept_trans [OF kept_rv_step Cons] show ?case by simp
qed (simp add: kept_refl)

text \<open>What a classification leaves behind.\<close>

lemma bindRunFrame_receipt:
  assumes "bindRunFrame gp d r f g = (Inr f1, g1)" "run_frame r f"
    and "\<And>raw. marshal (gp_codec gp) f1 = Some raw \<Longrightarrow> unmarshal (gp_codec gp) raw = Some f1"
  shows "\<exists>raw. map_of (gw_fs g1) (frame_receipt (gp_lib gp) d (sr_Session r)) = Some raw \<and> unmarshal (gp_codec gp) raw = Some f1"
proof -
  from assms(1,2) obtain rb iv where b: "gw_run g = Some rb" "poll_interval (gp_lib gp) d f = Some iv"
    by (auto simp: bindRunFrame_def run_frame_def split: option.splits if_splits)
  show ?thesis
  proof (cases "read_path (dl_unreadable d) (gw_fs g) (frame_receipt (gp_lib gp) d (sr_Session r))")
    case (FileData raw)
    with assms(1,2) b show ?thesis
      by (auto simp: bindRunFrame_def run_frame_def read_path_def split: option.splits if_splits)
  next
    case FileMissing
    with assms(1,2) b have "new_receipt gp d r iv rb f g = (Inr f1, g1)" by (auto simp: bindRunFrame_def run_frame_def split: if_splits)
    then show ?thesis by (rule new_receipt_frame) (use assms(3) in blast)
  next
    case FileError
    with assms(1,2) b show ?thesis by (auto simp: bindRunFrame_def run_frame_def split: if_splits)
  qed
qed

text \<open>C19: A classification is made once. When an event of a run's clock has been classified, then whatever the gateway, its
  controller and the ledger do afterwards - reset, expiry and new runs included - a redelivery of the same message in the
  same session either fails or gets the very same frame. Protobuf is assumed to read back the frame it has written.\<close>

theorem run_frame_replay_stable:
  assumes "bindRunFrame gp d r f (rv_world q) = (Inr f1, g1)" "run_frame r f"
    and codec: "\<And>raw. marshal (gp_codec gp) f1 = Some raw \<Longrightarrow> unmarshal (gp_codec gp) raw = Some f1"
    and later: "q2 = rv_run gp cs (q\<lparr>rv_world := g1\<rparr>)"
    and same: "dl_Headers d2 = dl_Headers d" "dl_Data d2 = dl_Data d" "sr_Session r2 = sr_Session r" "run_frame r2 f2"
    and again: "bindRunFrame gp d2 r2 f2 (rv_world q2) = (Inr f3, g3)"
  shows "f3 = f1"
proof -
  from bindRunFrame_receipt [OF assms(1,2) codec] obtain raw where
    raw: "map_of (gw_fs g1) (frame_receipt (gp_lib gp) d (sr_Session r)) = Some raw" "unmarshal (gp_codec gp) raw = Some f1" by blast
  from kept_rv_run [of "q\<lparr>rv_world := g1\<rparr>" gp cs] raw(1) later
  have "map_of (gw_fs (rv_world q2)) (frame_receipt (gp_lib gp) d (sr_Session r)) = Some raw"
    by (auto simp: kept_def frame_receipt_def Let_def)
  then have "map_of (gw_fs (rv_world q2)) (frame_receipt (gp_lib gp) d2 (sr_Session r2)) = Some raw"
    using same by (simp add: frame_receipt_def)
  with again same(4) raw(2) show ?thesis
    by (auto simp: bindRunFrame_def run_frame_def read_path_def split: option.splits if_splits)
qed

section \<open>A valid frame\<close>

text \<open>
  A run that was committed and applied, a session bound to its clock, and a poll within its lifetime. The library reads two texts, the
  ledger's file and the context in its envelope.
\<close>

definition frame_ledger_json :: json where
  "frame_ledger_json = JObj [(''invalidRuns'', JObj []), (''version'', JNum ''11''), (''scope'', JObj [(''gatewayId'', JStr ''g''), (''clockId'', JStr ''k'')]),
     (''envelope'', JObj [(''payload'', JStr ''E'')]), (''committedAt'', JStr ''11''), (''appliedAt'', JStr ''111'')]"

definition frame_context_json :: json where
  "frame_context_json = JObj [(''schemaVersion'', JStr run_schema), (''gatewayId'', JStr ''g''), (''clockId'', JStr ''k''), (''provisioningRevision'', JStr ''v''),
     (''runId'', JStr ''r''), (''generation'', JNum ''1''), (''status'', JStr ''active''), (''issuedAt'', JStr ''1''), (''validFrom'', JStr ''1''),
     (''expiresAt'', JStr ''111111111'')]"

definition frame_lib :: session_lib where
  "frame_lib = clock_lib.extend
     (text_clock_lib\<lparr>json_read := (\<lambda>s. if s = ''A'' then Some frame_ledger_json else if s = ''E'' then Some frame_context_json else None), json_write := (\<lambda>_. [])\<rparr>)
     (session_lib.fields Some (\<lambda>_ _. []) concat (\<lambda>_. None) (\<lambda>t. replicate (nat (gt_ns t)) CHR ''1''))"

definition frame_ledger :: Ledger where
  "frame_ledger = (case Ledger_Open (run_lib.truncate frame_lib) (Some ''A'') small_scope of Inr l \<Rightarrow> l)"

definition frame_binding :: runBinding where
  "frame_binding = \<lparr>rb_config = \<lparr>rcc_ClockID = ''k'', rcc_EnvelopeFile = ''/e'', rcc_LedgerFile = ''/l''\<rparr>, rb_ledger = frame_ledger, rb_disk = Some ''A''\<rparr>"

definition frame_session :: sessionRecord where
  "frame_session = \<lparr>sr_RunClockID = ''k'', sr_Session = ''s'', sr_Snapshot = ''S'', sr_snapshot = small_snapshot, sr_nativeHash = ''h'', sr_verified = True\<rparr>"

definition frame_gateway :: "unit Gateway" where
  "frame_gateway = (the small_gateway)\<lparr>gw_run := Some frame_binding, gw_fs := [(run_context_path ''s'', ''A'')]\<rparr>"

definition frame_delivery :: clock_delivery where
  "frame_delivery = \<lparr>dl_Sequence = Some 1, dl_Subject = ''e'', dl_Headers = [(''Nexus-Poll-Started-At'', [''111111'']), (''Nexus-Poll-Ended-At'', [''11111111''])],
     dl_Data = ''d'', dl_now = utc 9, dl_db = (\<lambda>_. True), dl_invalidate = WriteOK, dl_receipt = WriteOK, dl_quarantine = WriteOK,
     dl_unreadable = (\<lambda>_. False), dl_settles = True\<rparr>"

definition clock_frame :: TelemetryFrame where
  "clock_frame = (sample_frame ''p'')\<lparr>Timestamp := ''1111111'', Attributes := [(''sim_clock_id'', ''k'')]\<rparr>"

text \<open>A codec for the one frame that is written.\<close>

definition valid_frame :: TelemetryFrame where
  "valid_frame = the (classify frame_lib frame_delivery frame_session (utc 6, utc 8) frame_ledger (the (lg_context frame_ledger)) frame_binding clock_frame)"

definition frame_params :: "unit gw_params" where
  "frame_params = small_params\<lparr>gp_lib := frame_lib,
     gp_codec := \<lparr>marshal = (\<lambda>_. Some ''w''), unmarshal = (\<lambda>_. Some valid_frame), encode_attrs = (\<lambda>_. []), decode_attrs = (\<lambda>_. [])\<rparr>\<rparr>"

definition frame_later :: "unit Gateway \<Rightarrow> unit Gateway ResolverRuntime" where
  "frame_later g = rv_run frame_params [CallHold, CallBeside (Others [StopRequested])] (small_runtime\<lparr>rv_world := g\<rparr>)"

definition frame_check :: bool where
  "frame_check \<longleftrightarrow>
     (case bindRunFrame frame_params frame_delivery frame_session clock_frame frame_gateway of
        (Inr f1, g1) \<Rightarrow> f1 = valid_frame \<and> attr ''sim_run_status'' (Attributes f1) = ''valid''
          \<and> \<not> isl (fst (bindRunFrame frame_params frame_delivery frame_session clock_frame (rv_world (frame_later g1))))
      | _ \<Rightarrow> False)"

lemma frame_checked: "frame_check \<and> poll_interval frame_lib frame_delivery clock_frame = Some (utc 6, utc 8)"
  by code_simp

lemma frame_new_receipt:
  "bindRunFrame frame_params frame_delivery frame_session clock_frame frame_gateway
     = new_receipt frame_params frame_delivery frame_session (utc 6, utc 8) frame_binding clock_frame frame_gateway"
proof -
  have "gp_lib frame_params = frame_lib" "gw_run frame_gateway = Some frame_binding" "sr_RunClockID frame_session = ''k''"
    "rcc_ClockID (rb_config frame_binding) = ''k''" "attr ''sim_clock_id'' (Attributes clock_frame) = ''k''"
    by (simp_all add: frame_params_def frame_gateway_def frame_session_def frame_binding_def clock_frame_def attr_def)
  moreover have "read_path (dl_unreadable frame_delivery) (gw_fs frame_gateway) (frame_receipt frame_lib frame_delivery (sr_Session frame_session)) = FileMissing"
    by (simp add: read_path_def frame_delivery_def frame_gateway_def frame_receipt_def run_context_path_def Let_def)
  ultimately show ?thesis by (simp add: bindRunFrame_def frame_checked)
qed


theorem run_frame_replay_stable_witness:
  "\<exists>f3 g1 g3. bindRunFrame frame_params frame_delivery frame_session clock_frame (rv_world (frame_later g1)) = (Inr f3, g3) \<and> f3 = valid_frame"
proof -
  from frame_checked obtain g1 where b: "bindRunFrame frame_params frame_delivery frame_session clock_frame frame_gateway = (Inr valid_frame, g1)"
    "\<not> isl (fst (bindRunFrame frame_params frame_delivery frame_session clock_frame (rv_world (frame_later g1))))"
    by (auto simp: frame_check_def split: prod.splits sum.splits)
  then obtain f3 g3 where a: "bindRunFrame frame_params frame_delivery frame_session clock_frame (rv_world (frame_later g1)) = (Inr f3, g3)"
    by (metis isl_def prod.collapse sum.exhaust)
  have rf: "run_frame frame_session clock_frame" by (simp add: run_frame_def frame_session_def clock_frame_def attr_def)
  have w: "rv_world (small_runtime\<lparr>rv_world := frame_gateway\<rparr>) = frame_gateway" by simp
  have "f3 = valid_frame"
    by (rule run_frame_replay_stable [of frame_params frame_delivery frame_session clock_frame "small_runtime\<lparr>rv_world := frame_gateway\<rparr>",
          unfolded w, OF b(1) rf _ _ refl refl refl rf a])
      (simp_all add: frame_params_def frame_later_def)
  with a show ?thesis by blast
qed

end
