(* ===== verification/Spec2Isabelle.thy ===== *)
theory Spec2Isabelle
  imports Point_Sync_Facts Mqtt_Facts Mqtt_Pipeline Lifecycle_Facts Clock_Frames
begin

text \<open>
  \<^bold>\<open>nexus-gateway: a verification library\<close>

  \<^bold>\<open>The program.\<close> A gateway between the field devices of a building and a Building OS. Connectors (containers
  the gateway manages) publish Common Events on a JetStream stream. The normalizer turns each event into a
  telemetry frame by looking up its address in the Point List; the pump writes the frames to a bounded
  store; the forwarder drains the store over a gRPC stream and moves a persisted cursor on acknowledged
  checkpoints. In the other direction the egress agent receives commands, the dispatcher turns each into
  a write request to a connector, and the result goes back up. The Point List is synchronised from
  the Building OS, and the MQTT connector's subscriptions are derived from it. An opt-in mode provisions one BACnet connector
  from whole snapshots with simulation clocks: a controller replaces configuration and mapping together behind a closed
  gate, every event is bound to the session it was made in, and frames are classified against the run of their clock.

  \<^bold>\<open>Telemetry path.\<close>
  \<^item> \<open>Store_Forward\<close>, \<open>Store_Forward_Facts\<close>: \<open>internal/storeforward/buffer.go\<close>, \<open>ack.go\<close>. The SQLite file is a record with the
    frames table, the cursor and the schema version; a statement that fails is an argument of the
    operation. Write refines a push onto a bounded ring, counters and rows add up along every run, a failed write
    changes nothing, an interrupted migration converges.
  \<^item> \<open>Seq_Window\<close>, \<open>Pump\<close>: \<open>internal/storeforward/pump.go\<close>. The duplicate window is a bit set on 64-bit words that
    refines a set of recent numbers; a message is acknowledged only when written, and written once.
  \<^item> \<open>Uplink\<close>, \<open>Uplink_Facts\<close>, \<open>Uplink_Delivery\<close>, \<open>Uplink_Retry\<close>: \<open>internal/uplink\<close>, \<open>internal/retry/backoff.go\<close>,
    \<open>internal/mockbos/server.go\<close>. The forwarder is proved against the interface of a frame sink (locales \<open>frame_sink\<close>,
    \<open>audited_sink\<close>), which the gRPC sink provides from the documented behaviour of a client
    stream (\<open>telemetry_rpc\<close>). The cursor never passes an unacknowledged frame, runs return, a healthy link delivers all.
  \<^item> \<open>Normalizer\<close>: \<open>internal/common\<close>, \<open>internal/normalizer/normalizer.go\<close>.

  \<^bold>\<open>Point List.\<close>
  \<^item> \<open>Go_Lib\<close>: the parts of Go's standard library in use (strings, JSON trees, CSV records).
  \<^item> \<open>Point_List\<close>, \<open>Point_List_Facts\<close>: \<open>internal/pointlist\<close>; both resolvers interpret the locale \<open>resolver\<close>.
  \<^item> \<open>Provisioning\<close>, \<open>Point_Sync\<close>, \<open>Point_Sync_Facts\<close>: \<open>internal/provisioning\<close>, \<open>internal/pointsync/loop.go\<close>.

  \<^bold>\<open>Control path.\<close> \<open>Control\<close>, \<open>Control_Facts\<close>: \<open>internal/egress/agent.go\<close>, \<open>internal/dispatch/dispatcher.go\<close>, \<open>connector/sdk\<close>.
  Commands are written at most once per control id, only to writable points, and answered in order.

  \<^bold>\<open>MQTT.\<close> \<open>Mqtt_Topics\<close>, \<open>Mqtt_Sync\<close>, \<open>Mqtt_Facts\<close>: \<open>internal/mqttsync\<close>, \<open>connector/mqtt/topicmatch.go\<close> and the subscriptions of
  \<open>connector/mqtt/connector.go\<close>. \<open>Mqtt_Connector\<close>, \<open>Mqtt_Pipeline\<close>: payloads, the publish queue, writes and the freshness floor.

  \<^bold>\<open>Connector lifecycle.\<close> \<open>Catalog\<close>: \<open>internal/catalog\<close>. \<open>Lifecycle\<close>, \<open>Health\<close>, \<open>Lifecycle_Facts\<close>: \<open>internal/lifecycle\<close>. The container engine is a
  parameter with a state of its own. The locale \<open>manager_invariant\<close> says what an invariant has to promise to hold
  under every sequence of calls; it is interpreted for the shape of the registry and for the images containers are created from.

  \<^bold>\<open>Clock provisioning.\<close>
  \<^item> \<open>Text_Codec\<close>, \<open>Run_Ledger\<close>, \<open>Run_Ledger_Facts\<close>: \<open>internal/runcontext/context.go\<close>, the durable history of run contexts; the first is a JSON
    text codec that instantiates the library parameters. The ledger's file opens after any failed writes, a run once invalidated is never
    valid again, generations only grow.
  \<^item> \<open>Clock_Stage\<close>, \<open>Clock_Stage_Facts\<close>, \<open>Clock_Client\<close>: \<open>internal/provisioning/clock.go\<close>, \<open>clock_http.go\<close>. A snapshot that passes staging is coherent; a fetch makes a
    bounded number of attempts and returns only staged snapshots.
  \<^item> \<open>Clock_Controller\<close>, \<open>Clock_Controller_Facts\<close>: \<open>internal/clocksync/controller.go\<close>, \<open>runtime.go\<close>. The contract of a runtime is the locale \<open>clock_runtime\<close>, that of
    gate and connector \<open>admission\<close>, and a sublocale gives the first from the second. In the first, what the controller reports as applied
    is shown to be what the runtime serves.
  \<^item> \<open>Clock_Sessions\<close>, \<open>Clock_Worker\<close>, \<open>Clock_Gateway\<close>, \<open>Clock_Gateway_Facts\<close>, \<open>Clock_Admission\<close>, \<open>Clock_Frames\<close>: \<open>internal/clocksync/sessions.go\<close>, \<open>nats.go\<close>, \<open>connector.go\<close>, \<open>run_context.go\<close>,
    \<open>gateway.go\<close>. One state holds journal, files, ledger, buffer, counters and the managed connector. Wherever an operation waits or calls
    out it asks \<open>gw_env\<close>, whose answer says how the call ends and what commands, deliveries and stop requests come in between. The gateway
    interprets \<open>admission\<close>: an open gate serves the applied revision, and no command overlaps a reconfiguration. Only events
    of verified sessions become frames, a frame is valid only of the ledger's current run, and a redelivery gets the same classification.

  \<^bold>\<open>Conventions.\<close> A Go string is a list of bytes. A map the code ranges over is an association list, and the order of the
  range is a parameter \<open>ord\<close> that permutes the keys. Doubles are their 64 bits, or rationals where only
  arithmetic is at stake; 64-bit integers wrap where the code can overflow them. Code outside the
  repository (NATS, gRPC, the MQTT client, the container engine, JSON text, clocks, random numbers) is an argument, and
  what is relied on of it is a hypothesis with a name. Goroutines that share state are interleaved
  as sequences of events; what a mutex makes atomic is one step.

  \<^bold>\<open>Bounds and fuel.\<close> Loops that wait for the outside run over the list of what happens to them, so a run ends when the
  list does; where the code promises to return, the theorem says that it does. \<open>Ingress_Run\<close> has fuel for the drain loops,
  and \<open>Ingress_Run_returns\<close> shows that some amount is enough once the pump pauses.

  \<^bold>\<open>Not modelled.\<close> The main programs (flags and wiring), the administration interface, logging and metrics (text for operators),
  TLS set-up, creation of JetStream consumers and dialling, the container engine's log stream, file modes, generated protobuf code
  beyond the messages' fields, the simulated connector, and test support (\<open>testbroker\<close>, \<open>testca\<close>, the mock Building OS's console).
  These talk to libraries the repository does not contain, and keep no state that other parts rely on.

  The manifest maps the definitions to lines; minor ones (field tables, zero values, enumerations of errors, wrappers of library calls) whose
  lines another definition covers are left to that one.
\<close>

end
